(* ===== verification/HailPrelude.thy ===== *)
theory HailPrelude
  imports Main "HOL-Library.Word"
begin

text \<open>
  Shared vocabulary of the development: the fixed-width integer types of the C++ sources, the
  byte-addressed physical memory the kernel works on (identity mapped, so an address is both the
  pointer and the physical location), little-endian loads and stores, and the arithmetic lemmas on
  words that the component proofs use. Nothing in this theory models a particular source file.
\<close>

unbundle bit_operations_syntax

type_synonym u8 = "8 word"
type_synonym u16 = "16 word"
type_synonym u32 = "32 word"
type_synonym u64 = "64 word"

text \<open>
  The contents of memory, one byte per address. \<open>byte_array\<close> is the view a routine has of an
  object it is handed as a pointer: index \<open>i\<close> is the byte at \<open>pointer + i\<close>, whether or not it is
  still inside the object, so a read or write past the end is an ordinary access at a large index.
\<close>

type_synonym memory = "u64 \<Rightarrow> u8"
type_synonym byte_array = "nat \<Rightarrow> u8"

definition ptr_view :: "memory \<Rightarrow> u64 \<Rightarrow> byte_array" where
  "ptr_view m a = (\<lambda>i. m (a + of_nat i))"

named_theorems mem_simps \<open>loads after stores\<close>
named_theorems nowrap \<open>unat of word arithmetic that does not wrap\<close>

subsection \<open>Loads and stores\<close>

definition write_bytes :: "memory \<Rightarrow> u64 \<Rightarrow> u8 list \<Rightarrow> memory" where
  "write_bytes m a bs = (\<lambda>x. if unat (x - a) < length bs then bs ! unat (x - a) else m x)"

definition read_bytes :: "memory \<Rightarrow> u64 \<Rightarrow> nat \<Rightarrow> u8 list" where
  "read_bytes m a n = map (\<lambda>i. m (a + of_nat i)) [0..<n]"

definition le_bytes :: "nat \<Rightarrow> u64 \<Rightarrow> u8 list" where
  "le_bytes n w = map (\<lambda>i. ucast (drop_bit (8 * i) w)) [0..<n]"

primrec from_le :: "u8 list \<Rightarrow> u64" where
  "from_le [] = 0"
| "from_le (b # bs) = ucast b OR push_bit 8 (from_le bs)"

definition write64 :: "memory \<Rightarrow> u64 \<Rightarrow> u64 \<Rightarrow> memory" where
  "write64 m a v = write_bytes m a (le_bytes 8 v)"

definition read64 :: "memory \<Rightarrow> u64 \<Rightarrow> u64" where
  "read64 m a = from_le (read_bytes m a 8)"

definition write32 :: "memory \<Rightarrow> u64 \<Rightarrow> u32 \<Rightarrow> memory" where
  "write32 m a v = write_bytes m a (le_bytes 4 (ucast v))"

definition read32 :: "memory \<Rightarrow> u64 \<Rightarrow> u32" where
  "read32 m a = ucast (from_le (read_bytes m a 4))"

definition read16 :: "memory \<Rightarrow> u64 \<Rightarrow> u16" where
  "read16 m a = ucast (from_le (read_bytes m a 2))"

text \<open>Two byte ranges that share no address (addresses wrap at \<open>2 ^ 64\<close>).\<close>

definition ranges_apart :: "u64 \<Rightarrow> nat \<Rightarrow> u64 \<Rightarrow> nat \<Rightarrow> bool" where
  "ranges_apart a n b k \<longleftrightarrow> (\<forall>i<n. \<forall>j<k. a + of_nat i \<noteq> b + of_nat j)"

subsection \<open>Word arithmetic without wrap-around\<close>

lemma unat_add_nowrap [nowrap]:
  fixes a b :: "'a::len word"
  assumes "unat a + unat b < 2 ^ LENGTH('a)"
  shows "unat (a + b) = unat a + unat b"
  using assms by (simp add: unat_add_lem [symmetric])

lemma unat_mult_nowrap [nowrap]:
  fixes a b :: "'a::len word"
  assumes "unat a * unat b < 2 ^ LENGTH('a)"
  shows "unat (a * b) = unat a * unat b"
  using assms by (simp add: unat_mult_lem [symmetric])

lemma unat_of_nat_nowrap [nowrap]:
  "n < 2 ^ LENGTH('a::len) \<Longrightarrow> unat (of_nat n :: 'a word) = n"
  by (simp add: unat_of_nat)

lemma unat_minus_of_nat:
  assumes "0 < n" and "n < 18446744073709551616"
  shows "unat (- (of_nat n :: u64)) = 18446744073709551616 - n"
proof -
  have "(of_nat 18446744073709551616 :: u64) = 0" by simp
  then have "- (of_nat n :: u64) = of_nat (18446744073709551616 - n)"
    using assms(2) by (subst of_nat_diff) auto
  then have "unat (- (of_nat n :: u64)) = unat (of_nat (18446744073709551616 - n) :: u64)" by (rule arg_cong)
  also have "\<dots> = 18446744073709551616 - n" using assms by (intro unat_of_nat_nowrap) simp
  finally show ?thesis .
qed

lemma unat_2_power: "n < LENGTH('a::len) \<Longrightarrow> unat (2 ^ n :: 'a word) = 2 ^ n"
  using unat_of_nat_nowrap [of "2 ^ n", where 'a = 'a] by simp

lemma diff_mult_div: "f * k \<le> e \<Longrightarrow> 0 < k \<Longrightarrow> (e - f * k) div k = e div k - (f :: nat)"
  by (metis add_diff_cancel_left' div_mult_self3 le_add_diff_inverse nat_less_le)

lemma unat_lt2p: "unat (w :: 'a::len word) < 2 ^ LENGTH('a)"
  by (rule unsigned_less)

lemma unat_ucast_up:
  fixes w :: "'a::len word"
  assumes "LENGTH('a) \<le> LENGTH('b)"
  shows "unat (ucast w :: 'b::len word) = unat w"
proof -
  have "unat w < 2 ^ LENGTH('b)"
    using unat_lt2p [of w] assms by (meson less_le_trans one_le_numeral power_increasing)
  then show ?thesis by (simp add: unsigned_ucast_eq take_bit_nat_eq_self)
qed

lemma unat_less_2p64 [simp]: "unat (w :: u64) < 18446744073709551616"
  using unat_lt2p [of w] by simp

lemma unat_less_2p32 [simp]: "unat (w :: u32) < 4294967296"
  using unat_lt2p [of w] by simp

lemma unat_less_256 [simp]: "unat (w :: u8) < 256"
  using unat_lt2p [of w] by simp

lemma and_not_mask_eq_div:
  fixes w :: "'a::len word"
  shows "unat (w AND NOT (mask n)) = unat w div 2 ^ n * 2 ^ n"
proof -
  have "w AND NOT (mask n) = push_bit n (drop_bit n w)"
    by (rule bit_word_eqI) (auto simp: bit_simps)
  also have "unat \<dots> = unat w div 2 ^ n * 2 ^ n"
  proof (cases "n < LENGTH('a)")
    case True
    have le: "unat w div 2 ^ n * 2 ^ n \<le> unat w" by simp
    have lt: "unat w < 2 ^ LENGTH('a)" by (rule unat_lt2p)
    have dr: "unat (drop_bit n w) = unat w div 2 ^ n"
      by (simp only: unat_drop_bit_eq) (simp only: drop_bit_eq_div)
    have "unat (push_bit n (drop_bit n w)) = take_bit LENGTH('a) (unat w div 2 ^ n * 2 ^ n)"
      by (simp only: unsigned_push_bit_eq dr) (simp only: push_bit_eq_mult)
    also have "\<dots> = unat w div 2 ^ n * 2 ^ n"
      using le lt by (intro take_bit_nat_eq_self) linarith
    finally show ?thesis .
  next
    case False
    then have "(2::nat) ^ LENGTH('a) \<le> 2 ^ n" by (intro power_increasing) auto
    with unat_lt2p [of w] have "unat w div 2 ^ n = 0" by (intro div_less) linarith
    moreover have "push_bit n (drop_bit n w) = 0"
      using False by (intro bit_word_eqI) (auto simp: bit_simps)
    ultimately show ?thesis by simp
  qed
  finally show ?thesis .
qed

subsection \<open>Loads after stores\<close>

lemma length_read_bytes [simp]: "length (read_bytes m a n) = n"
  by (simp add: read_bytes_def)

lemma length_le_bytes [simp]: "length (le_bytes n w) = n"
  by (simp add: le_bytes_def)

lemma nth_read_bytes [simp]: "i < n \<Longrightarrow> read_bytes m a n ! i = m (a + of_nat i)"
  by (simp add: read_bytes_def)

lemma read_bytes_0 [simp]: "read_bytes m a 0 = []"
  by (simp add: read_bytes_def)

lemma read_bytes_Suc: "read_bytes m a (Suc n) = m a # read_bytes m (a + 1) n"
  by (intro nth_equalityI) (auto simp: nth_Cons ac_simps split: nat.splits)

lemma read_bytes_numeral:
  "read_bytes m a 1 = [m a]" "read_bytes m a (Suc 0) = [m a]"
  "read_bytes m a 2 = [m a, m (a + 1)]"
  "read_bytes m a 4 = [m a, m (a + 1), m (a + 2), m (a + 3)]"
  "read_bytes m a 8 = [m a, m (a + 1), m (a + 2), m (a + 3), m (a + 4), m (a + 5), m (a + 6), m (a + 7)]"
  by (simp_all add: eval_nat_numeral read_bytes_Suc add.assoc)

lemma read_write_bytes_same [mem_simps]:
  assumes "length bs = n" and "n < 2 ^ 64"
  shows "read_bytes (write_bytes m a bs) a n = bs"
  using assms by (intro nth_equalityI) (auto simp: write_bytes_def unat_of_nat_nowrap)

lemma write_bytes_other:
  assumes "\<And>i. i < length bs \<Longrightarrow> x \<noteq> a + of_nat i"
  shows "write_bytes m a bs x = m x"
proof (cases "unat (x - a) < length bs")
  case True
  then have "x \<noteq> a + of_nat (unat (x - a))" by (rule assms)
  then show ?thesis by simp
qed (simp add: write_bytes_def)

lemma ranges_apart_sym: "ranges_apart a n b k \<Longrightarrow> ranges_apart b k a n"
  by (metis ranges_apart_def)

lemma read_write_bytes_apart [mem_simps]:
  assumes "ranges_apart a (length bs) b n"
  shows "read_bytes (write_bytes m a bs) b n = read_bytes m b n"
proof (rule nth_equalityI)
  fix i assume "i < length (read_bytes (write_bytes m a bs) b n)"
  then have i: "i < n" by simp
  have "write_bytes m a bs (b + of_nat i) = m (b + of_nat i)"
    using assms i by (intro write_bytes_other) (metis ranges_apart_def)
  with i show "read_bytes (write_bytes m a bs) b n ! i = read_bytes m b n ! i" by simp
qed simp

lemma ranges_apartI:
  assumes "unat a + n \<le> unat b \<or> unat b + k \<le> unat a"
    and "unat a + n \<le> 2 ^ 64" and "unat b + k \<le> 2 ^ 64"
  shows "ranges_apart a n b k"
  unfolding ranges_apart_def
proof (intro allI impI notI)
  fix i j assume ij: "i < n" "j < k" and eq: "a + of_nat i = b + of_nat j"
  have ui: "unat (of_nat i :: u64) = i" and uj: "unat (of_nat j :: u64) = j"
    using ij assms by (auto intro!: unat_of_nat_nowrap)
  have "unat (a + of_nat i) = unat a + i"
    using ij assms ui by (subst unat_add_nowrap) auto
  moreover have "unat (b + of_nat j) = unat b + j"
    using ij assms uj by (subst unat_add_nowrap) auto
  ultimately show False using eq ij assms by auto
qed

lemma bit_from_le:
  "bit (from_le bs) k \<longleftrightarrow> k < 64 \<and> k div 8 < length bs \<and> bit (bs ! (k div 8)) (k mod 8)"
proof (induction bs arbitrary: k)
  case Nil
  then show ?case by simp
next
  case (Cons b bs)
  show ?case
  proof (cases "k < 8")
    case True
    then show ?thesis by (auto simp: bit_simps)
  next
    case False
    then obtain j where j: "k = j + 8" by (metis add.commute le_Suc_ex not_less)
    have b8: "\<not> bit b (j + 8)" by (auto simp: bit_word.rep_eq dest: bit_imp_le_length)
    have d: "(j + 8) div 8 = Suc (j div 8)" by simp
    show ?thesis using b8 by (auto simp: j bit_simps Cons.IH d)
  qed
qed

lemma from_le_le_bytes [mem_simps]: "from_le (le_bytes 8 w) = w"
proof (rule bit_word_eqI)
  fix k assume k: "k < LENGTH(64)"
  then have "k div 8 < 8" by auto
  moreover have "8 * (k div 8) + k mod 8 = k" by simp
  ultimately show "bit (from_le (le_bytes 8 w)) k = bit w k"
    using k by (simp add: bit_from_le le_bytes_def bit_simps)
qed

lemma from_le_le_bytes_32 [mem_simps]: "ucast (from_le (le_bytes 4 (ucast (w :: u32)))) = w"
proof (rule bit_word_eqI)
  fix k assume k: "k < LENGTH(32)"
  then have "k div 8 < 4" by auto
  moreover have "8 * (k div 8) + k mod 8 = k" by simp
  ultimately show "bit (ucast (from_le (le_bytes 4 (ucast w))) :: u32) k = bit w k"
    using k by (simp add: bit_from_le le_bytes_def bit_simps)
qed

lemma read64_write64_same [simp]: "read64 (write64 m a v) a = v"
  by (simp add: read64_def write64_def mem_simps)

lemma read64_write64_apart [simp]:
  "ranges_apart a 8 b 8 \<Longrightarrow> read64 (write64 m a v) b = read64 m b"
  by (simp add: read64_def write64_def mem_simps)

lemma read32_write32_same [simp]: "read32 (write32 m a v) a = v"
  by (simp add: read32_def write32_def mem_simps)

end
