(* ===== verification/Hardware.thy ===== *)
theory Hardware
  imports HailPrelude "HOL-Library.State_Monad"
begin

text \<open>
  The machine as the drivers see it: port I/O (\<open>Kernel/Arch/x86_64/IO/PortIO.hpp\<close>), model-specific
  registers (\<open>CPU/MSR.hpp\<close>), the time stamp counter (\<open>Utility/TSC.hpp\<close>), \<open>cpuid\<close> (\<open>Utility/CPUID.hpp\<close>) and
  volatile accesses to device registers.

  Every access is appended to a trace, in program order. What the devices answer is not code of the
  kernel: it is the argument \<open>hw\<close>, a record of functions from the trace so far (and the address) to the
  value read, so that a device may react to everything that was done to it. Drivers are written in the
  state monad over records that extend \<open>hw_state\<close>.
\<close>

unbundle bit_operations_syntax

datatype io_event =
    EvOut8 u16 u8 | EvOut16 u16 u16 | EvOut32 u16 u32
  | EvIn8 u16 u8 | EvIn16 u16 u16 | EvIn32 u16 u32
  | EvWrMsr u32 u32 u32 | EvRdMsr u32 u64
  | EvMmioWrite u64 u32 | EvMmioWrite16 u64 u16 | EvMmioRead u64 u32
  | EvRdTsc u64 | EvCpuid u32 u32 | EvRdRand nat bool u64

record hardware =
  hw_in8 :: "io_event list \<Rightarrow> u16 \<Rightarrow> u8"
  hw_in16 :: "io_event list \<Rightarrow> u16 \<Rightarrow> u16"
  hw_in32 :: "io_event list \<Rightarrow> u16 \<Rightarrow> u32"
  hw_rdmsr :: "io_event list \<Rightarrow> u32 \<Rightarrow> u64"
  hw_mmio :: "io_event list \<Rightarrow> u64 \<Rightarrow> u32"
  hw_tsc :: "io_event list \<Rightarrow> u64"
  hw_cpuid :: "io_event list \<Rightarrow> u32 \<Rightarrow> u32 \<Rightarrow> u32 \<times> u32 \<times> u32 \<times> u32"
  hw_rdrand :: "io_event list \<Rightarrow> nat \<Rightarrow> bool \<times> u64"

record hw_state =
  trace :: "io_event list"

type_synonym ('r, 'a) hw = "('r hw_state_scheme, 'a) state"

subsection \<open>Accesses\<close>

definition emit :: "io_event \<Rightarrow> ('r, unit) hw" where
  "emit e = State (\<lambda>s. ((), s\<lparr>trace := trace s @ [e]\<rparr>))"

definition observe :: "(io_event list \<Rightarrow> 'a) \<Rightarrow> ('a \<Rightarrow> io_event) \<Rightarrow> ('r, 'a) hw" where
  "observe f ev = State (\<lambda>s. let v = f (trace s) in (v, s\<lparr>trace := trace s @ [ev v]\<rparr>))"

definition Out8 :: "u16 \<Rightarrow> u8 \<Rightarrow> ('r, unit) hw" where
  "Out8 port v = emit (EvOut8 port v)"

definition Out16 :: "u16 \<Rightarrow> u16 \<Rightarrow> ('r, unit) hw" where
  "Out16 port v = emit (EvOut16 port v)"

definition Out32 :: "u16 \<Rightarrow> u32 \<Rightarrow> ('r, unit) hw" where
  "Out32 port v = emit (EvOut32 port v)"

definition In8 :: "hardware \<Rightarrow> u16 \<Rightarrow> ('r, u8) hw" where
  "In8 hw port = observe (\<lambda>tr. hw_in8 hw tr port) (EvIn8 port)"

definition In16 :: "hardware \<Rightarrow> u16 \<Rightarrow> ('r, u16) hw" where
  "In16 hw port = observe (\<lambda>tr. hw_in16 hw tr port) (EvIn16 port)"

definition In32 :: "hardware \<Rightarrow> u16 \<Rightarrow> ('r, u32) hw" where
  "In32 hw port = observe (\<lambda>tr. hw_in32 hw tr port) (EvIn32 port)"

definition IA32_GS_BASE :: u32 where "IA32_GS_BASE = 0xC0000101"
definition IA32_KERNEL_GS_BASE :: u32 where "IA32_KERNEL_GS_BASE = 0xC0000102"

definition MSR_Write :: "u32 \<Rightarrow> u64 \<Rightarrow> ('r, unit) hw" where
  "MSR_Write msr v =
     (let lo = ucast (v AND 0xFFFFFFFF) :: u32; hi = ucast (drop_bit 32 v) :: u32 in emit (EvWrMsr msr hi lo))"

definition MSR_Read :: "hardware \<Rightarrow> u32 \<Rightarrow> ('r, u64) hw" where
  "MSR_Read hw msr = do {
     v \<leftarrow> observe (\<lambda>tr. hw_rdmsr hw tr msr) (EvRdMsr msr);
     let lo = (ucast v :: u32);
     let hi = (ucast (drop_bit 32 v) :: u32);
     State_Monad.return (push_bit 32 (ucast hi) OR ucast lo)
   }"

definition mmio_write :: "u64 \<Rightarrow> u32 \<Rightarrow> ('r, unit) hw" where
  "mmio_write a v = emit (EvMmioWrite a v)"

definition mmio_read :: "hardware \<Rightarrow> u64 \<Rightarrow> ('r, u32) hw" where
  "mmio_read hw a = observe (\<lambda>tr. hw_mmio hw tr a) (EvMmioRead a)"

definition ReadTSC :: "hardware \<Rightarrow> ('r, u64) hw" where
  "ReadTSC hw = do {
     v \<leftarrow> observe (hw_tsc hw) EvRdTsc;
     let lo = (ucast v :: u32);
     let hi = (ucast (drop_bit 32 v) :: u32);
     State_Monad.return (push_bit 32 (ucast hi) OR ucast lo)
   }"

definition CPUID :: "hardware \<Rightarrow> u32 \<Rightarrow> u32 \<Rightarrow> ('r, u32 \<times> u32 \<times> u32 \<times> u32) hw" where
  "CPUID hw leaf subleaf = observe (\<lambda>tr. hw_cpuid hw tr leaf subleaf) (\<lambda>_. EvCpuid leaf subleaf)"

subsection \<open>Running accesses\<close>

named_theorems hw_run \<open>effect of one device access\<close>

lemma run_emit [simp]: "run_state (emit e) s = ((), s\<lparr>trace := trace s @ [e]\<rparr>)"
  by (simp add: emit_def)

lemma run_observe [simp]:
  "run_state (observe f ev) s = (f (trace s), s\<lparr>trace := trace s @ [ev (f (trace s))]\<rparr>)"
  by (simp add: observe_def Let_def)

lemma halves_u64 [simp]: "push_bit 32 (ucast (ucast (drop_bit 32 v) :: u32)) OR ucast (ucast v :: u32) = (v :: u64)"
proof (rule bit_word_eqI)
  fix n assume n: "n < LENGTH(64)"
  show "bit (push_bit 32 (ucast (ucast (drop_bit 32 v) :: u32)) OR ucast (ucast v :: u32) :: u64) n = bit v n"
    using n by (cases "n < 32") (auto simp: bit_simps)
qed

lemma low_half [simp]: "ucast (v AND 0xFFFFFFFF :: u64) = (ucast v :: u32)"
proof (rule bit_word_eqI)
  fix n assume n: "n < LENGTH(32)"
  have m: "(0xFFFFFFFF :: u64) = mask 32" by (simp add: mask_eq_exp_minus_1)
  show "bit (ucast (v AND 0xFFFFFFFF) :: u32) n = bit (ucast v :: u32) n"
    unfolding m using n by (simp add: bit_simps)
qed

lemma run_accesses [hw_run]:
  "run_state (Out8 port v8) s = ((), s\<lparr>trace := trace s @ [EvOut8 port v8]\<rparr>)"
  "run_state (Out16 port v16) s = ((), s\<lparr>trace := trace s @ [EvOut16 port v16]\<rparr>)"
  "run_state (Out32 port v32) s = ((), s\<lparr>trace := trace s @ [EvOut32 port v32]\<rparr>)"
  "run_state (In8 hw port) s = (hw_in8 hw (trace s) port, s\<lparr>trace := trace s @ [EvIn8 port (hw_in8 hw (trace s) port)]\<rparr>)"
  "run_state (mmio_write a v32) s = ((), s\<lparr>trace := trace s @ [EvMmioWrite a v32]\<rparr>)"
  "run_state (mmio_read hw a) s = (hw_mmio hw (trace s) a, s\<lparr>trace := trace s @ [EvMmioRead a (hw_mmio hw (trace s) a)]\<rparr>)"
  "run_state (MSR_Write msr v64) s =
     ((), s\<lparr>trace := trace s @ [EvWrMsr msr (ucast (drop_bit 32 v64)) (ucast v64)]\<rparr>)"
  "run_state (MSR_Read hw msr) s =
     (hw_rdmsr hw (trace s) msr, s\<lparr>trace := trace s @ [EvRdMsr msr (hw_rdmsr hw (trace s) msr)]\<rparr>)"
  "run_state (ReadTSC hw) s = (hw_tsc hw (trace s), s\<lparr>trace := trace s @ [EvRdTsc (hw_tsc hw (trace s))]\<rparr>)"
  "run_state (CPUID hw leaf sub) s = (hw_cpuid hw (trace s) leaf sub, s\<lparr>trace := trace s @ [EvCpuid leaf sub]\<rparr>)"
  by (simp_all add: Out8_def Out16_def Out32_def In8_def mmio_write_def mmio_read_def MSR_Write_def MSR_Read_def
      ReadTSC_def CPUID_def Let_def)

text \<open>The writes to device registers, in order, and the value last written to one.\<close>

definition mmio_writes :: "io_event list \<Rightarrow> (u64 \<times> u32) list" where
  "mmio_writes tr = concat (map (\<lambda>e. case e of EvMmioWrite a v \<Rightarrow> [(a, v)] | _ \<Rightarrow> []) tr)"

definition last_write :: "io_event list \<Rightarrow> u64 \<Rightarrow> u32 option" where
  "last_write tr a = map_of (rev (mmio_writes tr)) a"

lemma mmio_writes_simps [simp]:
  "mmio_writes [] = []" "mmio_writes (tr @ tr') = mmio_writes tr @ mmio_writes tr'"
  "mmio_writes (EvMmioWrite a v # tr) = (a, v) # mmio_writes tr"
  "mmio_writes (EvMmioRead a v # tr) = mmio_writes tr" "mmio_writes (EvOut8 p w8 # tr) = mmio_writes tr"
  "mmio_writes (EvIn8 p w8 # tr) = mmio_writes tr"
  "mmio_writes (EvRdMsr m w # tr) = mmio_writes tr" "mmio_writes (EvWrMsr m h l # tr) = mmio_writes tr"
  "mmio_writes (EvCpuid c d # tr) = mmio_writes tr" "mmio_writes (EvRdTsc w # tr) = mmio_writes tr"
  by (simp_all add: mmio_writes_def)

text \<open>Result and final state of a sequence, kept apart so that long drivers stay small terms.\<close>

declare run_state_bind [simp del]

lemma run_bind_parts [simp]:
  "fst (run_state (State_Monad.bind m f) s) = fst (run_state (f (fst (run_state m s))) (snd (run_state m s)))"
  "snd (run_state (State_Monad.bind m f) s) = snd (run_state (f (fst (run_state m s))) (snd (run_state m s)))"
  by (simp_all add: run_state_bind case_prod_beta)

end
