(* ===== verification/Locking.thy ===== *)
theory Locking
  imports HailPrelude
begin

text \<open>
  \<open>Kernel/Sync/SpinLock.hpp\<close> (the ticket lock with interrupt save and restore) and
  \<open>Kernel/Arch/x86_64/Utility/CriticalSection.cpp\<close>.

  Every atomic access of \<open>Lock\<close>, \<open>TryLock\<close> and \<open>Unlock\<close> is a function on the lock word pair; \<open>lock_step\<close>
  interleaves these accesses for \<open>ncpu\<close> processors (sequentially consistent). \<open>cpu_pc\<close> is where a
  processor is inside the three functions. The 32-bit counters wrap around. The fields \<open>issued\<close>,
  \<open>served\<close> and \<open>ticket\<close> are history: unbounded counts of what happened, which no transition reads, except
  that a \<open>TryLock\<close> is assumed not to be overtaken by \<open>2 ^ 32\<close> acquisitions between two of its accesses.
\<close>

unbundle bit_operations_syntax

subsection \<open>The lock\<close>

record TicketSpinLock =
  Next :: u32
  Owner :: u32

definition Lock_fetch_add :: "TicketSpinLock \<Rightarrow> u32 \<times> TicketSpinLock" where
  "Lock_fetch_add l = (Next l, l\<lparr>Next := Next l + 1\<rparr>)"

definition Lock_poll :: "u32 \<Rightarrow> TicketSpinLock \<Rightarrow> bool" where
  "Lock_poll t l \<longleftrightarrow> Owner l = t"

definition TryLock_compare_exchange :: "u32 \<Rightarrow> TicketSpinLock \<Rightarrow> bool \<times> TicketSpinLock" where
  "TryLock_compare_exchange n l = (if Next l = n then (True, l\<lparr>Next := n + 1\<rparr>) else (False, l))"

definition TryLock :: "TicketSpinLock \<Rightarrow> bool \<times> TicketSpinLock" where
  "TryLock l = (let o' = Owner l; n = Next l in if o' \<noteq> n then (False, l) else TryLock_compare_exchange n l)"

definition Unlock :: "TicketSpinLock \<Rightarrow> TicketSpinLock" where
  "Unlock l = l\<lparr>Owner := Owner l + 1\<rparr>"

subsection \<open>Interrupt flag\<close>

record IRQState =
  RFlags :: u64

definition IF_BIT :: nat where
  "IF_BIT = 9"

definition IRQSaveAndDisable :: "u64 \<Rightarrow> IRQState \<times> u64" where
  "IRQSaveAndDisable rflags = (\<lparr>RFlags = rflags\<rparr>, unset_bit IF_BIT rflags)"

definition IRQRestore :: "IRQState \<Rightarrow> u64 \<Rightarrow> u64" where
  "IRQRestore s rflags = (if RFlags s AND push_bit 9 1 \<noteq> 0 then set_bit IF_BIT rflags else rflags)"

text \<open>
  \<open>LockIRQSave\<close> and \<open>UnlockIRQRestore\<close> on a lock that is free at the call: flags and lock afterwards.
\<close>

definition LockIRQSave :: "TicketSpinLock \<Rightarrow> u64 \<Rightarrow> (IRQState \<times> TicketSpinLock \<times> u64) option" where
  "LockIRQSave l rflags =
     (let (st, f) = IRQSaveAndDisable rflags; (t, l1) = Lock_fetch_add l
      in if Lock_poll t l1 then Some (st, l1, f) else None)"

definition UnlockIRQRestore :: "IRQState \<Rightarrow> TicketSpinLock \<Rightarrow> u64 \<Rightarrow> TicketSpinLock \<times> u64" where
  "UnlockIRQRestore st l rflags = (Unlock l, IRQRestore st rflags)"

subsection \<open>Critical sections\<close>

record critical_state =
  InCritical :: bool
  flags :: u64

definition StartCriticalSection :: "critical_state \<Rightarrow> critical_state" where
  "StartCriticalSection s = s\<lparr>InCritical := True, flags := unset_bit IF_BIT (flags s)\<rparr>"

definition EndCriticalSection :: "critical_state \<Rightarrow> critical_state" where
  "EndCriticalSection s = s\<lparr>InCritical := False, flags := set_bit IF_BIT (flags s)\<rparr>"

definition EnableInterrupt :: "critical_state \<Rightarrow> critical_state" where
  "EnableInterrupt s = (if \<not> InCritical s then s\<lparr>flags := set_bit IF_BIT (flags s)\<rparr> else s)"

definition DisableInterrupt :: "critical_state \<Rightarrow> critical_state" where
  "DisableInterrupt s = s\<lparr>flags := unset_bit IF_BIT (flags s)\<rparr>"

subsection \<open>Interleaved processors\<close>

datatype cpu_pc = Outside | Spinning u32 | Holding | TryOwner u32 | TryNext u32

record lock_sys =
  lock :: TicketSpinLock
  pc :: "nat \<Rightarrow> cpu_pc"
  issued :: nat
  served :: nat
  ticket :: "nat \<Rightarrow> nat"

inductive lock_step :: "nat \<Rightarrow> lock_sys \<Rightarrow> lock_sys \<Rightarrow> bool" for ncpu where
  lock_take: "i < ncpu \<Longrightarrow> pc s i = Outside \<Longrightarrow> Lock_fetch_add (lock s) = (t, l) \<Longrightarrow>
    lock_step ncpu s (s\<lparr>lock := l, pc := (pc s)(i := Spinning t), issued := issued s + 1,
                        ticket := (ticket s)(i := issued s)\<rparr>)"
| lock_enter: "i < ncpu \<Longrightarrow> pc s i = Spinning t \<Longrightarrow> Lock_poll t (lock s) \<Longrightarrow>
    lock_step ncpu s (s\<lparr>pc := (pc s)(i := Holding)\<rparr>)"
| lock_wait: "i < ncpu \<Longrightarrow> pc s i = Spinning t \<Longrightarrow> \<not> Lock_poll t (lock s) \<Longrightarrow> lock_step ncpu s s"
| try_owner: "i < ncpu \<Longrightarrow> pc s i = Outside \<Longrightarrow>
    lock_step ncpu s (s\<lparr>pc := (pc s)(i := TryOwner (Owner (lock s))), ticket := (ticket s)(i := served s)\<rparr>)"
| try_next: "i < ncpu \<Longrightarrow> pc s i = TryOwner o' \<Longrightarrow>
    lock_step ncpu s (s\<lparr>pc := (pc s)(i := if o' \<noteq> Next (lock s) then Outside else TryNext (Next (lock s)))\<rparr>)"
| try_cas: "i < ncpu \<Longrightarrow> pc s i = TryNext n \<Longrightarrow> issued s < ticket s i + 4294967296 \<Longrightarrow>
    TryLock_compare_exchange n (lock s) = (r, l) \<Longrightarrow>
    lock_step ncpu s
      (if r then s\<lparr>lock := l, pc := (pc s)(i := Holding), issued := issued s + 1, ticket := (ticket s)(i := issued s)\<rparr>
       else s\<lparr>lock := l, pc := (pc s)(i := Outside)\<rparr>)"
| unlock: "i < ncpu \<Longrightarrow> pc s i = Holding \<Longrightarrow>
    lock_step ncpu s (s\<lparr>lock := Unlock (lock s), pc := (pc s)(i := Outside), served := served s + 1\<rparr>)"

inductive_cases lock_stepE: "lock_step ncpu s s'"

definition lock_init :: lock_sys where
  "lock_init = \<lparr>lock = \<lparr>Next = 0, Owner = 0\<rparr>, pc = (\<lambda>_. Outside), issued = 0, served = 0, ticket = (\<lambda>_. 0)\<rparr>"

subsection \<open>The invariant\<close>

text \<open>\<open>queued s i\<close>: processor \<open>i\<close> has a ticket that is not served yet.\<close>

definition queued :: "lock_sys \<Rightarrow> nat \<Rightarrow> bool" where
  "queued s i \<longleftrightarrow> (case pc s i of Spinning _ \<Rightarrow> True | Holding \<Rightarrow> True | _ \<Rightarrow> False)"

definition lock_ok :: "nat \<Rightarrow> lock_sys \<Rightarrow> bool" where
  "lock_ok ncpu s \<longleftrightarrow>
     Next (lock s) = of_nat (issued s) \<and> Owner (lock s) = of_nat (served s) \<and> served s \<le> issued s \<and>
     bij_betw (ticket s) {i. i < ncpu \<and> queued s i} {served s..<issued s} \<and>
     (\<forall>i<ncpu. case pc s i of
        Outside \<Rightarrow> True
      | Spinning t \<Rightarrow> t = of_nat (ticket s i)
      | Holding \<Rightarrow> ticket s i = served s
      | TryOwner o' \<Rightarrow> o' = of_nat (ticket s i) \<and> ticket s i \<le> served s
      | TryNext n \<Rightarrow> n = of_nat (ticket s i) \<and> ticket s i \<le> served s)"

lemma waiting_bound: "lock_ok ncpu s \<Longrightarrow> issued s \<le> served s + ncpu"
proof -
  assume "lock_ok ncpu s"
  then have "bij_betw (ticket s) {i. i < ncpu \<and> queued s i} {served s..<issued s}" by (simp add: lock_ok_def)
  then have "card {served s..<issued s} = card {i. i < ncpu \<and> queued s i}" by (simp add: bij_betw_same_card)
  also have "\<dots> \<le> card {..<ncpu}" by (rule card_mono) auto
  finally show ?thesis by simp
qed

lemma of_nat_u32_inj:
  assumes "(of_nat a :: u32) = of_nat b" and "a \<le> b" and "b < a + 4294967296"
  shows "a = b"
proof -
  have "(of_nat (b - a) :: u32) = 0" using assms(1,2) by (simp add: of_nat_diff)
  moreover have "unat (of_nat (b - a) :: u32) = b - a" using assms(2,3) by (intro unat_of_nat_nowrap) simp
  ultimately have "b - a = 0" by simp
  with assms(2) show ?thesis by simp
qed

lemma queued_ticket:
  "lock_ok ncpu s \<Longrightarrow> i < ncpu \<Longrightarrow> queued s i \<Longrightarrow> served s \<le> ticket s i \<and> ticket s i < issued s"
  by (auto simp: lock_ok_def bij_betw_def)

lemma queued_inj:
  "lock_ok ncpu s \<Longrightarrow> i < ncpu \<Longrightarrow> j < ncpu \<Longrightarrow> queued s i \<Longrightarrow> queued s j \<Longrightarrow> ticket s i = ticket s j \<Longrightarrow> i = j"
  by (auto simp: lock_ok_def bij_betw_def inj_on_def)

text \<open>A processor that polls its own ticket as the owner is the one served next.\<close>

lemma poll_served:
  assumes "lock_ok ncpu s" and "ncpu < 4294967296" and "i < ncpu" and "pc s i = Spinning t" and "Lock_poll t (lock s)"
  shows "ticket s i = served s"
proof -
  have q: "queued s i" using assms(4) by (simp add: queued_def)
  have "(of_nat (served s) :: u32) = of_nat (ticket s i)"
    using assms(1,3-5) by (force simp: lock_ok_def Lock_poll_def)
  moreover note queued_ticket [OF assms(1,3) q] waiting_bound [OF assms(1)]
  ultimately show ?thesis using assms(2) of_nat_u32_inj [of "served s" "ticket s i"] by linarith
qed

lemma bij_take:
  fixes a b :: nat
  assumes "bij_betw f A {a..<b}" and "i \<notin> A" and "a \<le> b"
  shows "bij_betw (f(i := b)) (insert i A) {a..<b + 1}"
proof -
  have "bij_betw (f(i := b)) A {a..<b}" using assms(1,2) by (subst bij_betw_cong [of A _ f]) auto
  then have "bij_betw (f(i := b)) (A \<union> {i}) ({a..<b} \<union> {(f(i := b)) i})"
    using assms(2) by (intro notIn_Un_bij_betw) auto
  moreover have "{a..<b} \<union> {(f(i := b)) i} = {a..<b + 1}" using assms(3) by auto
  ultimately show ?thesis by simp
qed

lemma bij_serve:
  fixes a b :: nat
  assumes "bij_betw f A {a..<b}" and "i \<in> A" and "f i = a"
  shows "bij_betw f (A - {i}) {a + 1..<b}"
proof -
  have "f ` (A - {i}) = f ` A - {f i}" using assms(1,2) by (auto simp: bij_betw_def inj_on_def)
  then show ?thesis using assms by (auto simp: bij_betw_def inj_on_def)
qed

lemma acquire_ok:
  assumes ok: "lock_ok ncpu s" and i: "i < ncpu" "\<not> queued s i"
    and l: "Next l = Next (lock s) + 1" "Owner l = Owner (lock s)"
    and c: "c = Spinning (Next (lock s)) \<or> c = Holding \<and> issued s = served s"
  shows "lock_ok ncpu (s\<lparr>lock := l, pc := (pc s)(i := c), issued := issued s + 1, ticket := (ticket s)(i := issued s)\<rparr>)"
proof -
  let ?s = "s\<lparr>lock := l, pc := (pc s)(i := c), issued := issued s + 1, ticket := (ticket s)(i := issued s)\<rparr>"
  have Q: "{k. k < ncpu \<and> queued ?s k} = insert i {k. k < ncpu \<and> queued s k}"
    using i c by (auto simp: queued_def split: if_splits)
  have "bij_betw (ticket ?s) {k. k < ncpu \<and> queued ?s k} {served ?s..<issued ?s}"
  proof -
    have "bij_betw ((ticket s)(i := issued s)) (insert i {k. k < ncpu \<and> queued s k}) {served s..<issued s + 1}"
      by (rule bij_take) (use ok i in \<open>auto simp: lock_ok_def\<close>)
    then show ?thesis unfolding Q by simp
  qed
  then show ?thesis using ok l c by (auto simp: lock_ok_def split: cpu_pc.splits)
qed

lemma local_ok:
  assumes ok: "lock_ok ncpu s" and i: "i < ncpu" and q: "\<not> queued s i" "\<not> queued (s\<lparr>pc := (pc s)(i := c)\<rparr>) i"
    and c: "c = Outside \<or> (c = TryOwner o' \<or> c = TryNext o') \<and> o' = of_nat t \<and> t \<le> served s"
  shows "lock_ok ncpu (s\<lparr>pc := (pc s)(i := c), ticket := (ticket s)(i := t)\<rparr>)"
proof -
  let ?s = "s\<lparr>pc := (pc s)(i := c), ticket := (ticket s)(i := t)\<rparr>"
  have Q: "{k. k < ncpu \<and> queued ?s k} = {k. k < ncpu \<and> queued s k}"
    using q by (auto simp: queued_def split: if_splits)
  have "bij_betw (ticket ?s) {k. k < ncpu \<and> queued s k} {served s..<issued s} \<longleftrightarrow>
      bij_betw (ticket s) {k. k < ncpu \<and> queued s k} {served s..<issued s}"
    by (rule bij_betw_cong) (use q(1) in auto)
  then show ?thesis using ok c Q by (auto simp: lock_ok_def split: cpu_pc.splits)
qed

lemma ticket_id: "s\<lparr>pc := p\<rparr> = s\<lparr>pc := p, ticket := (ticket s)(i := ticket s i)\<rparr>"
  by simp

lemma try_cas_ok:
  assumes ok: "lock_ok ncpu s" and c: "i < ncpu" "pc s i = TryNext n" "issued s < ticket s i + 4294967296" "TryLock_compare_exchange n (lock s) = (r, l)"
  shows "lock_ok ncpu (if r then s\<lparr>lock := l, pc := (pc s)(i := Holding), issued := issued s + 1, ticket := (ticket s)(i := issued s)\<rparr>
       else s\<lparr>lock := l, pc := (pc s)(i := Outside)\<rparr>)"
proof -
  have t: "n = of_nat (ticket s i) \<and> ticket s i \<le> served s" using ok c(1,2) by (force simp: lock_ok_def)
  have oo: "Next (lock s) = of_nat (issued s)" "served s \<le> issued s" using ok by (auto simp: lock_ok_def)
  have l: "l = (if r then (lock s)\<lparr>Next := n + 1\<rparr> else lock s)" "r \<longleftrightarrow> Next (lock s) = n"
    using c(4) by (auto simp: TryLock_compare_exchange_def split: if_splits)
  show ?thesis
  proof (cases r)
    case True
    then have "ticket s i = issued s" using l(2) t oo c(3) by (intro of_nat_u32_inj) auto
    then have "issued s = served s" using t oo by simp
    then have "lock_ok ncpu (s\<lparr>lock := l, pc := (pc s)(i := Holding), issued := issued s + 1, ticket := (ticket s)(i := issued s)\<rparr>)"
      using c l True ok by (intro acquire_ok) (auto simp: queued_def)
    with True show ?thesis by simp
  next
    case False
    have "lock_ok ncpu (s\<lparr>pc := (pc s)(i := Outside), ticket := (ticket s)(i := ticket s i)\<rparr>)"
      using c(1,2) ok by (intro local_ok) (auto simp: queued_def)
    with False l show ?thesis by simp
  qed
qed

lemma unlock_ok:
  assumes ok: "lock_ok ncpu s" and c: "i < ncpu" "pc s i = Holding"
    and s': "s' = s\<lparr>lock := Unlock (lock s), pc := (pc s)(i := Outside), served := served s + 1\<rparr>"
  shows "lock_ok ncpu s'"
proof -
  have h: "ticket s i = served s" "queued s i" using ok c by (force simp: lock_ok_def queued_def)+
  have Q: "{k. k < ncpu \<and> queued s' k} = {k. k < ncpu \<and> queued s k} - {i}"
    using c s' by (auto simp: queued_def)
  have b: "bij_betw (ticket s) {k. k < ncpu \<and> queued s k} {served s..<issued s}" using ok by (simp add: lock_ok_def)
  have "bij_betw (ticket s) ({k. k < ncpu \<and> queued s k} - {i}) {served s + 1..<issued s}"
    by (rule bij_serve [OF b]) (use c h in auto)
  moreover have "served s + 1 \<le> issued s" using queued_ticket [OF ok c(1) h(2)] by simp
  moreover have "pc s k \<noteq> Holding" if "k < ncpu" "k \<noteq> i" for k
  proof
    assume k: "pc s k = Holding"
    then have "ticket s k = served s" "queued s k" using ok that by (force simp: lock_ok_def queued_def)+
    with queued_inj [OF ok that(1) c(1) _ h(2)] h(1) that(2) show False by simp
  qed
  ultimately show ?thesis using ok c s' Q by (auto simp: lock_ok_def Unlock_def split: cpu_pc.splits)
qed

lemma lock_step_ok:
  assumes "lock_step ncpu s s'" and "ncpu < 4294967296" and ok: "lock_ok ncpu s"
  shows "lock_ok ncpu s'"
  using assms(1)
proof cases
  case (lock_take i t l)
  have "lock_ok ncpu (s\<lparr>lock := l, pc := (pc s)(i := Spinning (Next (lock s))), issued := issued s + 1,
      ticket := (ticket s)(i := issued s)\<rparr>)"
    using lock_take ok by (intro acquire_ok) (auto simp: Lock_fetch_add_def queued_def)
  with lock_take show ?thesis by (simp add: Lock_fetch_add_def)
next
  case (lock_enter i t)
  have q: "{k. k < ncpu \<and> queued s' k} = {k. k < ncpu \<and> queued s k}"
    using lock_enter by (auto simp: queued_def)
  then show ?thesis
    using ok lock_enter poll_served [OF ok assms(2) lock_enter(2-4)] by (auto simp: lock_ok_def split: cpu_pc.splits)
next
  case (lock_wait i t)
  then show ?thesis using ok by simp
next
  case (try_owner i)
  have "lock_ok ncpu (s\<lparr>pc := (pc s)(i := TryOwner (Owner (lock s))), ticket := (ticket s)(i := served s)\<rparr>)"
    by (rule local_ok [OF ok, where o' = "Owner (lock s)"]) (use try_owner ok in \<open>auto simp: queued_def lock_ok_def\<close>)
  with try_owner show ?thesis by simp
next
  case (try_next i o')
  have t: "o' = of_nat (ticket s i) \<and> ticket s i \<le> served s" using ok try_next by (force simp: lock_ok_def)
  show ?thesis
    unfolding try_next(1) by (subst ticket_id [where i = i]) (rule local_ok [where o' = o'], use ok try_next t in \<open>auto simp: queued_def\<close>)
next
  case (try_cas i n r l)
  with try_cas_ok [OF ok] show ?thesis by simp
next
  case (unlock i)
  with unlock_ok [OF ok _ _ refl] show ?thesis by simp
qed

lemma lock_init_ok: "lock_ok ncpu lock_init"
  by (simp add: lock_ok_def lock_init_def queued_def bij_betw_def)

lemma reachable_ok:
  assumes "ncpu < 4294967296" and "(lock_step ncpu)\<^sup>*\<^sup>* lock_init s"
  shows "lock_ok ncpu s"
  using assms(2) by (induction rule: rtranclp_induct) (auto intro: lock_init_ok lock_step_ok [OF _ assms(1)])

subsection \<open>Properties\<close>



text \<open>Two processors: the first has taken ticket 0.\<close>

definition example_lock :: lock_sys where
  "example_lock = \<lparr>lock = \<lparr>Next = 1, Owner = 0\<rparr>, pc = (\<lambda>_. Outside)(0 := Spinning 0), issued = 1, served = 0,
     ticket = (\<lambda>_. 0)\<rparr>"

lemma example_lock_step: "lock_step 2 lock_init example_lock"
  using lock_step.lock_take [of 0 2 lock_init 0 "\<lparr>Next = 1, Owner = 0\<rparr>"]
  by (simp add: lock_init_def example_lock_def Lock_fetch_add_def fun_upd_def)



text \<open>
  \<open>LockIRQSave\<close> on a free lock returns with interrupts disabled and the lock taken (a further
  \<open>TryLock\<close> fails), and the matching \<open>UnlockIRQRestore\<close> brings back the flags and a free lock.
\<close>

lemma LockIRQSave_roundtrip:
  assumes "Owner l = Next l"
  shows "\<exists>st l1 f. LockIRQSave l rflags = Some (st, l1, f) \<and> \<not> bit f 9 \<and> \<not> fst (TryLock l1) \<and>
    snd (UnlockIRQRestore st l1 f) = rflags \<and>
    Owner (fst (UnlockIRQRestore st l1 f)) = Next (fst (UnlockIRQRestore st l1 f))"
proof -
  have one: "x + 1 \<noteq> x" for x :: u32 by simp
  have bit9: "rflags AND push_bit 9 1 = 0 \<longleftrightarrow> \<not> bit rflags 9"
    by (simp add: bit_iff_and_push_bit_not_eq_0)
  have "IRQRestore \<lparr>RFlags = rflags\<rparr> (unset_bit 9 rflags) = rflags"
    unfolding IRQRestore_def IF_BIT_def using bit9
    by (auto intro!: bit_word_eqI simp: bit_simps)
  with assms one show ?thesis
    by (auto simp: LockIRQSave_def IRQSaveAndDisable_def Lock_fetch_add_def Lock_poll_def TryLock_def
        UnlockIRQRestore_def Unlock_def IF_BIT_def bit_simps Let_def)
qed

lemma LockIRQSave_roundtrip_example:
  "\<exists>st l1 f. LockIRQSave \<lparr>Next = 5, Owner = 5\<rparr> 0x202 = Some (st, l1, f) \<and> snd (UnlockIRQRestore st l1 f) = 0x202"
  using LockIRQSave_roundtrip [of "\<lparr>Next = 5, Owner = 5\<rparr>" "0x202"] by auto

text \<open>
  Critical sections do not nest: while one is open \<open>EnableInterrupt\<close> has no effect, but ending an inner
  section ends the outer one too and leaves interrupts enabled.
\<close>

lemma critical_sections_do_not_nest:
  "EnableInterrupt (StartCriticalSection s) = StartCriticalSection s \<and>
   \<not> bit (flags (StartCriticalSection s)) 9 \<and>
   InCritical (EndCriticalSection (StartCriticalSection (StartCriticalSection s))) = False \<and>
   bit (flags (EndCriticalSection (StartCriticalSection (StartCriticalSection s)))) 9"
  by (simp add: EnableInterrupt_def StartCriticalSection_def EndCriticalSection_def IF_BIT_def bit_simps)

end
