(* ===== verification/ObjectModel.thy ===== *)
theory ObjectModel
  imports HailPrelude
begin

text \<open>
  The vocabulary of the object model: \<open>Kernel/Include/Core/BaseType.hpp\<close> (status codes) and
  \<open>Kernel/Include/Object/Interface/\<close> (interface identifiers, device types). Enumerations are datatypes with
  a function to the underlying integer. The lemmas show that identifiers are compared as whole values,
  that the identifiers of the interfaces are pairwise different, and that a device type determines its
  class and its minor number.
\<close>

unbundle bit_operations_syntax

subsection \<open>Status codes\<close>

definition STATUS_ERROR_BASE :: u32 where "STATUS_ERROR_BASE = 0x80000000"

datatype Status = STATUS_SUCCESS | STATUS_ERR

fun Status_code :: "Status \<Rightarrow> u32" where
  "Status_code STATUS_SUCCESS = 0"
| "Status_code STATUS_ERR = 0x80000000"

definition ERROR :: "Status \<Rightarrow> bool" where
  "ERROR status \<longleftrightarrow> Status_code status \<ge> STATUS_ERROR_BASE"

definition SUCCESS :: "Status \<Rightarrow> bool" where
  "SUCCESS status \<longleftrightarrow> Status_code status < STATUS_ERROR_BASE"

lemma ERROR_SUCCESS: "ERROR st \<longleftrightarrow> \<not> SUCCESS st" "ERROR st \<longleftrightarrow> st = STATUS_ERR"
  by (cases st; simp add: ERROR_def SUCCESS_def STATUS_ERROR_BASE_def)+

subsection \<open>Interface identifiers\<close>

type_synonym InterfaceID = "u8 list"

function InterfaceID_eq_loop :: "InterfaceID \<Rightarrow> InterfaceID \<Rightarrow> nat \<Rightarrow> bool" where
  "InterfaceID_eq_loop a b i =
     (if i < 16 then if a ! i \<noteq> b ! i then False else InterfaceID_eq_loop a b (Suc i) else True)"
  by pat_completeness auto
termination
  by (relation "measure (\<lambda>(a, b, i). 16 - i)") auto

declare InterfaceID_eq_loop.simps [simp del]

definition InterfaceID_eq :: "InterfaceID \<Rightarrow> InterfaceID \<Rightarrow> bool" where
  "InterfaceID_eq a b = InterfaceID_eq_loop a b 0"

definition InterfaceID_neq :: "InterfaceID \<Rightarrow> InterfaceID \<Rightarrow> bool" where
  "InterfaceID_neq a b \<longleftrightarrow> \<not> InterfaceID_eq a b"

definition IID_IKernelObject :: InterfaceID where
  "IID_IKernelObject = [0x28, 0x6B, 0xFB, 0x7C, 0x36, 0x2D, 0x0E, 0xC3, 0xE6, 0x8F, 0x2F, 0x53, 0x83, 0x7E, 0xE2, 0x55]"
definition IID_IDevice :: InterfaceID where
  "IID_IDevice = [0x57, 0xF7, 0xAE, 0x15, 0xD0, 0x1C, 0x4B, 0xE1, 0x88, 0xDD, 0xB5, 0x88, 0x42, 0x5D, 0x95, 0xE5]"
definition IID_IOutputDevice :: InterfaceID where
  "IID_IOutputDevice = [0x0C, 0x55, 0x02, 0x96, 0xF9, 0xB9, 0x2A, 0x42, 0x3C, 0x74, 0x63, 0xAE, 0x16, 0x57, 0x9D, 0x25]"
definition IID_ITimerDevice :: InterfaceID where
  "IID_ITimerDevice = [0x11, 0xA4, 0xDB, 0xD0, 0x93, 0x55, 0x1F, 0x0E, 0x02, 0xA4, 0x68, 0x50, 0xA5, 0xB1, 0x0A, 0xC0]"
definition IID_IRandomDevice :: InterfaceID where
  "IID_IRandomDevice = [0x2B, 0xCB, 0x13, 0xFD, 0x10, 0x75, 0xBC, 0xA8, 0xE0, 0x9D, 0xFD, 0x28, 0xF1, 0x82, 0x21, 0xF6]"
definition IID_IUUID :: InterfaceID where
  "IID_IUUID = [0x0D, 0x71, 0xC3, 0xB5, 0x87, 0x02, 0xF8, 0x47, 0x9F, 0x88, 0xB0, 0xBC, 0xDE, 0x33, 0x9B, 0x8E]"
definition IID_IStringConvertable :: InterfaceID where
  "IID_IStringConvertable = [0x1D, 0x24, 0x5F, 0xCD, 0x93, 0xCA, 0x2C, 0x1E, 0x79, 0x55, 0x35, 0xCB, 0xAE, 0xBD, 0xC2, 0x5C]"
definition IID_IPCIDevice :: InterfaceID where
  "IID_IPCIDevice = [0x3A, 0xA2, 0x38, 0xE1, 0xD1, 0x36, 0x69, 0x27, 0x26, 0x79, 0x5B, 0x4B, 0x04, 0x0D, 0x0D, 0x70]"
definition IID_IDiskDrive :: InterfaceID where
  "IID_IDiskDrive = [0x0C, 0x6C, 0xFB, 0xE8, 0x0C, 0x95, 0xE0, 0x37, 0xB1, 0xA3, 0xE3, 0xE4, 0xCE, 0x84, 0xFD, 0x5F]"

lemmas IID_defs = IID_IKernelObject_def IID_IDevice_def IID_IOutputDevice_def IID_ITimerDevice_def IID_IRandomDevice_def
  IID_IUUID_def IID_IStringConvertable_def IID_IPCIDevice_def IID_IDiskDrive_def

definition interface_ids :: "InterfaceID list" where
  "interface_ids = [IID_IKernelObject, IID_IDevice, IID_IOutputDevice, IID_ITimerDevice, IID_IRandomDevice, IID_IUUID,
     IID_IStringConvertable, IID_IPCIDevice, IID_IDiskDrive]"

lemma InterfaceID_eq_loop_iff: "InterfaceID_eq_loop a b i \<longleftrightarrow> (\<forall>j. i \<le> j \<and> j < 16 \<longrightarrow> a ! j = b ! j)"
proof (induction a b i rule: InterfaceID_eq_loop.induct)
  case (1 a b i)
  show ?case
  proof (cases "i < 16 \<and> a ! i = b ! i")
    case True
    then have "InterfaceID_eq_loop a b i \<longleftrightarrow> InterfaceID_eq_loop a b (Suc i)" by (simp add: InterfaceID_eq_loop.simps [of a b i])
    then show ?thesis using True 1 by (metis Suc_leD le_neq_implies_less Suc_leI)
  next
    case False
    then show ?thesis by (auto simp: InterfaceID_eq_loop.simps [of a b i])
  qed
qed

lemma InterfaceID_eq_iff: "length a = 16 \<Longrightarrow> length b = 16 \<Longrightarrow> InterfaceID_eq a b \<longleftrightarrow> a = b"
  by (auto simp: InterfaceID_eq_def InterfaceID_eq_loop_iff list_eq_iff_nth_eq)

lemma interface_ids_wf: "list_all (\<lambda>i. length i = 16) interface_ids" "distinct interface_ids"
  by (simp_all add: interface_ids_def IID_defs)

subsection \<open>Device types\<close>

datatype DeviceTypeMajor = M_UNKNOWN | BRIDGE | CONTROLLER | STORAGE | NETWORK | DISPLAY | AUDIO | INPUT | OUTPUT | CAMERA
  | COMMUNICATION | POWER | TIMER | SECURITY | MISC

fun DeviceTypeMajor_code :: "DeviceTypeMajor \<Rightarrow> u16" where
  "DeviceTypeMajor_code M_UNKNOWN = 0"
| "DeviceTypeMajor_code BRIDGE = 1"
| "DeviceTypeMajor_code CONTROLLER = 2"
| "DeviceTypeMajor_code STORAGE = 3"
| "DeviceTypeMajor_code NETWORK = 4"
| "DeviceTypeMajor_code DISPLAY = 5"
| "DeviceTypeMajor_code AUDIO = 6"
| "DeviceTypeMajor_code INPUT = 7"
| "DeviceTypeMajor_code OUTPUT = 8"
| "DeviceTypeMajor_code CAMERA = 9"
| "DeviceTypeMajor_code COMMUNICATION = 10"
| "DeviceTypeMajor_code POWER = 11"
| "DeviceTypeMajor_code TIMER = 12"
| "DeviceTypeMajor_code SECURITY = 13"
| "DeviceTypeMajor_code MISC = 0xFFFF"

datatype DeviceBusType = B_UNKNOWN | PCI | USB | UART

fun DeviceBusType_code :: "DeviceBusType \<Rightarrow> u16" where
  "DeviceBusType_code B_UNKNOWN = 0"
| "DeviceBusType_code PCI = 1"
| "DeviceBusType_code USB = 2"
| "DeviceBusType_code UART = 3"

definition MakeDeviceType :: "DeviceTypeMajor \<Rightarrow> u16 \<Rightarrow> u32" where
  "MakeDeviceType major minor = push_bit 16 (ucast (DeviceTypeMajor_code major)) OR ucast minor"

datatype DeviceType = UNKNOWN | USB_CONTROLLER_XHCI | USB_CONTROLLER_EHCI | AHCI_CONTROLLER | IDE_CONTROLLER | SATA_DISK
  | IDE_DISK | PS2_MOUSE | HID_MOUSE | PS2_KEYBOARD | HID_KEYBOARD | HW_RANDOM_ENGINE | CONSOLE | SERIAL

fun DeviceType_code :: "DeviceType \<Rightarrow> u32" where
  "DeviceType_code UNKNOWN = MakeDeviceType M_UNKNOWN 0"
| "DeviceType_code USB_CONTROLLER_XHCI = MakeDeviceType CONTROLLER 0x0101"
| "DeviceType_code USB_CONTROLLER_EHCI = MakeDeviceType CONTROLLER 0x0102"
| "DeviceType_code AHCI_CONTROLLER = MakeDeviceType CONTROLLER 0x0201"
| "DeviceType_code IDE_CONTROLLER = MakeDeviceType CONTROLLER 0x0202"
| "DeviceType_code SATA_DISK = MakeDeviceType STORAGE 0x0001"
| "DeviceType_code IDE_DISK = MakeDeviceType STORAGE 0x0002"
| "DeviceType_code PS2_MOUSE = MakeDeviceType INPUT 0x0101"
| "DeviceType_code HID_MOUSE = MakeDeviceType INPUT 0x0201"
| "DeviceType_code PS2_KEYBOARD = MakeDeviceType INPUT 0x0102"
| "DeviceType_code HID_KEYBOARD = MakeDeviceType INPUT 0x0202"
| "DeviceType_code HW_RANDOM_ENGINE = MakeDeviceType SECURITY 0x0001"
| "DeviceType_code CONSOLE = MakeDeviceType OUTPUT 0x0000"
| "DeviceType_code SERIAL = MakeDeviceType OUTPUT 0x0001"

lemma MakeDeviceType_parts:
  "(ucast (drop_bit 16 (MakeDeviceType major minor)) :: u16) = DeviceTypeMajor_code major"
  "(ucast (MakeDeviceType major minor) :: u16) = minor"
  by (rule bit_word_eqI, auto simp: MakeDeviceType_def bit_simps dest: bit_imp_le_length)+

lemma DeviceTypeMajor_code_inj: "DeviceTypeMajor_code a = DeviceTypeMajor_code b \<longleftrightarrow> a = b"
  by (cases a; cases b; simp)

lemma MakeDeviceType_inject: "MakeDeviceType a i = MakeDeviceType b j \<longleftrightarrow> a = b \<and> i = j"
  by (metis MakeDeviceType_parts DeviceTypeMajor_code_inj)

lemma DeviceType_code_inj: "DeviceType_code a = DeviceType_code b \<longleftrightarrow> a = b"
  by (cases a; cases b; simp add: MakeDeviceType_inject)

end
