(* ===== verification/SerialPort.thy ===== *)
theory SerialPort
  imports Hardware Locking ObjectModel
begin

text \<open>
  \<open>Kernel/Arch/x86_64/IO/Serial/Serial16550.hpp\<close> and \<open>Kernel/Devices/Console/SerialConsole.hpp\<close>: the UART driver
  and the output device on top of it.

  The state extends the access trace with the interrupt flag register. The wait for an empty transmitter
  polls the device and may not end, so it is a partial function, and so is everything that writes. A
  string is the list of its bytes before the terminating NUL.
\<close>

unbundle bit_operations_syntax

record Serial16550 =
  m_Base :: u64
  m_SpinLock :: TicketSpinLock
  m_IsReady :: bool

record uart_state = hw_state +
  rflags :: u64

subsection \<open>Initialisation\<close>

definition Probe :: "hardware \<Rightarrow> u16 \<Rightarrow> ('r, bool) hw" where
  "Probe hw base = do {
     lsr \<leftarrow> In8 hw (base + 5);
     (if lsr = 0xFF then State_Monad.return False
      else do {
        ier \<leftarrow> In8 hw (base + 1);
        mcr \<leftarrow> In8 hw (base + 4);
        Out8 (base + 4) (mcr OR 0x10);
        Out8 base 0xAE;
        r \<leftarrow> In8 hw base;
        Out8 (base + 4) mcr;
        Out8 (base + 1) ier;
        State_Monad.return (r = 0xAE)
      })
   }"

text \<open>The programming sequence, which both constructors contain.\<close>

definition baud_divisor :: "u32 \<Rightarrow> u16" where
  "baud_divisor baud = ucast (115200 div (if baud \<noteq> 0 then baud else 115200))"

definition setup_line :: "hardware \<Rightarrow> u16 \<Rightarrow> u32 \<Rightarrow> ('r, unit) hw" where
  "setup_line hw base baud = do {
     Out8 (base + 1) 0x00;
     Out8 (base + 3) 0x80;
     let dv = baud_divisor baud;
     Out8 base (ucast (dv AND 0xFF));
     Out8 (base + 1) (ucast (drop_bit 8 dv AND 0xFF));
     Out8 (base + 3) 0x03;
     Out8 (base + 2) 0xC7;
     Out8 (base + 4) 0x0B;
     _ \<leftarrow> In8 hw (base + 5);
     _ \<leftarrow> In8 hw (base + 6);
     _ \<leftarrow> In8 hw (base + 2);
     State_Monad.return ()
   }"

definition new_lock :: TicketSpinLock where
  "new_lock = \<lparr>Next = 0, Owner = 0\<rparr>"

definition Serial16550_fixed :: "hardware \<Rightarrow> u16 \<Rightarrow> u32 \<Rightarrow> ('r, Serial16550) hw" where
  "Serial16550_fixed hw base baud = do {
     setup_line hw base baud;
     State_Monad.return \<lparr>m_Base = ucast base, m_SpinLock = new_lock, m_IsReady = False\<rparr>
   }"

definition baseCand :: "u16 list" where
  "baseCand = [0x3F8, 0x2F8, 0x3E8, 0x2E8]"

text \<open>The search over the candidates; \<open>base\<close> is the last one that answered, or 0.\<close>

primrec probe_loop :: "hardware \<Rightarrow> u16 list \<Rightarrow> u16 \<Rightarrow> ('r, u16) hw" where
  "probe_loop hw [] base = State_Monad.return base"
| "probe_loop hw (b # bs) base = do {
     ok \<leftarrow> Probe hw b;
     probe_loop hw bs (if ok then b else base)
   }"

text \<open>\<open>m_Base\<close> has no initial value: before the search it is whatever the memory held, the argument \<open>junk\<close>.\<close>

definition Serial16550_probe :: "hardware \<Rightarrow> u64 \<Rightarrow> u32 \<Rightarrow> ('r, Serial16550) hw" where
  "Serial16550_probe hw junk baud = do {
     base \<leftarrow> probe_loop hw baseCand 0;
     (if base = 0 then State_Monad.return \<lparr>m_Base = junk, m_SpinLock = new_lock, m_IsReady = False\<rparr>
      else do {
        setup_line hw base baud;
        State_Monad.return \<lparr>m_Base = ucast base, m_SpinLock = new_lock, m_IsReady = True\<rparr>
      })
   }"

subsection \<open>Transmission\<close>

definition CanTx :: "hardware \<Rightarrow> Serial16550 \<Rightarrow> ('r, bool) hw" where
  "CanTx hw u =
     (if \<not> m_IsReady u then State_Monad.return False
      else do { v \<leftarrow> In8 hw (ucast (m_Base u + 5)); State_Monad.return (v AND 0x20 \<noteq> 0) })"

partial_function (option) wait_tx :: "hardware \<Rightarrow> Serial16550 \<Rightarrow> 'r hw_state_scheme \<Rightarrow> 'r hw_state_scheme option" where
  "wait_tx hw u s = (let (ok, s1) = run_state (CanTx hw u) s in if \<not> ok then wait_tx hw u s1 else Some s1)"

definition WriteByte :: "hardware \<Rightarrow> u8 \<Rightarrow> Serial16550 \<Rightarrow> 'r hw_state_scheme \<Rightarrow> 'r hw_state_scheme option" where
  "WriteByte hw v u s =
     (if \<not> m_IsReady u then Some s
      else case wait_tx hw u s of None \<Rightarrow> None | Some s1 \<Rightarrow> Some (snd (run_state (Out8 (ucast (m_Base u)) v) s1)))"

primrec Write_loop :: "hardware \<Rightarrow> Serial16550 \<Rightarrow> u8 list \<Rightarrow> 'r hw_state_scheme \<Rightarrow> 'r hw_state_scheme option" where
  "Write_loop hw u [] s = Some s"
| "Write_loop hw u (c # cs) s =
     (case (if c = 0x0A then WriteByte hw 0x0D u s else Some s) of
        None \<Rightarrow> None
      | Some s1 \<Rightarrow> (case WriteByte hw c u s1 of None \<Rightarrow> None | Some s2 \<Rightarrow> Write_loop hw u cs s2))"

definition Write :: "hardware \<Rightarrow> u8 list \<Rightarrow> Serial16550 \<Rightarrow> uart_state \<Rightarrow> (Serial16550 \<times> uart_state) option" where
  "Write hw str u s =
     (if \<not> m_IsReady u then Some (u, s)
      else case LockIRQSave (m_SpinLock u) (rflags s) of
             None \<Rightarrow> None
           | Some (guard, l, fl) \<Rightarrow>
               (case Write_loop hw u str (s\<lparr>rflags := fl\<rparr>) of
                  None \<Rightarrow> None
                | Some s1 \<Rightarrow>
                    let (l', fl') = UnlockIRQRestore guard l (rflags s1)
                    in Some (u\<lparr>m_SpinLock := l'\<rparr>, s1\<lparr>rflags := fl'\<rparr>)))"

definition Serial_Flush :: "hardware \<Rightarrow> Serial16550 \<Rightarrow> 'r hw_state_scheme \<Rightarrow> 'r hw_state_scheme option" where
  "Serial_Flush hw u s = (if \<not> m_IsReady u then Some s else wait_tx hw u s)"

definition BasePort :: "Serial16550 \<Rightarrow> u16" where
  "BasePort u = ucast (m_Base u)"

subsection \<open>The output device\<close>

text \<open>The port pointer of the device; \<open>None\<close> is the null pointer.\<close>

record SerialConsole =
  m_Port :: "Serial16550 option"

definition SerialConsole_PutChar :: "hardware \<Rightarrow> u8 \<Rightarrow> SerialConsole \<Rightarrow> uart_state \<Rightarrow> (SerialConsole \<times> uart_state) option" where
  "SerialConsole_PutChar hw ch d s =
     (case m_Port d of
        None \<Rightarrow> Some (d, s)
      | Some u \<Rightarrow>
          (case (if ch = 0x0A then WriteByte hw 0x0D u s else Some s) of
             None \<Rightarrow> None
           | Some s1 \<Rightarrow> (case WriteByte hw ch u s1 of None \<Rightarrow> None | Some s2 \<Rightarrow> Some (d, s2))))"

definition SerialConsole_PutString :: "hardware \<Rightarrow> u8 list \<Rightarrow> SerialConsole \<Rightarrow> uart_state \<Rightarrow> (SerialConsole \<times> uart_state) option" where
  "SerialConsole_PutString hw str d s =
     (case m_Port d of
        None \<Rightarrow> Some (d, s)
      | Some u \<Rightarrow> (case Write hw str u s of None \<Rightarrow> None | Some (u', s') \<Rightarrow> Some (d\<lparr>m_Port := Some u'\<rparr>, s')))"

definition SerialConsole_Flush :: "hardware \<Rightarrow> SerialConsole \<Rightarrow> uart_state \<Rightarrow> (SerialConsole \<times> uart_state) option" where
  "SerialConsole_Flush hw d s =
     (case m_Port d of
        None \<Rightarrow> Some (d, s)
      | Some u \<Rightarrow> (case Serial_Flush hw u s of None \<Rightarrow> None | Some s' \<Rightarrow> Some (d, s')))"

definition SerialConsole_GetDeviceType :: "SerialConsole \<Rightarrow> DeviceType" where
  "SerialConsole_GetDeviceType d = SERIAL"

definition SerialConsole_Reset :: "SerialConsole \<Rightarrow> uart_state \<Rightarrow> (SerialConsole \<times> uart_state) option" where
  "SerialConsole_Reset d s = Some (d, s)"

definition SerialConsole_Shutdown :: "SerialConsole \<Rightarrow> uart_state \<Rightarrow> (SerialConsole \<times> uart_state) option" where
  "SerialConsole_Shutdown d s = Some (d, s)"

subsection \<open>The output interface\<close>

text \<open>What \<open>IOutputDevice\<close> promises: characters and strings come out in order, each character encoded by \<open>enc\<close>.\<close>

datatype print_op = PrintChar u8 | PrintString "u8 list"

fun print_bytes :: "(u8 \<Rightarrow> u8 list) \<Rightarrow> print_op \<Rightarrow> u8 list" where
  "print_bytes enc (PrintChar c) = enc c"
| "print_bytes enc (PrintString cs) = concat (map enc cs)"

fun do_print :: "(u8 \<Rightarrow> 's \<Rightarrow> 's option) \<Rightarrow> (u8 list \<Rightarrow> 's \<Rightarrow> 's option) \<Rightarrow> print_op \<Rightarrow> 's \<Rightarrow> 's option" where
  "do_print putc puts (PrintChar c) s = putc c s"
| "do_print putc puts (PrintString cs) s = puts cs s"

primrec print_all :: "(u8 \<Rightarrow> 's \<Rightarrow> 's option) \<Rightarrow> (u8 list \<Rightarrow> 's \<Rightarrow> 's option) \<Rightarrow> print_op list \<Rightarrow> 's \<Rightarrow> 's option" where
  "print_all putc puts [] s = Some s"
| "print_all putc puts (x # xs) s = (case do_print putc puts x s of None \<Rightarrow> None | Some s1 \<Rightarrow> print_all putc puts xs s1)"

locale output_device =
  fixes put_char :: "u8 \<Rightarrow> 's \<Rightarrow> 's option"
    and put_string :: "u8 list \<Rightarrow> 's \<Rightarrow> 's option"
    and out :: "'s \<Rightarrow> u8 list"
    and ready :: "'s \<Rightarrow> bool"
    and enc :: "u8 \<Rightarrow> u8 list"
  assumes char_law: "ready s \<Longrightarrow> \<exists>s'. put_char c s = Some s' \<and> ready s' \<and> out s' = out s @ enc c"
    and string_law: "ready s \<Longrightarrow> \<exists>s'. put_string cs s = Some s' \<and> ready s' \<and> out s' = out s @ concat (map enc cs)"
begin

lemma op_law: "ready s \<Longrightarrow> \<exists>s'. do_print put_char put_string x s = Some s' \<and> ready s' \<and> out s' = out s @ print_bytes enc x"
  using char_law string_law by (cases x) simp_all

lemma all_law:
  "ready s \<Longrightarrow> \<exists>s'. print_all put_char put_string xs s = Some s' \<and> ready s' \<and>
     out s' = out s @ concat (map (print_bytes enc) xs)"
proof (induction xs arbitrary: s)
  case (Cons x xs)
  from op_law [OF Cons.prems, of x] obtain s1 where
    s1: "do_print put_char put_string x s = Some s1" "ready s1" "out s1 = out s @ print_bytes enc x" by blast
  from Cons.IH [OF s1(2)] s1 show ?case by auto
qed simp

end

subsection \<open>Transmission ends\<close>

text \<open>
  The transmitter becomes empty when it is polled long enough: \<open>polls hw p n tr\<close> is the trace after \<open>n\<close> reads
  of port \<open>p\<close>.
\<close>

primrec polls :: "hardware \<Rightarrow> u16 \<Rightarrow> nat \<Rightarrow> io_event list \<Rightarrow> io_event list" where
  "polls hw p 0 tr = tr"
| "polls hw p (Suc n) tr = polls hw p n (tr @ [EvIn8 p (hw_in8 hw tr p)])"

definition uart_live :: "hardware \<Rightarrow> u16 \<Rightarrow> bool" where
  "uart_live hw p \<longleftrightarrow> (\<forall>tr. \<exists>n. hw_in8 hw (polls hw p n tr) p AND 0x20 \<noteq> 0)"

definition sent :: "u16 \<Rightarrow> io_event list \<Rightarrow> u8 list" where
  "sent p tr = concat (map (\<lambda>e. case e of EvOut8 q v \<Rightarrow> if q = p then [v] else [] | _ \<Rightarrow> []) tr)"

lemma sent_append [simp]: "sent p (tr @ tr') = sent p tr @ sent p tr'"
  by (simp add: sent_def)

lemma sent_events [simp]: "sent p [EvOut8 p v] = [v]" "sent p [EvIn8 q w] = []"
  by (simp_all add: sent_def)

definition line_status :: "Serial16550 \<Rightarrow> u16" where
  "line_status u = ucast (m_Base u + 5)"

lemma wait_tx_at:
  assumes "m_IsReady u" and "hw_in8 hw (polls hw (line_status u) n (trace s)) (line_status u) AND 0x20 \<noteq> 0"
  shows "\<exists>tr. wait_tx hw u s = Some (s\<lparr>trace := trace s @ tr\<rparr>) \<and> sent p tr = []"
  using assms(2)
proof (induction n arbitrary: s)
  case 0
  let ?e = "EvIn8 (line_status u) (hw_in8 hw (trace s) (line_status u))"
  have "wait_tx hw u s = Some (s\<lparr>trace := trace s @ [?e]\<rparr>)"
    using 0 assms(1) by (subst wait_tx.simps) (simp add: CanTx_def hw_run run_state_bind line_status_def)
  then show ?case by (intro exI [of _ "[?e]"]) simp
next
  case (Suc n)
  let ?e = "EvIn8 (line_status u) (hw_in8 hw (trace s) (line_status u))"
  let ?s1 = "s\<lparr>trace := trace s @ [?e]\<rparr>"
  have run: "run_state (CanTx hw u) s = (hw_in8 hw (trace s) (line_status u) AND 0x20 \<noteq> 0, ?s1)"
    using assms(1) by (simp add: CanTx_def hw_run run_state_bind line_status_def)
  show ?case
  proof (cases "hw_in8 hw (trace s) (line_status u) AND 0x20 \<noteq> 0")
    case True
    then have "wait_tx hw u s = Some ?s1" by (subst wait_tx.simps) (simp add: run)
    then show ?thesis by (intro exI [of _ "[?e]"]) simp
  next
    case False
    have "hw_in8 hw (polls hw (line_status u) n (trace ?s1)) (line_status u) AND 0x20 \<noteq> 0" using Suc.prems by simp
    from Suc.IH [OF this] obtain tr where tr: "wait_tx hw u ?s1 = Some (?s1\<lparr>trace := trace ?s1 @ tr\<rparr>)" "sent p tr = []" by blast
    have "wait_tx hw u s = wait_tx hw u ?s1" using False by (subst wait_tx.simps) (simp add: run)
    then show ?thesis using tr by (intro exI [of _ "?e # tr"]) (simp add: sent_append [of p "[?e]" tr, simplified])
  qed
qed

lemma WriteByte_sends:
  assumes "m_IsReady u" and "uart_live hw (line_status u)"
  obtains tr where "WriteByte hw v u s = Some (s\<lparr>trace := trace s @ tr\<rparr>)" "sent (BasePort u) tr = [v]"
proof -
  from assms(2) obtain n where "hw_in8 hw (polls hw (line_status u) n (trace s)) (line_status u) AND 0x20 \<noteq> 0"
    unfolding uart_live_def by blast
  from wait_tx_at [OF assms(1) this, of "BasePort u"] obtain tr where
    "wait_tx hw u s = Some (s\<lparr>trace := trace s @ tr\<rparr>)" "sent (BasePort u) tr = []" by blast
  then show thesis
    using that [of "tr @ [EvOut8 (BasePort u) v]"] assms(1) by (simp add: WriteByte_def hw_run BasePort_def)
qed

text \<open>The encoding on the line: a line feed is sent as carriage return and line feed.\<close>

definition crlf :: "u8 \<Rightarrow> u8 list" where
  "crlf c = (if c = 0x0A then [0x0D, 0x0A] else [c])"

lemma write_char_sends:
  assumes "m_IsReady u" and "uart_live hw (line_status u)"
  obtains s1 tr where "(if c = 0x0A then WriteByte hw 0x0D u s else Some s) = Some s1"
    "WriteByte hw c u s1 = Some (s\<lparr>trace := trace s @ tr\<rparr>)" "sent (BasePort u) tr = crlf c"
proof (cases "c = 0x0A")
  case True
  obtain tr where tr: "WriteByte hw 0x0D u s = Some (s\<lparr>trace := trace s @ tr\<rparr>)" "sent (BasePort u) tr = [0x0D]"
    by (rule WriteByte_sends [OF assms])
  obtain tr' where "WriteByte hw c u (s\<lparr>trace := trace s @ tr\<rparr>) = Some (s\<lparr>trace := trace s @ tr @ tr'\<rparr>)" "sent (BasePort u) tr' = [c]"
    by (rule WriteByte_sends [OF assms, of c "s\<lparr>trace := trace s @ tr\<rparr>"]) simp
  then show thesis using that [of "s\<lparr>trace := trace s @ tr\<rparr>" "tr @ tr'"] tr True by (simp add: crlf_def)
next
  case False
  obtain tr where "WriteByte hw c u s = Some (s\<lparr>trace := trace s @ tr\<rparr>)" "sent (BasePort u) tr = [c]"
    by (rule WriteByte_sends [OF assms])
  then show thesis using that [of s tr] False by (simp add: crlf_def)
qed

lemma Write_loop_sends:
  assumes "m_IsReady u" and "uart_live hw (line_status u)"
  shows "\<exists>tr. Write_loop hw u cs s = Some (s\<lparr>trace := trace s @ tr\<rparr>) \<and> sent (BasePort u) tr = concat (map crlf cs)"
proof (induction cs arbitrary: s)
  case Nil
  show ?case by (intro exI [of _ "[]"]) (simp add: sent_def)
next
  case (Cons c cs)
  obtain s1 tr where st: "(if c = 0x0A then WriteByte hw 0x0D u s else Some s) = Some s1"
    "WriteByte hw c u s1 = Some (s\<lparr>trace := trace s @ tr\<rparr>)" "sent (BasePort u) tr = crlf c"
    by (rule write_char_sends [OF assms])
  from Cons.IH [of "s\<lparr>trace := trace s @ tr\<rparr>"] obtain tr' where
    "Write_loop hw u cs (s\<lparr>trace := trace s @ tr\<rparr>) = Some (s\<lparr>trace := trace s @ tr @ tr'\<rparr>)"
    "sent (BasePort u) tr' = concat (map crlf cs)" by auto
  with st show ?case by (intro exI [of _ "tr @ tr'"]) simp
qed

definition console_ready :: "hardware \<Rightarrow> SerialConsole \<times> uart_state \<Rightarrow> bool" where
  "console_ready hw ds \<longleftrightarrow>
     (case m_Port (fst ds) of
        None \<Rightarrow> False
      | Some u \<Rightarrow> m_IsReady u \<and> Owner (m_SpinLock u) = Next (m_SpinLock u) \<and> uart_live hw (line_status u))"

definition console_out :: "SerialConsole \<times> uart_state \<Rightarrow> u8 list" where
  "console_out ds = (case m_Port (fst ds) of None \<Rightarrow> [] | Some u \<Rightarrow> sent (BasePort u) (trace (snd ds)))"

lemma Write_sends:
  assumes "m_IsReady u" and "uart_live hw (line_status u)" and "Owner (m_SpinLock u) = Next (m_SpinLock u)"
  shows "\<exists>u' s' tr. Write hw cs u s = Some (u', s') \<and> m_IsReady u' \<and> m_Base u' = m_Base u \<and>
    Owner (m_SpinLock u') = Next (m_SpinLock u') \<and> trace s' = trace s @ tr \<and> sent (BasePort u) tr = concat (map crlf cs)"
proof -
  obtain guard l fl where g: "LockIRQSave (m_SpinLock u) (rflags s) = Some (guard, l, fl)" "Next l = Owner l + 1"
    using assms(3) by (simp add: LockIRQSave_def IRQSaveAndDisable_def Lock_fetch_add_def Lock_poll_def)
  obtain tr where "Write_loop hw u cs (s\<lparr>rflags := fl\<rparr>) = Some (s\<lparr>rflags := fl, trace := trace s @ tr\<rparr>)"
    "sent (BasePort u) tr = concat (map crlf cs)"
    using Write_loop_sends [OF assms(1,2), of cs "s\<lparr>rflags := fl\<rparr>"] by auto
  then show ?thesis using g assms(1) by (simp add: Write_def UnlockIRQRestore_def Unlock_def)
qed

interpretation serial: output_device "\<lambda>c (d, s). SerialConsole_PutChar hw c d s"
  "\<lambda>cs (d, s). SerialConsole_PutString hw cs d s" console_out "console_ready hw" crlf for hw
proof unfold_locales
  fix ds :: "SerialConsole \<times> uart_state" and c cs
  assume r: "console_ready hw ds"
  obtain d s where ds: "ds = (d, s)" by (cases ds)
  from r obtain u where u: "m_Port d = Some u" "m_IsReady u" "Owner (m_SpinLock u) = Next (m_SpinLock u)"
      "uart_live hw (line_status u)" by (auto simp: console_ready_def ds split: option.splits)
  obtain s1 tr where "(if c = 0x0A then WriteByte hw 0x0D u s else Some s) = Some s1"
    "WriteByte hw c u s1 = Some (s\<lparr>trace := trace s @ tr\<rparr>)" "sent (BasePort u) tr = crlf c"
    by (rule write_char_sends [OF u(2,4)])
  then show "\<exists>s'. (case ds of (d, s) \<Rightarrow> SerialConsole_PutChar hw c d s) = Some s' \<and> console_ready hw s' \<and>
      console_out s' = console_out ds @ crlf c"
    using u by (simp add: ds SerialConsole_PutChar_def console_ready_def console_out_def)
  from Write_sends [OF u(2,4,3), of cs s] obtain u' s' tr where
    w: "Write hw cs u s = Some (u', s')" "m_IsReady u'" "m_Base u' = m_Base u" "Owner (m_SpinLock u') = Next (m_SpinLock u')"
      "trace s' = trace s @ tr" "sent (BasePort u) tr = concat (map crlf cs)" by blast
  then have "BasePort u' = BasePort u" "line_status u' = line_status u" by (simp_all add: BasePort_def line_status_def)
  then show "\<exists>s'. (case ds of (d, s) \<Rightarrow> SerialConsole_PutString hw cs d s) = Some s' \<and> console_ready hw s' \<and>
      console_out s' = console_out ds @ concat (map crlf cs)"
    using u w by (simp add: ds SerialConsole_PutString_def console_ready_def console_out_def)
qed

lemma fixed_base_never_writes:
  "WriteByte hw v (fst (run_state (Serial16550_fixed hw' base baud) s')) s = Some s \<and>
   Write hw str (fst (run_state (Serial16550_fixed hw' base baud) s')) s1 =
     Some (fst (run_state (Serial16550_fixed hw' base baud) s'), s1)"
  by (simp add: Serial16550_fixed_def WriteByte_def Write_def run_state_bind case_prod_beta)

lemma probe_loop_last:
  assumes "\<And>b s. fst (run_state (Probe hw b) (s :: 'r hw_state_scheme)) \<longleftrightarrow> b \<in> A"
  shows "fst (run_state (probe_loop hw bs base) (s :: 'r hw_state_scheme)) =
    (if \<exists>b\<in>set bs. b \<in> A then last (filter (\<lambda>b. b \<in> A) bs) else base)"
proof (induction bs arbitrary: base s)
  case (Cons b bs)
  then show ?case using assms [of b s] by (auto simp: filter_empty_conv)
qed simp

lemma Serial16550_probe_last:
  assumes "\<And>b s. fst (run_state (Probe hw b) (s :: 'r hw_state_scheme)) \<longleftrightarrow> b \<in> A"
    and "u = fst (run_state (Serial16550_probe hw junk baud) (s :: 'r hw_state_scheme))"
  shows "if \<exists>b\<in>set baseCand. b \<in> A then m_IsReady u \<and> BasePort u = last (filter (\<lambda>b. b \<in> A) baseCand) else \<not> m_IsReady u"
proof (cases "\<exists>b\<in>set baseCand. b \<in> A")
  case True
  let ?b = "last (filter (\<lambda>b. b \<in> A) baseCand)"
  have "?b \<in> set baseCand" using True by (metis (no_types, lifting) filter_empty_conv filter_is_subset last_in_set subsetD)
  then have "?b \<noteq> 0" by (auto simp: baseCand_def)
  moreover have "ucast (ucast w :: u64) = (w :: u16)" for w by (rule bit_word_eqI) (auto simp: bit_simps)
  ultimately show ?thesis using True probe_loop_last [OF assms(1), of baseCand 0 s]
    by (simp add: assms(2) Serial16550_probe_def BasePort_def)
next
  case False
  then show ?thesis using probe_loop_last [OF assms(1), of baseCand 0 s] by (simp add: assms(2) Serial16550_probe_def)
qed

definition sample_uart :: Serial16550 where
  "sample_uart = \<lparr>m_Base = 0x3F8, m_SpinLock = new_lock, m_IsReady = True\<rparr>"

definition sample_uart_hw :: hardware where
  "sample_uart_hw = \<lparr>hw_in8 = \<lambda>tr _. if even (length tr) then 0x20 else 0, hw_in16 = \<lambda>_ _. 0, hw_in32 = \<lambda>_ _. 0, hw_rdmsr = \<lambda>_ _. 0,
     hw_mmio = \<lambda>_ _. 0, hw_tsc = \<lambda>_. 0, hw_cpuid = \<lambda>_ _ _. (0, 0, 0, 0), hw_rdrand = \<lambda>_ _. (False, 0)\<rparr>"

lemma sample_uart_live: "uart_live sample_uart_hw p"
  unfolding uart_live_def
proof
  fix tr :: "io_event list"
  show "\<exists>n. hw_in8 sample_uart_hw (polls sample_uart_hw p n tr) p AND 0x20 \<noteq> 0"
    by (cases "even (length tr)") (auto intro: exI [of _ 0] exI [of _ "Suc 0"] simp: sample_uart_hw_def)
qed

subsection \<open>Properties\<close>

text \<open>
  C24. The serial console prints everything, in order: on a port that was found and whose transmitter becomes
  empty whenever it is polled long enough, every sequence of characters and strings is printed to the end,
  the bytes written to the data register are exactly those of the sequence with each line feed preceded by
  a carriage return, and the port is free for the next writer afterwards.
\<close>

theorem serial_output_correct:
  assumes "console_ready hw (d, s)"
  shows "\<exists>d' s'. print_all (\<lambda>c (d, s). SerialConsole_PutChar hw c d s) (\<lambda>cs (d, s). SerialConsole_PutString hw cs d s) xs (d, s) =
      Some (d', s') \<and> console_ready hw (d', s') \<and>
    console_out (d', s') = console_out (d, s) @ concat (map (print_bytes crlf) xs)"
  using serial.all_law [OF assms] by (metis surj_pair)

theorem serial_output_correct_witness:
  "\<exists>d' s'. print_all (\<lambda>c (d, s). SerialConsole_PutChar sample_uart_hw c d s)
     (\<lambda>cs (d, s). SerialConsole_PutString sample_uart_hw cs d s) [PrintString [0x48, 0x0A], PrintChar 0x21]
     (\<lparr>m_Port = Some sample_uart\<rparr>, \<lparr>trace = [], rflags = 0x202\<rparr>) = Some (d', s') \<and>
     console_out (d', s') = [0x48, 0x0D, 0x0A, 0x21]"
proof -
  have "console_ready sample_uart_hw (\<lparr>m_Port = Some sample_uart\<rparr>, \<lparr>trace = [], rflags = 0x202\<rparr>)"
    by (simp add: console_ready_def sample_uart_live) (simp add: sample_uart_def new_lock_def)
  from serial_output_correct [OF this, of "[PrintString [0x48, 0x0A], PrintChar 0x21]"] show ?thesis
    by (fastforce simp: crlf_def console_out_def sent_def)
qed

end
