(* ===== verification/ConsoleFont.thy ===== *)
theory ConsoleFont
  imports HailPrelude
begin

text \<open>
  \<open>Kernel/Core/KernelConsole/ConsoleFont.c\<close>: the bitmap font of the kernel console, one row of 16 bytes for each
  character from \<open>0x21\<close> to \<open>0x7E\<close>. The other rows of the 127-row array are not named in the initialiser, so
  they are zero.
\<close>

definition font_rows :: "(u8 \<times> u8 list) list" where
  "font_rows =
    [(0x21, [0x18, 0x3C, 0x7E, 0x7E, 0x7E, 0x7E, 0x7E, 0x7E, 0x7E, 0x3C, 0x18, 0x00, 0x3C, 0x3C, 0x3C, 0x3C]),
     (0x22, [0x66, 0x77, 0x33, 0x33, 0x00, 0x00, 0x00, 0x00, 0x00, 0x00, 0x00, 0x00, 0x00, 0x00, 0x00, 0x00]),
     (0x23, [0x66, 0x66, 0x66, 0x66, 0xFF, 0xFF, 0x66, 0x66, 0x66, 0x66, 0xFF, 0xFF, 0x66, 0x66, 0x66, 0x66]),
     (0x24, [0x18, 0x18, 0x7E, 0xFF, 0xDB, 0xD8, 0xF8, 0x78, 0x1C, 0x1E, 0xDF, 0xDB, 0xFF, 0x7E, 0x18, 0x18]),
     (0x25, [0x60, 0x93, 0x93, 0x97, 0x96, 0x6E, 0x0C, 0x1C, 0x18, 0x38, 0x36, 0x79, 0x69, 0xE9, 0xC9, 0xC6]),
     (0x26, [0x1C, 0x3E, 0x77, 0x63, 0x63, 0x73, 0x3E, 0x7C, 0x6E, 0xE7, 0xC3, 0xC3, 0xE3, 0x63, 0x37, 0x3F]),
     (0x27, [0x18, 0x38, 0x38, 0x30, 0x20, 0x00, 0x00, 0x00, 0x00, 0x00, 0x00, 0x00, 0x00, 0x00, 0x00, 0x00]),
     (0x28, [0x07, 0x1F, 0x7C, 0xF0, 0xE0, 0xC0, 0xC0, 0xC0, 0xC0, 0xC0, 0xC0, 0xE0, 0xF0, 0x7C, 0x1F, 0x07]),
     (0x29, [0xE0, 0xF8, 0x3E, 0x0F, 0x07, 0x03, 0x03, 0x03, 0x03, 0x03, 0x03, 0x07, 0x0F, 0x3E, 0xF8, 0xE0]),
     (0x2A, [0x99, 0xDB, 0x7E, 0xFF, 0xFF, 0x7E, 0xDB, 0x99, 0x00, 0x00, 0x00, 0x00, 0x00, 0x00, 0x00, 0x00]),
     (0x2B, [0x00, 0x00, 0x00, 0x18, 0x18, 0x18, 0x18, 0xFF, 0xFF, 0x18, 0x18, 0x18, 0x18, 0x00, 0x00, 0x00]),
     (0x2C, [0x00, 0x00, 0x00, 0x00, 0x00, 0x00, 0x00, 0x00, 0x00, 0x00, 0x00, 0x30, 0x38, 0x1C, 0x0C, 0x0C]),
     (0x2D, [0x00, 0x00, 0x00, 0x00, 0x00, 0x00, 0x00, 0x7E, 0x7E, 0x00, 0x00, 0x00, 0x00, 0x00, 0x00, 0x00]),
     (0x2E, [0x00, 0x00, 0x00, 0x00, 0x00, 0x00, 0x00, 0x00, 0x00, 0x00, 0x00, 0x00, 0x18, 0x3C, 0x3C, 0x18]),
     (0x2F, [0x03, 0x03, 0x03, 0x07, 0x07, 0x0E, 0x0E, 0x1C, 0x1C, 0x38, 0x38, 0x70, 0x70, 0xE0, 0xE0, 0xC0]),
     (0x30, [0x3C, 0x7E, 0xE7, 0xE3, 0xF3, 0xD3, 0xD3, 0xDB, 0xCB, 0xCB, 0xCF, 0xC7, 0xC7, 0xE7, 0x7E, 0x3C]),
     (0x31, [0x38, 0x78, 0x78, 0x18, 0x18, 0x18, 0x18, 0x18, 0x18, 0x18, 0x18, 0x18, 0x18, 0x18, 0x3C, 0x3C]),
     (0x32, [0x3C, 0x7E, 0x7F, 0xE7, 0xC3, 0x07, 0x0F, 0x1E, 0x3C, 0x78, 0xF0, 0xE0, 0xC0, 0xFF, 0xFF, 0xFF]),
     (0x33, [0x38, 0x7E, 0xFF, 0xE7, 0x07, 0x07, 0x0E, 0xFC, 0xFE, 0xFF, 0x0F, 0x07, 0xE7, 0xFF, 0x7E, 0x38]),
     (0x34, [0x1C, 0x3C, 0x7C, 0xEC, 0xCC, 0xCC, 0xCC, 0xCC, 0xFF, 0xFF, 0x0C, 0x0C, 0x0C, 0x0C, 0x0C, 0x0C]),
     (0x35, [0xFF, 0xFF, 0xC0, 0xC0, 0xC0, 0xC0, 0xFC, 0xFE, 0xCE, 0x07, 0x03, 0x03, 0x07, 0xCF, 0xFE, 0xFC]),
     (0x36, [0x7E, 0xFE, 0xE7, 0xC3, 0xC3, 0xC0, 0xC0, 0xFE, 0xFF, 0xE7, 0xC3, 0xC3, 0xC3, 0xE7, 0xFF, 0x7E]),
     (0x37, [0xFF, 0xFF, 0xC3, 0xC3, 0x03, 0x07, 0x07, 0x0F, 0x0E, 0x1C, 0x3C, 0x38, 0x78, 0x70, 0x70, 0x60]),
     (0x38, [0x3C, 0x7E, 0xE7, 0xC3, 0xC3, 0xE7, 0x7E, 0x3C, 0x7E, 0xE7, 0xC3, 0xC3, 0xC3, 0xE7, 0xFF, 0x7E]),
     (0x39, [0x7E, 0xFF, 0xE7, 0xC3, 0xC3, 0xC3, 0xE7, 0x7F, 0x3F, 0x03, 0x03, 0xC3, 0xE7, 0xFF, 0x7E, 0x3C]),
     (0x3A, [0x00, 0x00, 0x18, 0x3C, 0x3C, 0x18, 0x00, 0x00, 0x00, 0x00, 0x18, 0x3C, 0x3C, 0x18, 0x00, 0x00]),
     (0x3B, [0x00, 0x00, 0x18, 0x3C, 0x3C, 0x18, 0x00, 0x00, 0x00, 0x00, 0x18, 0x3C, 0x3C, 0x3C, 0x1C, 0x38]),
     (0x3C, [0x00, 0x06, 0x0E, 0x1E, 0x3C, 0x78, 0xF0, 0xE0, 0xE0, 0xF0, 0x78, 0x3E, 0x1E, 0x0E, 0x06, 0x00]),
     (0x3D, [0x00, 0x00, 0x00, 0x00, 0x7E, 0x7E, 0x00, 0x00, 0x00, 0x7E, 0x7E, 0x00, 0x00, 0x00, 0x00, 0x00]),
     (0x3E, [0x00, 0x60, 0x70, 0x78, 0x3C, 0x1E, 0x0E, 0x06, 0x0E, 0x0E, 0x1C, 0x38, 0x70, 0x70, 0x60, 0x00]),
     (0x3F, [0x3E, 0x7F, 0xE7, 0xC3, 0xC3, 0xE7, 0x67, 0x0E, 0x1E, 0x1C, 0x18, 0x00, 0x18, 0x3C, 0x3C, 0x18]),
     (0x40, [0x3C, 0x7E, 0xE7, 0xC3, 0xC3, 0xDB, 0xFF, 0xF7, 0xF7, 0xF6, 0xFF, 0xDF, 0xC3, 0xE7, 0x7E, 0x3C]),
     (0x41, [0x18, 0x3C, 0x7E, 0x66, 0xE7, 0xC3, 0xC3, 0xFF, 0xFF, 0xFF, 0xC3, 0xC3, 0xC3, 0xC3, 0xC3, 0xC3]),
     (0x42, [0xF8, 0xFC, 0xCE, 0xC7, 0xC3, 0xC7, 0xCE, 0xFE, 0xFE, 0xCE, 0xC2, 0xC3, 0xC1, 0xC7, 0xFE, 0xFC]),
     (0x43, [0x3E, 0x7F, 0xE3, 0xC3, 0xC3, 0xC3, 0xC0, 0xC0, 0xC0, 0xC0, 0xC3, 0xC3, 0xC3, 0x63, 0x7E, 0x3E]),
     (0x44, [0xE0, 0xFC, 0xFE, 0xC7, 0xC3, 0xC3, 0xC3, 0xC3, 0xC3, 0xC3, 0xC3, 0xC3, 0xC7, 0xCE, 0xFE, 0xF8]),
     (0x45, [0xFF, 0xFF, 0xC0, 0xC0, 0xC0, 0xC0, 0xC0, 0xFF, 0xFF, 0xC0, 0xC0, 0xC0, 0xC0, 0xC0, 0xFF, 0xFF]),
     (0x46, [0xFF, 0xFF, 0xC0, 0xC0, 0xC0, 0xC0, 0xC0, 0xFF, 0xFF, 0xC0, 0xC0, 0xC0, 0xC0, 0xC0, 0xC0, 0xC0]),
     (0x47, [0x3C, 0x7E, 0xE7, 0xE7, 0xC3, 0xC3, 0xC0, 0xC0, 0xCF, 0xCF, 0xCF, 0xC3, 0xC3, 0xE7, 0x7E, 0x3C]),
     (0x48, [0xC3, 0xC3, 0xC3, 0xC3, 0xC3, 0xC3, 0xC3, 0xFF, 0xFF, 0xC3, 0xC3, 0xC3, 0xC3, 0xC3, 0xC3, 0xC3]),
     (0x49, [0x7E, 0x7E, 0x18, 0x18, 0x18, 0x18, 0x18, 0x18, 0x18, 0x18, 0x18, 0x18, 0x18, 0x18, 0x7E, 0x7E]),
     (0x4A, [0x1F, 0x1F, 0x0F, 0x06, 0x06, 0x06, 0x06, 0x06, 0xC6, 0xC6, 0xE6, 0xE6, 0xFE, 0x7E, 0x3E, 0x3C]),
     (0x4B, [0xC1, 0xC3, 0xC7, 0xCF, 0xFE, 0xFC, 0xF8, 0xF0, 0xE0, 0xF0, 0xFC, 0xFE, 0xDF, 0xCF, 0xC7, 0xC3]),
     (0x4C, [0xC0, 0xC0, 0xC0, 0xC0, 0xC0, 0xC0, 0xC0, 0xC0, 0xC0, 0xC0, 0xC0, 0xC0, 0xC0, 0xC0, 0xFF, 0xFF]),
     (0x4D, [0xC3, 0xE7, 0xFF, 0xFF, 0xFF, 0xDB, 0xDB, 0xDB, 0xDB, 0xDB, 0xC3, 0xC3, 0xC3, 0xC3, 0xC3, 0xC3]),
     (0x4E, [0xC3, 0xC3, 0xF3, 0xF3, 0xFB, 0xDB, 0xDB, 0xDB, 0xCF, 0xCF, 0xCF, 0xC7, 0xC7, 0xC7, 0xC3, 0xC3]),
     (0x4F, [0x3C, 0x7E, 0xE7, 0xE7, 0xC3, 0xC3, 0xC3, 0xC3, 0xC3, 0xC3, 0xC3, 0xC3, 0xE7, 0xE7, 0x7E, 0x3C]),
     (0x50, [0xF8, 0xFC, 0xCE, 0xC7, 0xC3, 0xC3, 0xC7, 0xCE, 0xFC, 0xF8, 0xC0, 0xC0, 0xC0, 0xC0, 0xC0, 0xC0]),
     (0x51, [0x3C, 0x7E, 0xE7, 0xC3, 0xC3, 0xC3, 0xC3, 0xC3, 0xFF, 0xFF, 0xE7, 0x7E, 0x3E, 0x07, 0x07, 0x03]),
     (0x52, [0xFC, 0xFE, 0xC6, 0xC3, 0xC3, 0xC3, 0xC7, 0xFF, 0xFC, 0xF0, 0xF8, 0xDC, 0xCE, 0xC7, 0xC7, 0xC3]),
     (0x53, [0x38, 0x7C, 0xEE, 0xC7, 0xC3, 0xE3, 0xF0, 0x7C, 0x3E, 0x0F, 0x07, 0xC7, 0xC7, 0xEE, 0xFC, 0x38]),
     (0x54, [0xFF, 0xFF, 0x18, 0x18, 0x18, 0x18, 0x18, 0x18, 0x18, 0x18, 0x18, 0x18, 0x18, 0x18, 0x18, 0x18]),
     (0x55, [0xC3, 0xC3, 0xC3, 0xC3, 0xC3, 0xC3, 0xC3, 0xC3, 0xC3, 0xC3, 0xC3, 0xC3, 0xE7, 0xFF, 0x7E, 0x3C]),
     (0x56, [0xC3, 0xC3, 0xC3, 0xC3, 0xC3, 0xC3, 0xC3, 0xC3, 0xE7, 0xE7, 0xE7, 0x66, 0x7E, 0x7E, 0x3C, 0x3C]),
     (0x57, [0xC3, 0xC3, 0xC3, 0xC3, 0xDB, 0xDB, 0xDB, 0xDB, 0xDB, 0xDB, 0xDB, 0xDB, 0xDB, 0x7E, 0x7E, 0x3E]),
     (0x58, [0xC3, 0xC3, 0xE7, 0x7E, 0x7E, 0x3C, 0x3C, 0x18, 0x18, 0x18, 0x3C, 0x3E, 0x7E, 0xE7, 0xC3, 0xC3]),
     (0x59, [0xC3, 0xC3, 0xE7, 0xE7, 0x3C, 0x3C, 0x18, 0x18, 0x18, 0x18, 0x18, 0x18, 0x18, 0x18, 0x18, 0x18]),
     (0x5A, [0xFF, 0xFF, 0x03, 0x03, 0x03, 0x07, 0x0F, 0x1C, 0x3C, 0x78, 0xF0, 0xE0, 0xC0, 0xC0, 0xFF, 0xFF]),
     (0x5B, [0xFF, 0xFF, 0xC0, 0xC0, 0xC0, 0xC0, 0xC0, 0xC0, 0xC0, 0xC0, 0xC0, 0xC0, 0xC0, 0xC0, 0xFF, 0xFF]),
     (0x5C, [0xC0, 0xE0, 0xE0, 0xF0, 0xF0, 0xF8, 0xFC, 0x7C, 0x3E, 0x3F, 0x1F, 0x0F, 0x07, 0x07, 0x03, 0x03]),
     (0x5D, [0xFF, 0xFF, 0x03, 0x03, 0x03, 0x03, 0x03, 0x03, 0x03, 0x03, 0x03, 0x03, 0x03, 0x03, 0xFF, 0xFF]),
     (0x5E, [0x18, 0x7E, 0x7E, 0xE7, 0xC3, 0x00, 0x00, 0x00, 0x00, 0x00, 0x00, 0x00, 0x00, 0x00, 0x00, 0x00]),
     (0x5F, [0x00, 0x00, 0x00, 0x00, 0x00, 0x00, 0x00, 0x00, 0x00, 0x00, 0x00, 0x00, 0x00, 0x00, 0xFF, 0xFF]),
     (0x60, [0x38, 0x3C, 0x1E, 0x0E, 0x00, 0x00, 0x00, 0x00, 0x00, 0x00, 0x00, 0x00, 0x00, 0x00, 0x00, 0x00]),
     (0x61, [0x00, 0x00, 0x00, 0x00, 0x00, 0xF0, 0xFC, 0x1E, 0x07, 0x3F, 0x7F, 0xE7, 0xC3, 0xE7, 0xFF, 0x7B]),
     (0x62, [0xC0, 0xC0, 0xC0, 0xC0, 0xC0, 0xC0, 0xC0, 0xF8, 0xFE, 0xCF, 0xC3, 0xC3, 0xC3, 0xCF, 0xFE, 0xF8]),
     (0x63, [0x00, 0x00, 0x00, 0x00, 0x00, 0x00, 0x00, 0x3C, 0x7E, 0xE7, 0xC3, 0xC0, 0xC3, 0xE7, 0x7F, 0x3C]),
     (0x64, [0x03, 0x03, 0x03, 0x03, 0x03, 0x03, 0x03, 0x03, 0x3F, 0xFF, 0xE7, 0xC3, 0xC3, 0xE7, 0xFF, 0x7E]),
     (0x65, [0x00, 0x00, 0x00, 0x00, 0x00, 0x00, 0x00, 0x3C, 0x7E, 0xE7, 0xC3, 0xFF, 0xFE, 0xC0, 0xFE, 0x7E]),
     (0x66, [0x1C, 0x3E, 0x3E, 0x36, 0x36, 0x30, 0x30, 0xFE, 0xFE, 0x30, 0x30, 0x30, 0x30, 0x30, 0x30, 0x30]),
     (0x67, [0x00, 0x00, 0x07, 0x3F, 0x7E, 0xE6, 0xC6, 0xEE, 0x7E, 0x7C, 0x7F, 0xE3, 0xC3, 0xE3, 0xFF, 0x7E]),
     (0x68, [0xC0, 0xC0, 0xC0, 0xC0, 0xC0, 0xCE, 0xDF, 0xFF, 0xF3, 0xE3, 0xE3, 0xC3, 0xC3, 0xC3, 0xC3, 0xC3]),
     (0x69, [0x00, 0x18, 0x3C, 0x3C, 0x18, 0x00, 0x00, 0x18, 0x18, 0x18, 0x18, 0x18, 0x18, 0x18, 0x18, 0x18]),
     (0x6A, [0x00, 0x0C, 0x1E, 0x1E, 0x0C, 0x00, 0x00, 0x0C, 0x0C, 0x0C, 0x0C, 0xCC, 0xCC, 0xFC, 0xFC, 0x78]),
     (0x6B, [0xC0, 0xC0, 0xC0, 0xC0, 0xC1, 0xC3, 0xC7, 0xCE, 0xDC, 0xF8, 0xF0, 0xF8, 0xDC, 0xCC, 0xCF, 0xC7]),
     (0x6C, [0x18, 0x18, 0x18, 0x18, 0x18, 0x18, 0x18, 0x18, 0x18, 0x18, 0x18, 0x18, 0x18, 0x18, 0x1C, 0x0E]),
     (0x6D, [0x00, 0x00, 0x00, 0x00, 0x00, 0x00, 0x00, 0x00, 0x00, 0xC0, 0xFF, 0xFF, 0xDB, 0xDB, 0xDB, 0xDB]),
     (0x6E, [0x00, 0x00, 0x00, 0x00, 0x00, 0x00, 0x00, 0x00, 0x00, 0xDC, 0xFF, 0xFF, 0xE7, 0xC3, 0xC3, 0xC3]),
     (0x6F, [0x00, 0x00, 0x00, 0x00, 0x00, 0x00, 0x00, 0x00, 0x00, 0x3C, 0x7E, 0xE7, 0xC3, 0xE7, 0x7E, 0x3C]),
     (0x70, [0x00, 0x00, 0x00, 0x00, 0x00, 0x00, 0x00, 0xDC, 0xFE, 0xF7, 0xE7, 0xFE, 0xFC, 0xC0, 0xC0, 0xC0]),
     (0x71, [0x00, 0x00, 0x00, 0x00, 0x00, 0x00, 0x00, 0x7B, 0xFF, 0xCF, 0xC7, 0xFF, 0x7F, 0x03, 0x03, 0x03]),
     (0x72, [0x00, 0x00, 0x00, 0x00, 0x00, 0x00, 0x00, 0xDE, 0xFF, 0xF3, 0xE3, 0xC0, 0xC0, 0xC0, 0xC0, 0xC0]),
     (0x73, [0x00, 0x00, 0x00, 0x00, 0x00, 0x00, 0x00, 0x3E, 0xFF, 0xF3, 0xE0, 0xFE, 0x3F, 0xC3, 0xFF, 0x7E]),
     (0x74, [0x00, 0x00, 0x00, 0x00, 0x00, 0x00, 0x00, 0x30, 0x30, 0xFF, 0xFF, 0x30, 0x30, 0x38, 0x3F, 0x1F]),
     (0x75, [0x00, 0x00, 0x00, 0x00, 0x00, 0x00, 0x00, 0x00, 0xC3, 0xC3, 0xC3, 0xC3, 0xC3, 0xEF, 0x7F, 0x7B]),
     (0x76, [0x00, 0x00, 0x00, 0x00, 0x00, 0x00, 0x00, 0x00, 0xC3, 0xC3, 0xE7, 0x66, 0x66, 0x3C, 0x3C, 0x18]),
     (0x77, [0x00, 0x00, 0x00, 0x00, 0x00, 0x00, 0x00, 0x00, 0x00, 0xDB, 0xDB, 0xDB, 0xDB, 0xFF, 0x7E, 0x3C]),
     (0x78, [0x00, 0x00, 0x00, 0x00, 0x00, 0x00, 0x00, 0x00, 0x00, 0xC3, 0xEF, 0x7E, 0x38, 0x7C, 0xEF, 0xC3]),
     (0x79, [0x00, 0x00, 0x00, 0x00, 0x00, 0x00, 0x00, 0xC3, 0xE3, 0x73, 0x3F, 0x1E, 0x1C, 0x38, 0xF0, 0xE0]),
     (0x7A, [0x00, 0x00, 0x00, 0x00, 0x00, 0x00, 0x00, 0xFF, 0xFF, 0x07, 0x0E, 0x1C, 0x38, 0x70, 0xFF, 0xFF]),
     (0x7B, [0x1C, 0x1C, 0x38, 0x70, 0x70, 0x60, 0x60, 0xE0, 0xE0, 0x60, 0x60, 0x70, 0x70, 0x38, 0x1C, 0x1C]),
     (0x7C, [0x18, 0x18, 0x18, 0x18, 0x18, 0x18, 0x18, 0x18, 0x18, 0x18, 0x18, 0x18, 0x18, 0x18, 0x18, 0x18]),
     (0x7D, [0x30, 0x38, 0x1C, 0x1C, 0x0E, 0x06, 0x06, 0x07, 0x07, 0x06, 0x06, 0x0E, 0x1C, 0x1C, 0x38, 0x30]),
     (0x7E, [0x00, 0x00, 0x00, 0x00, 0x00, 0x00, 0x70, 0xFB, 0xDB, 0xDF, 0x0E, 0x00, 0x00, 0x00, 0x00, 0x00])]"

definition gConsoleFont :: "u8 \<Rightarrow> u8 list" where
  "gConsoleFont c = (case map_of font_rows c of Some r \<Rightarrow> r | None \<Rightarrow> replicate 16 0)"

lemma font_rows_shape: "list_all (\<lambda>(c, r). 0x21 \<le> c \<and> c \<le> 0x7E \<and> length r = 16 \<and> list_ex (\<lambda>b. b \<noteq> 0) r) font_rows"
  unfolding font_rows_def by simp

lemma length_gConsoleFont [simp]: "length (gConsoleFont c) = 16"
proof (cases "map_of font_rows c")
  case (Some r)
  then have "(c, r) \<in> set font_rows" by (rule map_of_SomeD)
  then have "length r = 16" using font_rows_shape by (auto simp: list_all_iff)
  with Some show ?thesis by (simp add: gConsoleFont_def)
qed (simp add: gConsoleFont_def)

end
