(* ===== verification/LibUtil.thy ===== *)
theory LibUtil
  imports HailPrelude
begin

text \<open>
  \<open>Library/Memory/MemoryUtility.cpp\<close> (\<open>FillMemory\<close>, \<open>CopyMemory\<close>, \<open>CompareMemory\<close>) and
  \<open>Library/String/StringUtility.hpp\<close> (\<open>StringLength\<close>, \<open>ULongToHexString\<close>).

  The memory routines are polymorphic in the address type: the same definition is used at type
  \<open>memory\<close> (64-bit addresses) and at type \<open>byte_array\<close> (offsets into one object). Each counted loop
  is a fold over its index range in the order of the source; \<open>CopyMemory\<close> reads and writes one
  memory, so overlapping operands behave as in the code, while \<open>CompareMemory\<close> only reads and takes
  the two pointers as views of memory. \<open>StringLength\<close> runs until it meets a NUL
  byte, so it is a partial function: \<open>None\<close> is a loop that never ends.
\<close>

unbundle bit_operations_syntax

subsection \<open>The routines\<close>

definition FillMemory :: "('a::semiring_1 \<Rightarrow> u8) \<Rightarrow> 'a \<Rightarrow> u64 \<Rightarrow> u8 \<Rightarrow> ('a \<Rightarrow> u8)" where
  "FillMemory m ptr sz v = fold (\<lambda>i p. p(ptr + of_nat i := v)) [0..<unat sz] m"

definition CopyMemory :: "('a::semiring_1 \<Rightarrow> u8) \<Rightarrow> 'a \<Rightarrow> 'a \<Rightarrow> u64 \<Rightarrow> ('a \<Rightarrow> u8)" where
  "CopyMemory m src dest sz =
     fold (\<lambda>i p. p(dest + of_nat i := p (src + of_nat i))) [0..<unat sz] m"

function CompareMemory_loop :: "byte_array \<Rightarrow> byte_array \<Rightarrow> nat \<Rightarrow> nat \<Rightarrow> bool" where
  "CompareMemory_loop p1 p2 sz i =
     (if i < sz
      then if p1 i \<noteq> p2 i then False else CompareMemory_loop p1 p2 sz (Suc i)
      else True)"
  by pat_completeness auto
termination
  by (relation "measure (\<lambda>(p1, p2, sz, i). sz - i)") auto

definition CompareMemory :: "byte_array \<Rightarrow> byte_array \<Rightarrow> u64 \<Rightarrow> bool" where
  "CompareMemory ptr1 ptr2 sz = CompareMemory_loop ptr1 ptr2 (unat sz) 0"

partial_function (option) StringLength_loop :: "byte_array \<Rightarrow> nat \<Rightarrow> nat option" where
  "StringLength_loop str i = (if str i = 0 then Some i else StringLength_loop str (Suc i))"

definition StringLength :: "byte_array \<Rightarrow> nat option" where
  "StringLength str = StringLength_loop str 0"

definition hex_digits :: string where
  "hex_digits = ''0123456789ABCDEF''"

text \<open>The contents of the static buffer after the call, its terminating NUL included.\<close>

definition ULongToHexString :: "u64 \<Rightarrow> string" where
  "ULongToHexString n =
     [CHR ''0'', CHR ''x'']
     @ map (\<lambda>i. let shift = (15 - i) * 4; nib = unat (drop_bit shift n AND 0xF)
                in hex_digits ! nib) [0..<16]
     @ [CHR 0x00]"

text \<open>Reading such a string back, for the round trip.\<close>

definition hex_value :: "char \<Rightarrow> nat" where
  "hex_value c = (if c \<in> set (take 10 hex_digits) then of_char c - 48 else of_char c - 55)"

definition parse_hex :: "string \<Rightarrow> u64" where
  "parse_hex s = fold (\<lambda>c acc. push_bit 4 acc OR of_nat (hex_value c)) s 0"

subsection \<open>Filling\<close>

lemma fold_upd_eq:
  fixes f :: "nat \<Rightarrow> 'a" and m :: "'a \<Rightarrow> 'v"
  shows "fold (\<lambda>i p. p(f i := v)) [0..<n] m = (\<lambda>x. if \<exists>i<n. x = f i then v else m x)"
  by (induction n) (auto simp: fun_eq_iff less_Suc_eq)

lemma FillMemory_eq:
  "FillMemory m ptr sz v = (\<lambda>x. if \<exists>i<unat sz. x = ptr + of_nat i then v else m x)"
  unfolding FillMemory_def by (rule fold_upd_eq)

lemma FillMemory_array [simp]:
  "FillMemory (d :: byte_array) 0 sz v = (\<lambda>i. if i < unat sz then v else d i)"
  by (auto simp: FillMemory_eq fun_eq_iff)

lemma FillMemory_memory:
  "FillMemory (m :: memory) ptr sz v = (\<lambda>x. if unat (x - ptr) < unat sz then v else m x)"
proof
  fix x
  have "(\<exists>i<unat sz. x = ptr + of_nat i) \<longleftrightarrow> unat (x - ptr) < unat sz"
  proof
    assume "\<exists>i<unat sz. x = ptr + of_nat i"
    then obtain i where i: "i < unat sz" "x = ptr + of_nat i" by blast
    then have "x - ptr = of_nat i" by simp
    moreover have "unat (of_nat i :: u64) = i"
      using i unat_lt2p [of sz] by (intro unat_of_nat_nowrap) linarith
    ultimately show "unat (x - ptr) < unat sz" using i by simp
  next
    assume "unat (x - ptr) < unat sz"
    moreover have "x = ptr + of_nat (unat (x - ptr))" by simp
    ultimately show "\<exists>i<unat sz. x = ptr + of_nat i" by blast
  qed
  then show "FillMemory m ptr sz v x = (if unat (x - ptr) < unat sz then v else m x)"
    by (simp add: FillMemory_eq)
qed

subsection \<open>Copying\<close>

text \<open>
  The forward copy is correct for disjoint operands and whenever the destination does not start
  inside the source: no source byte is overwritten before it is read.
\<close>

lemma CopyMemory_loop_eq:
  fixes m :: byte_array
  assumes "dest \<le> src \<or> src + n \<le> dest"
  shows "fold (\<lambda>i p. p(dest + i := p (src + i))) [0..<n] m =
    (\<lambda>x. if dest \<le> x \<and> x < dest + n then m (src + (x - dest)) else m x)"
  using assms
proof (induction n)
  case (Suc n)
  from Suc.prems have "dest \<le> src \<or> src + n \<le> dest" by auto
  note IH = Suc.IH [OF this]
  show ?case
  proof
    fix x
    show "fold (\<lambda>i p. p(dest + i := p (src + i))) [0..<Suc n] m x =
        (if dest \<le> x \<and> x < dest + Suc n then m (src + (x - dest)) else m x)"
      using Suc.prems by (cases "x = dest + n") (auto simp: IH)
  qed
qed (auto simp: fun_eq_iff)

lemma CopyMemory_array:
  fixes m :: byte_array
  assumes "dest \<le> src \<or> src + unat sz \<le> dest"
  shows "CopyMemory m src dest sz =
    (\<lambda>x. if dest \<le> x \<and> x < dest + unat sz then m (src + (x - dest)) else m x)"
  using CopyMemory_loop_eq [OF assms] by (simp add: CopyMemory_def)

subsection \<open>Comparing\<close>

declare CompareMemory_loop.simps [simp del]

lemma CompareMemory_loop_iff:
  "CompareMemory_loop p1 p2 sz i \<longleftrightarrow> (\<forall>k. i \<le> k \<and> k < sz \<longrightarrow> p1 k = p2 k)"
proof (induction p1 p2 sz i rule: CompareMemory_loop.induct)
  case (1 p1 p2 sz i)
  show ?case
  proof (cases "i < sz \<and> p1 i = p2 i")
    case True
    with 1 show ?thesis
      by (subst CompareMemory_loop.simps) (auto simp: Suc_le_eq nat_less_le)
  next
    case False
    then show ?thesis by (subst CompareMemory_loop.simps) auto
  qed
qed

lemma CompareMemory_iff: "CompareMemory p1 p2 sz \<longleftrightarrow> (\<forall>k<unat sz. p1 k = p2 k)"
  by (simp add: CompareMemory_def CompareMemory_loop_iff)

subsection \<open>String length\<close>

lemma StringLength_loop_Some:
  assumes "str n = 0" and "\<forall>k. i \<le> k \<and> k < n \<longrightarrow> str k \<noteq> 0" and "i \<le> n"
  shows "StringLength_loop str i = Some n"
  using assms
proof (induction "n - i" arbitrary: i)
  case 0
  then show ?case by (simp add: StringLength_loop.simps)
next
  case (Suc d)
  then have "i < n" and "str i \<noteq> 0" by auto
  with Suc have "StringLength_loop str (Suc i) = Some n" by auto
  with \<open>str i \<noteq> 0\<close> show ?case by (simp add: StringLength_loop.simps [of str i])
qed

lemma StringLength_loop_zero: "StringLength_loop str i = Some r \<Longrightarrow> str r = 0"
  by (erule StringLength_loop.raw_induct [rotated]) (auto split: if_splits)

lemma StringLength_terminated:
  assumes "str n = 0" and "\<forall>k<n. str k \<noteq> 0"
  shows "StringLength str = Some n"
  unfolding StringLength_def using assms by (intro StringLength_loop_Some) auto

subsection \<open>Hexadecimal\<close>

lemma hex_value_digit: "n < 16 \<Longrightarrow> hex_value (hex_digits ! n) = n"
proof -
  assume "n < 16"
  then have "n \<in> {0, 1, 2, 3, 4, 5, 6, 7, 8, 9, 10, 11, 12, 13, 14, 15}"
    by simp presburger
  then show ?thesis by (elim insertE) (simp_all add: hex_value_def hex_digits_def numeral_eq_Suc)
qed

lemma nibble_less: "unat (w AND 0xF :: u64) < 16"
proof -
  have "w AND 0xF \<le> (0xF :: u64)" by (rule word_and_le1)
  then show ?thesis by (simp add: word_le_nat_alt)
qed

text \<open>Reading the first \<open>k\<close> digits gives the top \<open>4 * k\<close> bits of the number.\<close>

definition hex_digit_of :: "u64 \<Rightarrow> nat \<Rightarrow> char" where
  "hex_digit_of n i = hex_digits ! unat (drop_bit ((15 - i) * 4) n AND 0xF)"

lemma hex_step:
  assumes "k < 16"
  shows "push_bit 4 (drop_bit (64 - 4 * k) n) OR (drop_bit ((15 - k) * 4) n AND 0xF)
       = (drop_bit (64 - 4 * Suc k) n :: u64)"
proof (rule bit_word_eqI)
  fix i assume i: "i < LENGTH(64)"
  have m: "(0xF :: u64) = mask 4" by (simp add: mask_eq_exp_minus_1)
  obtain j where j: "k + j = 15" using assms le_Suc_ex [of k 15] by auto
  then have e: "64 - 4 * k = 4 * j + 4" "(15 - k) * 4 = 4 * j" "64 - 4 * Suc k = 4 * j" by auto
  have "4 * j + 4 + (i - 4) = 4 * j + i" if "4 \<le> i" using that by simp
  then show "bit (push_bit 4 (drop_bit (64 - 4 * k) n) OR (drop_bit ((15 - k) * 4) n AND 0xF)) i
      = bit (drop_bit (64 - 4 * Suc k) n) i"
    using i unfolding m e by (cases "4 \<le> i") (simp_all add: bit_simps)
qed

lemma parse_hex_digits:
  "k \<le> 16 \<Longrightarrow> parse_hex (map (hex_digit_of n) [0..<k]) = drop_bit (64 - 4 * k) n"
proof (induction k)
  case 0
  have "drop_bit 64 n = 0" by (rule bit_word_eqI) (auto simp: bit_simps)
  then show ?case by (simp add: parse_hex_def)
next
  case (Suc k)
  have d: "of_nat (hex_value (hex_digit_of n k)) = drop_bit ((15 - k) * 4) n AND 0xF"
    by (simp add: hex_digit_of_def hex_value_digit nibble_less)
  have "parse_hex (map (hex_digit_of n) [0..<Suc k])
      = push_bit 4 (parse_hex (map (hex_digit_of n) [0..<k])) OR of_nat (hex_value (hex_digit_of n k))"
    by (simp add: parse_hex_def)
  then show ?case using Suc hex_step [of k n] d by simp
qed

lemma ULongToHexString_digits:
  "ULongToHexString n = [CHR ''0'', CHR ''x''] @ map (hex_digit_of n) [0..<16] @ [CHR 0x00]"
  by (simp add: ULongToHexString_def hex_digit_of_def [abs_def] Let_def)

lemma length_ULongToHexString: "length (ULongToHexString n) = 19"
  by (simp add: ULongToHexString_def)

subsection \<open>Properties\<close>

text \<open>
  \<open>ULongToHexString\<close> loses nothing: it writes \<open>0x\<close>, sixteen digits and a NUL, and reading the sixteen
  digits as a hexadecimal number gives the argument back.
\<close>

lemma ULongToHexString_roundtrip:
  "length (ULongToHexString n) = 19 \<and> take 2 (ULongToHexString n) = ''0x'' \<and>
   parse_hex (take 16 (drop 2 (ULongToHexString n))) = n \<and> last (ULongToHexString n) = CHR 0x00"
  using parse_hex_digits [of 16 n] by (simp add: ULongToHexString_digits)

text \<open>
  \<open>CopyMemory\<close> between two places of one object whose destination does not start inside the
  source: afterwards the destination is equal to what the source held before (so
  \<open>CompareMemory\<close> says so when the source is untouched) and every other byte is as before.
\<close>

lemma CopyMemory_correct:
  fixes m :: byte_array
  assumes "dest \<le> src \<or> src + unat sz \<le> dest"
  shows "CompareMemory (\<lambda>i. CopyMemory m src dest sz (dest + i)) (\<lambda>i. m (src + i)) sz \<and>
    (\<forall>x. x \<notin> {dest..<dest + unat sz} \<longrightarrow> CopyMemory m src dest sz x = m x)"
  using assms by (auto simp: CompareMemory_iff CopyMemory_array)

lemma CopyMemory_correct_example:
  "CompareMemory (\<lambda>i. CopyMemory (\<lambda>x. of_nat x) 3 1 4 (1 + i)) (\<lambda>i. of_nat (3 + i)) 4"
  using CopyMemory_correct [of 1 3 4 "\<lambda>x. of_nat x"] by simp

text \<open>
  \<open>StringLength\<close> returns exactly when the string has a NUL byte, and then the index of the first one.
\<close>

lemma StringLength_correct:
  "StringLength str = (if \<exists>n. str n = 0 then Some (LEAST n. str n = 0) else None)"
proof (cases "\<exists>n. str n = 0")
  case True
  then have "str (LEAST n. str n = 0) = 0" by (rule LeastI_ex)
  then have "StringLength str = Some (LEAST n. str n = 0)"
    by (rule StringLength_terminated) (auto dest: not_less_Least)
  with True show ?thesis by simp
next
  case False
  then show ?thesis
    using StringLength_loop_zero [of str 0] by (cases "StringLength str") (auto simp: StringLength_def)
qed

end
