(* ===== verification/FrameConsole.thy ===== *)
theory FrameConsole
  imports ConsoleFont LibUtil ObjectModel
begin

text \<open>
  \<open>Kernel/Core/KernelConsole/KernelConsole.cpp\<close>: the console that draws into the frame buffer. The console is its
  record and the memory it writes to; coordinates are 32-bit and wrap as in the code. A string is the list of
  its bytes before the terminating NUL.

  \<open>screen_ok\<close> says that the resolution holds at least one character and fits the frame buffer. Under it the
  cursor stays on the character grid, nothing outside the frame buffer is written, and a character changes
  exactly the pixels of its cell.
\<close>

unbundle bit_operations_syntax

subsection \<open>Data\<close>

datatype PixelFormat = BGR | RGB | INVALID

record GraphicInfo =
  FrameBufferBase :: u64
  FrameBufferSize :: u64
  PixelsPerScanLine :: u32
  HorizontalResolution :: u32
  VerticalResolution :: u32
  DisplayPixelFormat :: PixelFormat

record FrameBufferColor =
  Color1 :: u8
  Color2 :: u8
  Color3 :: u8
  Color4 :: u8

record Point =
  X :: u32
  Y :: u32

record KernelConsole =
  m_Info :: GraphicInfo
  m_CursorPosition :: Point

definition COLOR_BACKGROUND :: FrameBufferColor where
  "COLOR_BACKGROUND = \<lparr>Color1 = 0, Color2 = 0, Color3 = 0, Color4 = 0\<rparr>"

definition COLOR_FOREGROUND :: FrameBufferColor where
  "COLOR_FOREGROUND = \<lparr>Color1 = 255, Color2 = 255, Color3 = 255, Color4 = 0\<rparr>"

definition FONT_HEIGHT :: u32 where "FONT_HEIGHT = 16"
definition FONT_WIDTH :: u32 where "FONT_WIDTH = 8"

subsection \<open>Operations\<close>

definition IsVisibleChar :: "u8 \<Rightarrow> bool" where
  "IsVisibleChar ch \<longleftrightarrow> sint ch > 0x19 \<and> sint ch < 0x7f"

definition clear_screen :: "GraphicInfo \<Rightarrow> memory \<Rightarrow> memory" where
  "clear_screen g m = FillMemory m (FrameBufferBase g) (FrameBufferSize g) 0x00"

definition KernelConsole_new :: "GraphicInfo \<Rightarrow> memory \<Rightarrow> KernelConsole \<times> memory" where
  "KernelConsole_new info m = (\<lparr>m_Info = info, m_CursorPosition = \<lparr>X = 0, Y = 0\<rparr>\<rparr>, clear_screen info m)"

definition IsNewLineRequired :: "KernelConsole \<Rightarrow> bool" where
  "IsNewLineRequired c = (if X (m_CursorPosition c) > HorizontalResolution (m_Info c) - FONT_WIDTH then True else False)"

definition IsEndOfScreen :: "KernelConsole \<Rightarrow> bool" where
  "IsEndOfScreen c = (if Y (m_CursorPosition c) > VerticalResolution (m_Info c) - FONT_HEIGHT then True else False)"

definition CalcPixelOffset :: "GraphicInfo \<Rightarrow> Point \<Rightarrow> u64" where
  "CalcPixelOffset g point = ucast (Y point * PixelsPerScanLine g + X point) * 4"

definition color_bytes :: "FrameBufferColor \<Rightarrow> u8 list" where
  "color_bytes col = [Color1 col, Color2 col, Color3 col, Color4 col]"

definition DrawPixel :: "GraphicInfo \<Rightarrow> Point \<Rightarrow> FrameBufferColor \<Rightarrow> memory \<Rightarrow> memory" where
  "DrawPixel g location color m =
     (if X location \<ge> HorizontalResolution g \<or> Y location \<ge> VerticalResolution g then m
      else let offset = CalcPixelOffset g location in write_bytes m (FrameBufferBase g + offset) (color_bytes color))"

definition Reset :: "KernelConsole \<Rightarrow> memory \<Rightarrow> KernelConsole \<times> memory" where
  "Reset c m = (c\<lparr>m_CursorPosition := \<lparr>X = 0, Y = 0\<rparr>\<rparr>, clear_screen (m_Info c) m)"

text \<open>The two steps that make room for a character: a new line, and a new screen.\<close>

definition make_room :: "KernelConsole \<Rightarrow> memory \<Rightarrow> KernelConsole \<times> memory" where
  "make_room c m =
     (let c1 = (if IsNewLineRequired c
                then c\<lparr>m_CursorPosition := \<lparr>X = 0, Y = Y (m_CursorPosition c) + FONT_HEIGHT\<rparr>\<rparr> else c)
      in if IsEndOfScreen c1 then Reset c1 m else (c1, m))"

definition draw_glyph :: "GraphicInfo \<Rightarrow> Point \<Rightarrow> u8 list \<Rightarrow> memory \<Rightarrow> memory" where
  "draw_glyph g cur font m =
     fold (\<lambda>i m.
        let line = font ! i
        in fold (\<lambda>k m.
             if (ucast line :: u32) AND push_bit (7 - k) 1 \<noteq> 0
             then DrawPixel g \<lparr>X = X cur + of_nat k, Y = Y cur + of_nat i\<rparr> COLOR_FOREGROUND m
             else DrawPixel g \<lparr>X = X cur + of_nat k, Y = Y cur + of_nat i\<rparr> COLOR_BACKGROUND m) [0..<8] m) [0..<16] m"

definition advance :: "KernelConsole \<Rightarrow> KernelConsole" where
  "advance c = c\<lparr>m_CursorPosition := (m_CursorPosition c)\<lparr>X := X (m_CursorPosition c) + FONT_WIDTH\<rparr>\<rparr>"

definition PutChar :: "u8 \<Rightarrow> KernelConsole \<Rightarrow> memory \<Rightarrow> KernelConsole \<times> memory" where
  "PutChar ch c m =
     (if IsVisibleChar ch
      then
        let font = gConsoleFont ch;
            (c1, m1) = make_room c m
        in if ch = 0x20 then (advance c1, m1)
           else (advance c1, draw_glyph (m_Info c1) (m_CursorPosition c1) font m1)
      else if ch = 0x0A
      then
        let c1 = c\<lparr>m_CursorPosition := \<lparr>X = 0, Y = Y (m_CursorPosition c) + FONT_HEIGHT\<rparr>\<rparr>
        in if IsEndOfScreen c1 then Reset c1 m else (c1, m)
      else (c, m))"

definition PutString :: "u8 list \<Rightarrow> KernelConsole \<Rightarrow> memory \<Rightarrow> KernelConsole \<times> memory" where
  "PutString str c m = fold (\<lambda>ch (c, m). PutChar ch c m) str (c, m)"

definition Shutdown :: "KernelConsole \<Rightarrow> memory \<Rightarrow> KernelConsole \<times> memory" where
  "Shutdown c m = (c, m)"

definition Flush :: "KernelConsole \<Rightarrow> memory \<Rightarrow> KernelConsole \<times> memory" where
  "Flush c m = PutChar 0x0A c m"

definition KernelConsole_GetDeviceType :: "KernelConsole \<Rightarrow> DeviceType" where
  "KernelConsole_GetDeviceType c = CONSOLE"

subsection \<open>The screen and the cursor\<close>

definition screen_ok :: "GraphicInfo \<Rightarrow> bool" where
  "screen_ok g \<longleftrightarrow>
     8 \<le> unat (HorizontalResolution g) \<and> 16 \<le> unat (VerticalResolution g) \<and>
     unat (HorizontalResolution g) + 8 < 2 ^ 32 \<and> unat (VerticalResolution g) + 16 < 2 ^ 32 \<and>
     unat (HorizontalResolution g) \<le> unat (PixelsPerScanLine g) \<and>
     unat (PixelsPerScanLine g) * unat (VerticalResolution g) < 2 ^ 32 \<and>
     4 * (unat (PixelsPerScanLine g) * unat (VerticalResolution g)) \<le> unat (FrameBufferSize g) \<and>
     unat (FrameBufferBase g) + unat (FrameBufferSize g) \<le> 2 ^ 64"

definition cursor_ok :: "KernelConsole \<Rightarrow> bool" where
  "cursor_ok c \<longleftrightarrow>
     unat (X (m_CursorPosition c)) mod 8 = 0 \<and> unat (X (m_CursorPosition c)) \<le> unat (HorizontalResolution (m_Info c)) \<and>
     unat (Y (m_CursorPosition c)) mod 16 = 0 \<and> unat (Y (m_CursorPosition c)) + 16 \<le> unat (VerticalResolution (m_Info c))"

definition in_frame :: "GraphicInfo \<Rightarrow> u64 \<Rightarrow> bool" where
  "in_frame g a \<longleftrightarrow> unat (FrameBufferBase g) \<le> unat a \<and> unat a < unat (FrameBufferBase g) + unat (FrameBufferSize g)"

definition only_frame :: "GraphicInfo \<Rightarrow> memory \<Rightarrow> memory \<Rightarrow> bool" where
  "only_frame g m m' \<longleftrightarrow> (\<forall>a. \<not> in_frame g a \<longrightarrow> m' a = m a)"

text \<open>The pixel at column \<open>x\<close> and row \<open>y\<close>, as its four bytes.\<close>

definition pixel_addr :: "GraphicInfo \<Rightarrow> nat \<Rightarrow> nat \<Rightarrow> nat" where
  "pixel_addr g x y = unat (FrameBufferBase g) + 4 * (y * unat (PixelsPerScanLine g) + x)"

definition pixel :: "GraphicInfo \<Rightarrow> memory \<Rightarrow> nat \<times> nat \<Rightarrow> u8 list" where
  "pixel g m p = read_bytes m (of_nat (pixel_addr g (fst p) (snd p))) 4"

definition on_screen :: "GraphicInfo \<Rightarrow> nat \<times> nat \<Rightarrow> bool" where
  "on_screen g p \<longleftrightarrow> fst p < unat (HorizontalResolution g) \<and> snd p < unat (VerticalResolution g)"

lemma only_frame_refl [simp]: "only_frame g m m"
  by (simp add: only_frame_def)

lemma only_frame_trans: "only_frame g m m1 \<Longrightarrow> only_frame g m1 m2 \<Longrightarrow> only_frame g m m2"
  by (simp add: only_frame_def)

lemma IsVisibleChar_iff: "IsVisibleChar ch \<longleftrightarrow> 0x1A \<le> unat ch \<and> unat ch \<le> 0x7E"
proof -
  have s: "sint ch = (uint ch + 128) mod 256 - 128"
    using int_word_sint [of "uint ch", where 'a = 8] by simp
  have l: "uint ch < 256" "0 \<le> uint ch" using uint_lt2p [of ch] by simp_all
  then consider "uint ch < 128" | "128 \<le> uint ch" by linarith
  then have v: "sint ch = (if uint ch < 128 then uint ch else uint ch - 256)"
  proof cases
    case 1
    then have "(uint ch + 128) mod 256 = uint ch + 128" using l by (intro mod_pos_pos_trivial) simp_all
    with 1 s show ?thesis by simp
  next
    case 2
    have "(uint ch + 128) mod 256 = (uint ch - 128 + 256 * 1) mod 256" by (simp add: add.commute)
    also have "\<dots> = (uint ch - 128) mod 256" by (rule mod_mult_self2)
    also have "\<dots> = uint ch - 128" using 2 l by (intro mod_pos_pos_trivial) simp_all
    finally show ?thesis using 2 s by simp
  qed
  obtain n where n: "uint ch = int n" "unat ch = n" by (metis uint_nat)
  show ?thesis using l v unfolding IsVisibleChar_def n by (auto split: if_splits)
qed

subsection \<open>Drawing\<close>

lemma index_less:
  assumes "on_screen g p" and "screen_ok g"
  shows "snd p * unat (PixelsPerScanLine g) + fst p < unat (PixelsPerScanLine g) * unat (VerticalResolution g)"
proof -
  have x: "fst p < unat (PixelsPerScanLine g)" and y: "Suc (snd p) \<le> unat (VerticalResolution g)"
    using assms by (auto simp: on_screen_def screen_ok_def)
  have "snd p * unat (PixelsPerScanLine g) + fst p < Suc (snd p) * unat (PixelsPerScanLine g)" using x by simp
  also have "\<dots> \<le> unat (VerticalResolution g) * unat (PixelsPerScanLine g)" using y by (rule mult_le_mono1)
  finally show ?thesis by (simp add: mult.commute)
qed

lemma pixel_addr_bound:
  assumes "on_screen g p" and "screen_ok g"
  shows "pixel_addr g (fst p) (snd p) + 4 \<le> unat (FrameBufferBase g) + unat (FrameBufferSize g)"
    and "pixel_addr g (fst p) (snd p) + 4 \<le> 2 ^ 64"
proof -
  show "pixel_addr g (fst p) (snd p) + 4 \<le> unat (FrameBufferBase g) + unat (FrameBufferSize g)"
    using index_less [OF assms] assms(2) by (auto simp: pixel_addr_def screen_ok_def)
  then show "pixel_addr g (fst p) (snd p) + 4 \<le> 2 ^ 64" using assms(2) by (simp add: screen_ok_def)
qed

lemma DrawPixel_eq:
  assumes "on_screen g (unat (X p), unat (Y p))" and "screen_ok g"
  shows "DrawPixel g p col m = write_bytes m (of_nat (pixel_addr g (unat (X p)) (unat (Y p)))) (color_bytes col)"
proof -
  let ?P = "PixelsPerScanLine g"
  have i: "unat (Y p) * unat ?P + unat (X p) < unat ?P * unat (VerticalResolution g)"
    using index_less [OF assms] by simp
  then have l: "unat (Y p) * unat ?P + unat (X p) < 2 ^ 32" using assms(2) by (simp add: screen_ok_def)
  have yp: "unat (Y p * ?P) = unat (Y p) * unat ?P" using l by (intro unat_mult_nowrap) simp
  have "unat (Y p * ?P + X p) = unat (Y p) * unat ?P + unat (X p)" using l yp by (subst unat_add_nowrap) simp_all
  then have "(ucast (Y p * ?P + X p) :: u64) = of_nat (unat (Y p) * unat ?P + unat (X p))"
    by (metis of_nat_unat)
  then show ?thesis
    using assms(1) by (simp add: DrawPixel_def on_screen_def CalcPixelOffset_def pixel_addr_def word_le_nat_alt Let_def algebra_simps)
qed

lemma pixel_apart:
  assumes "on_screen g p" and "on_screen g q" and "p \<noteq> q" and "screen_ok g"
  shows "ranges_apart (of_nat (pixel_addr g (fst p) (snd p))) 4 (of_nat (pixel_addr g (fst q) (snd q))) 4"
proof (rule ranges_apartI)
  let ?P = "unat (PixelsPerScanLine g)"
  have x: "fst p < ?P" "fst q < ?P" using assms by (auto simp: on_screen_def screen_ok_def)
  have "snd p * ?P + fst p \<noteq> snd q * ?P + fst q"
  proof
    assume e: "snd p * ?P + fst p = snd q * ?P + fst q"
    have "(snd p * ?P + fst p) mod ?P = fst p" "(snd q * ?P + fst q) mod ?P = fst q" using x by simp_all
    then have f: "fst p = fst q" using e by simp
    have "(snd p * ?P + fst p) div ?P = snd p" "(snd q * ?P + fst q) div ?P = snd q" using x by simp_all
    then have "snd p = snd q" using e by simp
    with f assms(3) show False by (simp add: prod_eq_iff)
  qed
  then have "snd p * ?P + fst p < snd q * ?P + fst q \<or> snd q * ?P + fst q < snd p * ?P + fst p" by (rule nat_neq_iff [THEN iffD1])
  then have n: "pixel_addr g (fst p) (snd p) + 4 \<le> pixel_addr g (fst q) (snd q) \<or>
      pixel_addr g (fst q) (snd q) + 4 \<le> pixel_addr g (fst p) (snd p)"
    unfolding pixel_addr_def by auto
  have b: "pixel_addr g (fst p) (snd p) + 4 \<le> 2 ^ 64" "pixel_addr g (fst q) (snd q) + 4 \<le> 2 ^ 64"
    using assms by (simp_all only: pixel_addr_bound(2))
  then have u: "unat (of_nat (pixel_addr g (fst p) (snd p)) :: u64) = pixel_addr g (fst p) (snd p)"
    "unat (of_nat (pixel_addr g (fst q) (snd q)) :: u64) = pixel_addr g (fst q) (snd q)"
    by (simp_all add: unat_of_nat_nowrap)
  show "unat (of_nat (pixel_addr g (fst p) (snd p)) :: u64) + 4 \<le> unat (of_nat (pixel_addr g (fst q) (snd q)) :: u64) \<or>
    unat (of_nat (pixel_addr g (fst q) (snd q)) :: u64) + 4 \<le> unat (of_nat (pixel_addr g (fst p) (snd p)) :: u64)"
    using n u by simp
  show "unat (of_nat (pixel_addr g (fst p) (snd p)) :: u64) + 4 \<le> 2 ^ 64" using b u by simp
  show "unat (of_nat (pixel_addr g (fst q) (snd q)) :: u64) + 4 \<le> 2 ^ 64" using b u by simp
qed

lemma length_color_bytes [simp]: "length (color_bytes col) = 4"
  by (simp add: color_bytes_def)

lemma pixel_DrawPixel:
  assumes "on_screen g q" and "screen_ok g"
  shows "pixel g (DrawPixel g p col m) q = (if q = (unat (X p), unat (Y p)) then color_bytes col else pixel g m q)"
proof (cases "on_screen g (unat (X p), unat (Y p))")
  case True
  note draw = DrawPixel_eq [OF True assms(2)]
  show ?thesis
  proof (cases "q = (unat (X p), unat (Y p))")
    case True
    then show ?thesis using read_write_bytes_same [of "color_bytes col" 4] by (simp add: pixel_def draw)
  next
    case False
    from pixel_apart [OF True assms(1) _ assms(2)] False show ?thesis
      by (simp add: pixel_def draw read_write_bytes_apart)
  qed
next
  case False
  then have "q \<noteq> (unat (X p), unat (Y p))" using assms(1) by blast
  then show ?thesis using False by (auto simp: DrawPixel_def on_screen_def word_le_nat_alt)
qed

lemma DrawPixel_only_frame:
  assumes "screen_ok g"
  shows "only_frame g m (DrawPixel g p col m)"
proof (cases "on_screen g (unat (X p), unat (Y p))")
  case True
  show ?thesis unfolding only_frame_def
  proof (intro allI impI)
    fix a assume out: "\<not> in_frame g a"
    let ?A = "pixel_addr g (unat (X p)) (unat (Y p))"
    have b: "?A + 4 \<le> unat (FrameBufferBase g) + unat (FrameBufferSize g)" "?A + 4 \<le> 2 ^ 64"
      using pixel_addr_bound [OF True assms] by simp_all
    have "a \<noteq> of_nat ?A + of_nat i" if "i < 4" for i
    proof
      assume "a = of_nat ?A + of_nat i"
      then have "a = of_nat (?A + i)" by simp
      moreover have "unat (of_nat (?A + i) :: u64) = ?A + i" using that b by (intro unat_of_nat_nowrap) simp
      ultimately have "unat a = ?A + i" by metis
      then show False using out that b by (simp add: in_frame_def pixel_addr_def)
    qed
    then show "DrawPixel g p col m a = m a" unfolding DrawPixel_eq [OF True assms] by (intro write_bytes_other) simp
  qed
next
  case False
  then show ?thesis by (auto simp: DrawPixel_def on_screen_def word_le_nat_alt)
qed

lemma clear_screen_only_frame:
  assumes "screen_ok g"
  shows "only_frame g m (clear_screen g m)"
proof -
  have "in_frame g a" if "unat (a - FrameBufferBase g) < unat (FrameBufferSize g)" for a
  proof -
    have "unat (FrameBufferBase g) + unat (a - FrameBufferBase g) < 2 ^ 64" using that assms by (simp add: screen_ok_def)
    then have "unat (FrameBufferBase g + (a - FrameBufferBase g)) = unat (FrameBufferBase g) + unat (a - FrameBufferBase g)"
      by (subst unat_add_nowrap) simp_all
    then show ?thesis using that by (simp add: in_frame_def)
  qed
  then show ?thesis by (auto simp: only_frame_def clear_screen_def FillMemory_memory)
qed

text \<open>A row of a glyph, and the glyph: the pixels of the cell take the bits of the font, most significant first.\<close>

definition dot :: "u8 \<Rightarrow> nat \<Rightarrow> FrameBufferColor" where
  "dot line k = (if bit line (7 - k) then COLOR_FOREGROUND else COLOR_BACKGROUND)"

definition draw_row :: "GraphicInfo \<Rightarrow> Point \<Rightarrow> nat \<Rightarrow> u8 \<Rightarrow> nat \<Rightarrow> memory \<Rightarrow> memory" where
  "draw_row g cur i line n m =
     fold (\<lambda>k m. DrawPixel g \<lparr>X = X cur + of_nat k, Y = Y cur + of_nat i\<rparr> (dot line k) m) [0..<n] m"

lemma mask_test: "k < 8 \<Longrightarrow> (ucast (line :: u8) :: u32) AND push_bit (7 - k) 1 \<noteq> 0 \<longleftrightarrow> bit line (7 - k)"
  by (auto simp: and_exp_eq_0_iff_not_bit push_bit_of_1 bit_simps)

lemma draw_glyph_rows: "draw_glyph g cur font m = fold (\<lambda>i. draw_row g cur i (font ! i) 8) [0..<16] m"
  unfolding draw_glyph_def draw_row_def Let_def
  by (intro fold_cong refl ext) (simp add: mask_test [unfolded push_bit_of_1] dot_def push_bit_of_1)

lemma pixel_draw_row:
  assumes "on_screen g q" and "screen_ok g" and "unat (X cur) + 8 < 2 ^ 32" and "unat (Y cur) + 16 < 2 ^ 32"
    and "i < 16" and "n \<le> 8"
  shows "pixel g (draw_row g cur i line n m) q =
    (if snd q = unat (Y cur) + i \<and> unat (X cur) \<le> fst q \<and> fst q < unat (X cur) + n
     then color_bytes (dot line (fst q - unat (X cur))) else pixel g m q)"
  using assms(6)
proof (induction n)
  case 0
  then show ?case by (auto simp: draw_row_def)
next
  case (Suc n)
  have x: "unat (X cur + of_nat n) = unat (X cur) + n"
    using assms(3) Suc.prems by (subst unat_add_nowrap) (simp_all add: unat_of_nat_nowrap)
  have y: "unat (Y cur + of_nat i) = unat (Y cur) + i"
    using assms(4,5) by (subst unat_add_nowrap) (simp_all add: unat_of_nat_nowrap)
  have "draw_row g cur i line (Suc n) m =
      DrawPixel g \<lparr>X = X cur + of_nat n, Y = Y cur + of_nat i\<rparr> (dot line n) (draw_row g cur i line n m)"
    by (simp add: draw_row_def)
  then show ?case
    using Suc by (auto simp: pixel_DrawPixel [OF assms(1,2)] x y prod_eq_iff)
qed

lemma pixel_draw_rows:
  assumes "on_screen g q" and "screen_ok g" and "unat (X cur) + 8 < 2 ^ 32" and "unat (Y cur) + 16 < 2 ^ 32"
    and "n \<le> 16"
  shows "pixel g (fold (\<lambda>i. draw_row g cur i (font ! i) 8) [0..<n] m) q =
    (if unat (Y cur) \<le> snd q \<and> snd q < unat (Y cur) + n \<and> unat (X cur) \<le> fst q \<and> fst q < unat (X cur) + 8
     then color_bytes (dot (font ! (snd q - unat (Y cur))) (fst q - unat (X cur))) else pixel g m q)"
  using assms(5)
proof (induction n)
  case 0
  then show ?case by auto
next
  case (Suc n)
  then show ?case by (auto simp: pixel_draw_row [OF assms(1-4)])
qed

lemma draw_row_only_frame: "screen_ok g \<Longrightarrow> only_frame g m (draw_row g cur i line n m)"
  by (induction n) (auto simp: draw_row_def intro: only_frame_trans DrawPixel_only_frame)

lemma draw_rows_only_frame:
  "screen_ok g \<Longrightarrow> only_frame g m (fold (\<lambda>i. draw_row g cur i (font ! i) 8) is m)"
proof (induction "is" arbitrary: m)
  case Nil
  then show ?case by simp
next
  case (Cons i "is")
  then show ?case by (auto intro: only_frame_trans draw_row_only_frame)
qed

lemma draw_glyph_only_frame: "screen_ok g \<Longrightarrow> only_frame g m (draw_glyph g cur font m)"
  unfolding draw_glyph_rows by (rule draw_rows_only_frame)

subsection \<open>The console invariant\<close>

text \<open>Room for one character at the cursor.\<close>

definition room_ok :: "KernelConsole \<Rightarrow> bool" where
  "room_ok c \<longleftrightarrow> cursor_ok c \<and> unat (X (m_CursorPosition c)) + 8 \<le> unat (HorizontalResolution (m_Info c))"

lemma IsNewLineRequired_iff:
  "screen_ok (m_Info c) \<Longrightarrow>
   IsNewLineRequired c \<longleftrightarrow> unat (HorizontalResolution (m_Info c)) < unat (X (m_CursorPosition c)) + 8"
  by (auto simp: IsNewLineRequired_def FONT_WIDTH_def screen_ok_def word_less_nat_alt unat_sub word_le_nat_alt)

lemma IsEndOfScreen_iff:
  "screen_ok (m_Info c) \<Longrightarrow>
   IsEndOfScreen c \<longleftrightarrow> unat (VerticalResolution (m_Info c)) < unat (Y (m_CursorPosition c)) + 16"
  by (auto simp: IsEndOfScreen_def FONT_HEIGHT_def screen_ok_def word_less_nat_alt unat_sub word_le_nat_alt)

lemma Reset_ok:
  assumes "screen_ok (m_Info c)"
  shows "room_ok (fst (Reset c m))" and "m_Info (fst (Reset c m)) = m_Info c"
    and "only_frame (m_Info c) m (snd (Reset c m))"
  using assms by (simp_all add: Reset_def room_ok_def cursor_ok_def screen_ok_def clear_screen_only_frame)

text \<open>The new line shared by \<open>make_room\<close> and the newline character.\<close>

definition new_line :: "KernelConsole \<Rightarrow> KernelConsole" where
  "new_line c = c\<lparr>m_CursorPosition := \<lparr>X = 0, Y = Y (m_CursorPosition c) + FONT_HEIGHT\<rparr>\<rparr>"

definition wrap_screen :: "KernelConsole \<Rightarrow> memory \<Rightarrow> KernelConsole \<times> memory" where
  "wrap_screen c m = (if IsEndOfScreen c then Reset c m else (c, m))"

lemma new_line_Info [simp]: "m_Info (new_line c) = m_Info c"
  by (simp add: new_line_def)

lemma wrap_screen_new_line_ok:
  assumes "screen_ok (m_Info c)" and "cursor_ok c"
  shows "room_ok (fst (wrap_screen (new_line c) m))" and "m_Info (fst (wrap_screen (new_line c) m)) = m_Info c"
    and "only_frame (m_Info c) m (snd (wrap_screen (new_line c) m))"
proof -
  have y: "unat (Y (m_CursorPosition (new_line c))) = unat (Y (m_CursorPosition c)) + 16"
    using assms by (subst unat_add_nowrap [symmetric] | simp add: new_line_def FONT_HEIGHT_def cursor_ok_def screen_ok_def unat_add_nowrap)+
  have e: "IsEndOfScreen (new_line c) \<longleftrightarrow>
      unat (VerticalResolution (m_Info c)) < unat (Y (m_CursorPosition c)) + 16 + 16"
    using IsEndOfScreen_iff [of "new_line c"] assms(1) by (simp add: y)
  note r = Reset_ok [of "new_line c" m, unfolded new_line_Info, OF assms(1)]
  show "room_ok (fst (wrap_screen (new_line c) m))"
  proof (cases "IsEndOfScreen (new_line c)")
    case True
    then show ?thesis using r by (simp add: wrap_screen_def)
  next
    case False
    have "X (m_CursorPosition (new_line c)) = 0" by (simp add: new_line_def)
    with False show ?thesis
      using e assms by (simp add: wrap_screen_def room_ok_def cursor_ok_def y screen_ok_def)
  qed
  show "m_Info (fst (wrap_screen (new_line c) m)) = m_Info c" "only_frame (m_Info c) m (snd (wrap_screen (new_line c) m))"
    using r by (simp_all add: wrap_screen_def)
qed

lemma make_room_eq:
  assumes "screen_ok (m_Info c)" and "cursor_ok c"
  shows "make_room c m = (if IsNewLineRequired c then wrap_screen (new_line c) m else (c, m))"
  using assms IsEndOfScreen_iff [OF assms(1)]
  by (auto simp: make_room_def wrap_screen_def new_line_def cursor_ok_def Let_def)

lemma make_room_ok:
  assumes "screen_ok (m_Info c)" and "cursor_ok c"
  shows "room_ok (fst (make_room c m))" and "m_Info (fst (make_room c m)) = m_Info c"
    and "only_frame (m_Info c) m (snd (make_room c m))"
  using wrap_screen_new_line_ok [OF assms] assms IsNewLineRequired_iff [OF assms(1)]
  by (simp_all add: make_room_eq [OF assms] room_ok_def not_less)

lemma advance_ok:
  assumes "screen_ok (m_Info c)" and "room_ok c"
  shows "cursor_ok (advance c)" and "m_Info (advance c) = m_Info c"
proof -
  have "unat (X (m_CursorPosition c) + 8) = unat (X (m_CursorPosition c)) + 8"
    using assms by (subst unat_add_nowrap) (simp_all add: room_ok_def screen_ok_def)
  then show "cursor_ok (advance c)" using assms by (simp add: advance_def cursor_ok_def room_ok_def FONT_WIDTH_def)
  show "m_Info (advance c) = m_Info c" by (simp add: advance_def)
qed

lemma PutChar_cases:
  assumes "screen_ok (m_Info c)" and "cursor_ok c"
  shows "PutChar ch c m =
    (if IsVisibleChar ch
     then (advance (fst (make_room c m)),
           if ch = 0x20 then snd (make_room c m)
           else draw_glyph (m_Info c) (m_CursorPosition (fst (make_room c m))) (gConsoleFont ch) (snd (make_room c m)))
     else if ch = 0x0A then wrap_screen (new_line c) m else (c, m))"
  using make_room_ok(2) [OF assms, of m]
  by (auto simp: PutChar_def Let_def wrap_screen_def new_line_def split: prod.splits)

lemma PutChar_ok:
  assumes "screen_ok (m_Info c)" and "cursor_ok c"
  shows "cursor_ok (fst (PutChar ch c m))" and "m_Info (fst (PutChar ch c m)) = m_Info c"
    and "only_frame (m_Info c) m (snd (PutChar ch c m))"
proof -
  note r = make_room_ok [OF assms, of m] and w = wrap_screen_new_line_ok [OF assms, of m]
  have s: "screen_ok (m_Info (fst (make_room c m)))" using r(2) assms(1) by simp
  note a = advance_ok [OF s r(1)]
  show "cursor_ok (fst (PutChar ch c m))"
    using a w assms(2) by (simp add: PutChar_cases [OF assms] room_ok_def)
  show "m_Info (fst (PutChar ch c m)) = m_Info c"
    using a r w by (simp add: PutChar_cases [OF assms])
  show "only_frame (m_Info c) m (snd (PutChar ch c m))"
    using r w only_frame_trans [OF r(3) draw_glyph_only_frame [OF assms(1)]] by (simp add: PutChar_cases [OF assms])
qed

lemma PutString_simps [simp]:
  "PutString [] c m = (c, m)"
  "PutString (ch # str) c m = PutString str (fst (PutChar ch c m)) (snd (PutChar ch c m))"
  by (simp_all add: PutString_def case_prod_beta prod.case_eq_if)

lemma PutString_ok:
  assumes "screen_ok (m_Info c)" and "cursor_ok c"
  shows "cursor_ok (fst (PutString str c m)) \<and> m_Info (fst (PutString str c m)) = m_Info c \<and>
    only_frame (m_Info c) m (snd (PutString str c m))"
  using assms
proof (induction str arbitrary: c m)
  case Nil
  then show ?case by simp
next
  case (Cons ch str)
  note k = PutChar_ok [OF Cons.prems, where ch = ch and m = m]
  from Cons.IH [of "fst (PutChar ch c m)" "snd (PutChar ch c m)"] k Cons.prems show ?case
    by (auto intro: only_frame_trans)
qed

text \<open>
  C22. The frame buffer console from its construction on: whatever string it prints, the cursor stays on a
  character cell of the screen and no byte outside the frame buffer is written.
\<close>

theorem KernelConsole_stays_in_frame:
  assumes "screen_ok info"
  shows "let (c, m') = (case KernelConsole_new info m of (c, m0) \<Rightarrow> PutString str c m0)
         in cursor_ok c \<and> m_Info c = info \<and> only_frame info m m'"
proof -
  let ?c = "fst (KernelConsole_new info m)" and ?m = "snd (KernelConsole_new info m)"
  have i: "m_Info ?c = info" "cursor_ok ?c" "only_frame info m ?m"
    using assms by (simp_all add: KernelConsole_new_def cursor_ok_def screen_ok_def clear_screen_only_frame)
  from PutString_ok [of ?c str ?m] i assms show ?thesis
    by (auto simp: Let_def case_prod_beta intro: only_frame_trans)
qed

theorem KernelConsole_stays_in_frame_witness:
  "let info = \<lparr>FrameBufferBase = 0x1000, FrameBufferSize = 0x400, PixelsPerScanLine = 16, HorizontalResolution = 16,
                VerticalResolution = 16, DisplayPixelFormat = BGR\<rparr>
   in screen_ok info \<and>
      (let (c, m') = (case KernelConsole_new info (\<lambda>_. 7) of (c, m0) \<Rightarrow> PutString [0x41, 0x0A, 0x42] c m0)
       in cursor_ok c \<and> m_Info c = info \<and> only_frame info (\<lambda>_. 7) m')"
  unfolding Let_def [of "\<lparr>FrameBufferBase = 0x1000, FrameBufferSize = 0x400, PixelsPerScanLine = 16, HorizontalResolution = 16,
                VerticalResolution = 16, DisplayPixelFormat = BGR\<rparr>"]
  by (intro conjI KernelConsole_stays_in_frame) (simp_all add: screen_ok_def)

text \<open>
  C23. A visible character other than the blank draws its glyph: every pixel of its cell takes the colour of
  the font's bit, and every other pixel is what it was once room was made for the character.
\<close>

theorem PutChar_glyph:
  assumes "screen_ok (m_Info c)" and "cursor_ok c" and "IsVisibleChar ch" and "ch \<noteq> 0x20" and "on_screen (m_Info c) q"
  shows "let (c1, m1) = make_room c m; x = unat (X (m_CursorPosition c1)); y = unat (Y (m_CursorPosition c1))
         in pixel (m_Info c) (snd (PutChar ch c m)) q =
              (if y \<le> snd q \<and> snd q < y + 16 \<and> x \<le> fst q \<and> fst q < x + 8
               then color_bytes (if bit (gConsoleFont ch ! (snd q - y)) (7 - (fst q - x)) then COLOR_FOREGROUND else COLOR_BACKGROUND)
               else pixel (m_Info c) m1 q)"
proof -
  let ?c = "fst (make_room c m)"
  have r: "room_ok ?c" "m_Info ?c = m_Info c" using make_room_ok [OF assms(1,2), of m] by simp_all
  have "unat (X (m_CursorPosition ?c)) + 8 < 2 ^ 32" "unat (Y (m_CursorPosition ?c)) + 16 < 2 ^ 32"
    using r assms(1) by (simp_all add: room_ok_def cursor_ok_def screen_ok_def)
  from pixel_draw_rows [OF assms(5,1) this, of 16 "gConsoleFont ch" "snd (make_room c m)"] assms(3,4) show ?thesis
    by (simp add: PutChar_cases [OF assms(1,2)] draw_glyph_rows dot_def Let_def case_prod_beta)
qed

theorem PutChar_glyph_witness:
  "let info = \<lparr>FrameBufferBase = 0x1000, FrameBufferSize = 0x400, PixelsPerScanLine = 16, HorizontalResolution = 16,
                VerticalResolution = 16, DisplayPixelFormat = BGR\<rparr>;
       c = \<lparr>m_Info = info, m_CursorPosition = \<lparr>X = 8, Y = 0\<rparr>\<rparr>
   in pixel info (snd (PutChar 0x7C c (\<lambda>_. 7))) (11, 2) = [255, 255, 255, 0] \<and>
      pixel info (snd (PutChar 0x7C c (\<lambda>_. 7))) (8, 2) = [0, 0, 0, 0] \<and>
      pixel info (snd (PutChar 0x7C c (\<lambda>_. 7))) (3, 2) = [7, 7, 7, 7]"
proof -
  let ?info = "\<lparr>FrameBufferBase = 0x1000, FrameBufferSize = 0x400, PixelsPerScanLine = 16, HorizontalResolution = 16,
                VerticalResolution = 16, DisplayPixelFormat = BGR\<rparr>"
  let ?c = "\<lparr>m_Info = ?info, m_CursorPosition = \<lparr>X = 8, Y = 0\<rparr>\<rparr>"
  have ok: "screen_ok (m_Info ?c)" "cursor_ok ?c" "IsVisibleChar 0x7C" "(0x7C :: u8) \<noteq> 0x20"
    by (simp_all add: screen_ok_def cursor_ok_def IsVisibleChar_iff)
  have room: "make_room ?c (\<lambda>_. 7) = (?c, \<lambda>_. 7)"
    by (simp add: make_room_def IsNewLineRequired_def IsEndOfScreen_def FONT_WIDTH_def FONT_HEIGHT_def)
  have font: "gConsoleFont 0x7C ! 2 = 0x18" by (simp add: gConsoleFont_def font_rows_def)
  have on: "on_screen (m_Info ?c) (11, 2)" "on_screen (m_Info ?c) (8, 2)" "on_screen (m_Info ?c) (3, 2)"
    by (simp_all add: on_screen_def)
  show ?thesis
    using PutChar_glyph [OF ok on(1), of "\<lambda>_. 7"] PutChar_glyph [OF ok on(2), of "\<lambda>_. 7"] PutChar_glyph [OF ok on(3), of "\<lambda>_. 7"]
    by (simp add: room font color_bytes_def COLOR_FOREGROUND_def COLOR_BACKGROUND_def pixel_def read_bytes_numeral)
qed

end
