(* ===== verification/BitOps.thy ===== *)
theory BitOps
  imports HailPrelude
begin

text \<open>
  \<open>Kernel/Include/Utility/Bit.hpp\<close>: reading and writing single bits of a byte, and setting a run
  of bits in a byte array. The \<open>int bit\<close> arguments are natural numbers here: every caller passes a
  remainder modulo \<open>CHAR_BIT\<close>, and a negative shift count is undefined in C++. The \<open>std::szt\<close>
  arguments of \<open>SetBitRange\<close> are 64-bit words, so the sums and products in its range checks wrap as
  they do in the code.

  \<open>bit_at\<close> is the abstraction the allocator proofs use: bit number \<open>n\<close> of a byte array.
\<close>

unbundle bit_operations_syntax

subsection \<open>The routines\<close>

definition CHAR_BIT :: nat where
  "CHAR_BIT = 8"

definition Bit :: "u8 \<Rightarrow> nat \<Rightarrow> bool" where
  "Bit value b = (if b \<ge> CHAR_BIT then False else (drop_bit b value AND 1) \<noteq> 0)"

definition SetBit :: "u8 \<Rightarrow> nat \<Rightarrow> bool \<Rightarrow> u8" where
  "SetBit value b flag =
     (if b \<ge> CHAR_BIT then value
      else let msk = push_bit b (1 :: u8)
           in (value AND NOT msk) OR (if flag then msk else 0))"

definition SetBitRange ::
  "byte_array \<Rightarrow> u64 \<Rightarrow> u64 \<Rightarrow> nat \<Rightarrow> u64 \<Rightarrow> bool \<Rightarrow> byte_array" where
  "SetBitRange data sz startIndex startBit len flag =
     (if len = 0 then data
      else let total = sz * of_nat CHAR_BIT;
               sb = startIndex * of_nat CHAR_BIT + of_nat startBit
           in if sb \<ge> total then data
              else if sb + len > total then data
              else fold (\<lambda>i d. let b = sb + of_nat i;
                                   idx = unat (b div of_nat CHAR_BIT);
                                   bt = unat (b mod of_nat CHAR_BIT)
                               in d(idx := SetBit (d idx) bt flag))
                     [0..<unat len] data)"

text \<open>Bit number \<open>n\<close> of an array: bit \<open>n mod 8\<close> of byte \<open>n div 8\<close>.\<close>

definition bit_at :: "byte_array \<Rightarrow> nat \<Rightarrow> bool" where
  "bit_at d n = Bit (d (n div CHAR_BIT)) (n mod CHAR_BIT)"

subsection \<open>Single bits\<close>

lemma Bit_iff: "Bit v b \<longleftrightarrow> bit v b"
proof (cases "b < 8")
  case True
  then show ?thesis by (simp add: Bit_def CHAR_BIT_def bit_iff_and_drop_bit_eq_1 and_one_eq mod_2_eq_odd)
next
  case False
  then show ?thesis by (auto simp: Bit_def CHAR_BIT_def dest: bit_imp_le_length)
qed

lemma Bit_SetBit [simp]: "Bit (SetBit v b f) c \<longleftrightarrow> (if c = b \<and> b < CHAR_BIT then f else Bit v c)"
  by (auto simp: Bit_iff SetBit_def CHAR_BIT_def bit_simps Let_def split: if_splits
      dest: bit_imp_le_length)

lemma SetBit_same: "b < CHAR_BIT \<Longrightarrow> Bit v b = f \<Longrightarrow> SetBit v b f = v"
  by (rule bit_word_eqI) (metis Bit_SetBit Bit_iff)

lemma SetBit_SetBit [simp]: "SetBit (SetBit v b f) b g = SetBit v b g"
  by (rule bit_word_eqI) (simp add: Bit_iff [symmetric])

lemma bit_at_update:
  "bit_at (d(n div CHAR_BIT := SetBit (d (n div CHAR_BIT)) (n mod CHAR_BIT) f)) m
     \<longleftrightarrow> (if m = n then f else bit_at d m)"
proof -
  have "n mod CHAR_BIT < CHAR_BIT" by (simp add: CHAR_BIT_def)
  moreover have "m div CHAR_BIT = n div CHAR_BIT \<Longrightarrow> m mod CHAR_BIT = n mod CHAR_BIT \<Longrightarrow> m = n"
    by (metis div_mult_mod_eq)
  ultimately show ?thesis by (auto simp: bit_at_def)
qed

lemma bit_at_cong: "d (n div CHAR_BIT) = e (n div CHAR_BIT) \<Longrightarrow> bit_at d n = bit_at e n"
  by (simp add: bit_at_def)

subsection \<open>Runs of bits\<close>

text \<open>The loop of \<open>SetBitRange\<close> on natural-number bit positions.\<close>

definition set_run :: "byte_array \<Rightarrow> nat \<Rightarrow> nat \<Rightarrow> bool \<Rightarrow> byte_array" where
  "set_run d s n f =
     fold (\<lambda>i d. d((s + i) div CHAR_BIT := SetBit (d ((s + i) div CHAR_BIT)) ((s + i) mod CHAR_BIT) f))
       [0..<n] d"

lemma set_run_0 [simp]: "set_run d s 0 f = d"
  by (simp add: set_run_def)

lemma set_run_Suc:
  "set_run d s (Suc n) f =
     (set_run d s n f)((s + n) div CHAR_BIT :=
        SetBit (set_run d s n f ((s + n) div CHAR_BIT)) ((s + n) mod CHAR_BIT) f)"
  by (simp add: set_run_def)

lemma bit_at_set_run: "bit_at (set_run d s n f) m \<longleftrightarrow> (if s \<le> m \<and> m < s + n then f else bit_at d m)"
proof (induction n)
  case (Suc n)
  show ?case unfolding set_run_Suc bit_at_update Suc.IH by auto
qed auto

lemma set_run_outside:
  assumes "k * CHAR_BIT + CHAR_BIT \<le> s \<or> s + n \<le> k * CHAR_BIT"
  shows "set_run d s n f k = d k"
  using assms
proof (induction n)
  case (Suc n)
  have "k \<noteq> (s + n) div CHAR_BIT" using Suc.prems by (auto simp: CHAR_BIT_def)
  with Suc show ?case by (auto simp: set_run_Suc)
qed simp

text \<open>
  With sizes that do not wrap, \<open>SetBitRange\<close> is the run of bits \<open>sb .. sb + len - 1\<close> when that run
  lies inside the array, and does nothing otherwise.
\<close>

lemma SetBitRange_eq:
  assumes "unat sz * CHAR_BIT < 2 ^ 64"
    and "unat startIndex * CHAR_BIT + startBit + unat len < 2 ^ 64"
  shows "SetBitRange d sz startIndex startBit len f =
    (if unat startIndex * CHAR_BIT + startBit + unat len \<le> unat sz * CHAR_BIT
     then set_run d (unat startIndex * CHAR_BIT + startBit) (unat len) f else d)"
proof (cases "len = 0")
  case False
  define s where "s = unat startIndex * CHAR_BIT + startBit"
  define sb where "sb = startIndex * (of_nat CHAR_BIT :: u64) + of_nat startBit"
  have m: "unat (startIndex * (of_nat CHAR_BIT :: u64)) = unat startIndex * CHAR_BIT"
    and t: "unat (sz * (of_nat CHAR_BIT :: u64)) = unat sz * CHAR_BIT"
    using assms by (simp_all add: CHAR_BIT_def unat_mult_nowrap)
  have st: "unat (of_nat startBit :: u64) = startBit"
    using assms by (intro unat_of_nat_nowrap) simp
  have sb: "unat sb = s"
    unfolding sb_def s_def using assms m st by (subst unat_add_nowrap) auto
  have sl: "unat (sb + len) = s + unat len"
    using assms sb by (subst unat_add_nowrap) (auto simp: s_def)
  have nz: "0 < unat len" using False by (simp add: unat_gt_0)
  have step: "unat ((sb + of_nat i) div of_nat CHAR_BIT) = (s + i) div CHAR_BIT \<and>
              unat ((sb + of_nat i) mod of_nat CHAR_BIT) = (s + i) mod CHAR_BIT"
    if "i < unat len" for i
  proof -
    have "unat (of_nat i :: u64) = i" using that by (intro unat_of_nat_nowrap) (simp add: less_trans [OF that])
    then have "unat (sb + of_nat i) = s + i"
      using assms that sb by (subst unat_add_nowrap) (auto simp: s_def)
    then show ?thesis by (simp add: unat_div unat_mod CHAR_BIT_def)
  qed
  have loop: "fold (\<lambda>i d. let b = sb + of_nat i; idx = unat (b div of_nat CHAR_BIT);
                             bt = unat (b mod of_nat CHAR_BIT) in d(idx := SetBit (d idx) bt f))
                [0..<unat len] d = set_run d s (unat len) f"
    unfolding set_run_def using step by (intro fold_cong) (auto simp: Let_def)
  show ?thesis
    using False nz sb sl t loop
    by (simp add: SetBitRange_def Let_def sb_def [symmetric] s_def [symmetric] word_le_nat_alt
        word_less_nat_alt)
qed (simp add: SetBitRange_def)

lemma bit_at_SetBitRange:
  assumes "unat sz * CHAR_BIT < 2 ^ 64"
    and "unat startIndex * CHAR_BIT + startBit + unat len \<le> unat sz * CHAR_BIT"
  shows "bit_at (SetBitRange d sz startIndex startBit len f) m \<longleftrightarrow>
    (if unat startIndex * CHAR_BIT + startBit \<le> m \<and> m < unat startIndex * CHAR_BIT + startBit + unat len
     then f else bit_at d m)"
  using assms by (simp add: SetBitRange_eq bit_at_set_run)

end
