(* ===== verification/PhysBitmap.thy ===== *)
theory PhysBitmap
  imports BitOps LibUtil
begin

text \<open>
  \<open>Kernel/Include/Core/Memory/MemoryInfo.hpp\<close> and \<open>Kernel/Core/Memory/PhysicalMemoryBitmap\<close>: the
  memory map handed over by the boot loader and the bitmap with one bit per 4 KiB physical page
  (64 GiB, so 2 MiB of bitmap). A set bit is a page in use.

  The bitmap is a \<open>byte_array\<close>: indices below \<open>MAX_PHYS_PAGE_BITMAP_INDEX\<close> are the array itself,
  larger ones the bytes that the linker placed behind it. \<open>ParseMemoryInfo\<close> is the whole function,
  its \<open>static bool called\<close> included; the body of its loop is \<open>ParseRegion\<close>. The region arrays of
  \<open>MemoryInfo\<close> are indexed functions: entries at or above \<open>MAX_REGIONS\<close> stand for whatever an
  out-of-range read would deliver.

  The lemmas relate the code to \<open>region_pages\<close>, the pages that lie completely inside a free region.
\<close>

unbundle bit_operations_syntax

subsection \<open>Constants, data and address arithmetic\<close>

definition PAGE_SIZE :: u64 where
  "PAGE_SIZE = 4096"

definition MAX_REGIONS :: nat where
  "MAX_REGIONS = 64"

record MemoryRegion =
  Base :: u64
  Length :: u64

record MemoryInfo =
  FreeMemory :: "nat \<Rightarrow> MemoryRegion"
  FreeRegionCount :: u64
  ReservedMemory :: "nat \<Rightarrow> MemoryRegion"
  ReservedRegionCount :: u64

definition MAX_MEMORY_SIZE_BYTES :: u64 where
  "MAX_MEMORY_SIZE_BYTES = 68719476736"

definition MAX_PHYS_PAGE_BITMAP_INDEX :: u64 where
  "MAX_PHYS_PAGE_BITMAP_INDEX = (MAX_MEMORY_SIZE_BYTES div PAGE_SIZE) div of_nat CHAR_BIT"

definition UNUSED_BIT :: bool where
  "UNUSED_BIT = False"

definition USED_BIT :: bool where
  "USED_BIT = (\<not> UNUSED_BIT)"

definition ADDRESS_TO_PAGE_INDEX :: "u64 \<Rightarrow> u64" where
  "ADDRESS_TO_PAGE_INDEX addr = addr div PAGE_SIZE"

definition ADDRESS_TO_PAGE_OFFSET :: "u64 \<Rightarrow> u64" where
  "ADDRESS_TO_PAGE_OFFSET addr = addr mod PAGE_SIZE"

definition ADDRESS_TO_PAGE_BITMAP_ARRAY_INDEX :: "u64 \<Rightarrow> u64" where
  "ADDRESS_TO_PAGE_BITMAP_ARRAY_INDEX addr = (addr div PAGE_SIZE) div of_nat CHAR_BIT"

definition ADDRESS_TO_PAGE_BITMAP_BIT_OFFSET :: "u64 \<Rightarrow> u64" where
  "ADDRESS_TO_PAGE_BITMAP_BIT_OFFSET addr = (addr div PAGE_SIZE) mod of_nat CHAR_BIT"

definition PAGE_OFFSET_TO_ADDRESS :: "u64 \<Rightarrow> u64 \<Rightarrow> u64" where
  "PAGE_OFFSET_TO_ADDRESS pg off = pg * PAGE_SIZE + off"

definition BITMAP_INDEX_BIT_TO_PAGE_ADDRESS :: "u64 \<Rightarrow> u64 \<Rightarrow> u64" where
  "BITMAP_INDEX_BIT_TO_PAGE_ADDRESS idx b = (idx * of_nat CHAR_BIT * PAGE_SIZE) + (b * PAGE_SIZE)"

definition Align :: "u64 \<Rightarrow> u64 \<Rightarrow> u64" where
  "Align addr al =
     (if al \<le> 1 then addr
      else if al AND (al - 1) = 0 then (addr + (al - 1)) AND NOT (al - 1)
      else let r = addr mod al in if r \<noteq> 0 then addr + (al - r) else addr)"

subsection \<open>Parsing the memory map\<close>

record phys =
  PhysicalMemoryPageBitmap :: byte_array
  ParseMemoryInfo_called :: bool

definition ParseRegion :: "MemoryRegion \<Rightarrow> byte_array \<Rightarrow> byte_array" where
  "ParseRegion r0 bm =
     (if Base r0 < PAGE_SIZE \<and> Base r0 + Length r0 < PAGE_SIZE then bm
      else
        let r = (if Base r0 < PAGE_SIZE
                 then let r1 = r0\<lparr>Base := PAGE_SIZE\<rparr> in r1\<lparr>Length := Base r1 - PAGE_SIZE\<rparr>
                 else r0)
        in if Length r < PAGE_SIZE then bm
           else
             let alignedBase = Align (Base r) PAGE_SIZE;
                 sz = Base r + Length r - alignedBase
             in if sz < PAGE_SIZE then bm
                else
                  let idx = ADDRESS_TO_PAGE_BITMAP_ARRAY_INDEX alignedBase;
                      b = ADDRESS_TO_PAGE_BITMAP_BIT_OFFSET alignedBase;
                      pageCount = sz div PAGE_SIZE
                  in if pageCount = 0 then bm
                     else if pageCount = 1
                     then bm(unat idx := SetBit (bm (unat idx)) (unat b) UNUSED_BIT)
                     else SetBitRange bm MAX_PHYS_PAGE_BITMAP_INDEX idx (unat b) pageCount UNUSED_BIT)"

definition ParseMemoryInfo :: "MemoryInfo \<Rightarrow> phys \<Rightarrow> phys" where
  "ParseMemoryInfo info s =
     (if ParseMemoryInfo_called s then s
      else
        let bm0 = FillMemory (PhysicalMemoryPageBitmap s) 0 MAX_PHYS_PAGE_BITMAP_INDEX 0xFF
        in s\<lparr>PhysicalMemoryPageBitmap :=
               fold (\<lambda>i bm. ParseRegion (FreeMemory info i) bm) [0..<unat (FreeRegionCount info)] bm0\<rparr>)"

subsection \<open>Abstract view\<close>

text \<open>Number of pages and bytes of bitmap; a free page is a clear bit inside the array.\<close>

definition TOTAL_PAGES :: nat where
  "TOTAL_PAGES = 16777216"

definition BITMAP_BYTES :: nat where
  "BITMAP_BYTES = 2097152"

definition page_free :: "byte_array \<Rightarrow> nat \<Rightarrow> bool" where
  "page_free bm p \<longleftrightarrow> p < TOTAL_PAGES \<and> \<not> bit_at bm p"

text \<open>
  The whole pages of a region that starts at or above the first page: page \<open>p\<close> is the byte range
  \<open>p * 4096 ..< (p + 1) * 4096\<close>.
\<close>

definition region_pages :: "MemoryRegion \<Rightarrow> nat set" where
  "region_pages r =
     {p. 4096 \<le> unat (Base r) \<and> unat (Base r) \<le> p * 4096 \<and>
         (p + 1) * 4096 \<le> unat (Base r) + unat (Length r)}"

definition region_first :: "MemoryRegion \<Rightarrow> nat" where
  "region_first r = (unat (Base r) + 4095) div 4096"

definition region_last :: "MemoryRegion \<Rightarrow> nat" where
  "region_last r = (unat (Base r) + unat (Length r)) div 4096"

text \<open>The end of a region is representable.\<close>

definition region_wf :: "MemoryRegion \<Rightarrow> bool" where
  "region_wf r \<longleftrightarrow> unat (Base r) + unat (Length r) < 2 ^ 64"

lemmas page_consts = PAGE_SIZE_def CHAR_BIT_def TOTAL_PAGES_def BITMAP_BYTES_def

lemma MAX_PHYS_PAGE_BITMAP_INDEX_eq [simp]: "MAX_PHYS_PAGE_BITMAP_INDEX = 2097152"
  by (simp add: MAX_PHYS_PAGE_BITMAP_INDEX_def MAX_MEMORY_SIZE_BYTES_def page_consts)

lemma UNUSED_BIT_False [simp]: "UNUSED_BIT = False" and USED_BIT_True [simp]: "USED_BIT = True"
  by (simp_all add: USED_BIT_def UNUSED_BIT_def)

lemma unat_array_index [simp]:
  "unat (ADDRESS_TO_PAGE_BITMAP_ARRAY_INDEX a) = unat a div 4096 div CHAR_BIT"
  by (simp add: ADDRESS_TO_PAGE_BITMAP_ARRAY_INDEX_def unat_div page_consts)

lemma unat_bit_offset [simp]:
  "unat (ADDRESS_TO_PAGE_BITMAP_BIT_OFFSET a) = unat a div 4096 mod CHAR_BIT"
  by (simp add: ADDRESS_TO_PAGE_BITMAP_BIT_OFFSET_def unat_div unat_mod page_consts)

lemma index_offset_page:
  "unat a div 4096 div CHAR_BIT * CHAR_BIT + unat a div 4096 mod CHAR_BIT = unat a div 4096"
  by simp

subsection \<open>Alignment\<close>

lemma Align_power_of_two:
  assumes "al = 2 ^ n" and "0 < n" and "n < 64"
  shows "Align addr al = (addr + (al - 1)) AND NOT (al - 1)"
proof -
  have m: "al - 1 = mask n" using assms by (simp add: mask_eq_exp_minus_1)
  have "al AND mask n = 0"
    using assms by (intro bit_word_eqI) (auto simp: bit_simps)
  moreover have "\<not> al \<le> 1"
  proof -
    have "unat al = 2 ^ n" using assms by (simp add: unat_2_power)
    moreover have "(2::nat) ^ 1 \<le> 2 ^ n" using assms by (intro power_increasing) auto
    ultimately show ?thesis by (simp add: word_le_nat_alt)
  qed
  ultimately show ?thesis by (simp add: Align_def m)
qed

lemma unat_Align_page:
  assumes "unat addr + 4095 < 2 ^ 64"
  shows "unat (Align addr PAGE_SIZE) = (unat addr + 4095) div 4096 * 4096"
proof -
  have "Align addr PAGE_SIZE = (addr + 4095) AND NOT (mask 12)"
    by (subst Align_power_of_two [where n = 12]) (simp_all add: PAGE_SIZE_def mask_eq_exp_minus_1)
  moreover have "unat (addr + 4095) = unat addr + 4095"
    using assms by (subst unat_add_nowrap) auto
  ultimately show ?thesis by (simp add: and_not_mask_eq_div)
qed

subsection \<open>One region\<close>

text \<open>A region that starts inside page 0 is dropped altogether.\<close>

lemma ParseRegion_low: "Base r < PAGE_SIZE \<Longrightarrow> ParseRegion r bm = bm"
  by (simp add: ParseRegion_def PAGE_SIZE_def)

lemma set_run_1: "set_run d n 1 f = d(n div CHAR_BIT := SetBit (d (n div CHAR_BIT)) (n mod CHAR_BIT) f)"
  by (simp add: set_run_def)

text \<open>
  Every other region clears the run of its whole pages, in two cases: the run is one page long (then
  without a range check), or it ends inside the bitmap.
\<close>

lemma ParseRegion_eq:
  assumes wf: "region_wf r" and base: "4096 \<le> unat (Base r)"
  shows "ParseRegion r bm =
    (if region_last r \<le> region_first r then bm
     else if region_last r = Suc (region_first r) \<or> region_last r \<le> TOTAL_PAGES
     then set_run bm (region_first r) (region_last r - region_first r) False
     else bm)"
proof -
  define f l where "f = region_first r" and "l = region_last r"
  define e where "e = unat (Base r) + unat (Length r)"
  have e64: "e < 2 ^ 64" using wf by (simp add: region_wf_def e_def)
  have lo: "\<not> Base r < PAGE_SIZE" using base by (simp add: word_less_nat_alt PAGE_SIZE_def)
  have fl: "f = (unat (Base r) + 4095) div 4096" "l = e div 4096"
    by (simp_all add: f_def l_def e_def region_first_def region_last_def)
  show ?thesis
  proof (cases "unat (Length r) < 4096")
    case True
    then have "l \<le> f" unfolding fl e_def by (intro div_le_mono) simp
    moreover have "ParseRegion r bm = bm"
      using lo True by (simp add: ParseRegion_def word_less_nat_alt PAGE_SIZE_def)
    ultimately show ?thesis by (simp add: f_def l_def)
  next
    case False
    then have len: "\<not> Length r < PAGE_SIZE" by (simp add: word_less_nat_alt PAGE_SIZE_def)
    define ab where "ab = Align (Base r) PAGE_SIZE"
    define sz where "sz = Base r + Length r - ab"
    have "unat (Base r) + 4095 < 2 ^ 64" using False e64 by (simp add: e_def)
    then have ab: "unat ab = f * 4096" by (simp add: ab_def unat_Align_page fl)
    have end_: "unat (Base r + Length r) = e" using e64 by (simp add: e_def unat_add_nowrap)
    have fe: "f * 4096 \<le> e" using False by (simp add: fl e_def)
    have sz: "unat sz = e - f * 4096"
      using ab end_ fe by (simp add: sz_def unat_sub word_le_nat_alt)
    have cnt: "unat (sz div PAGE_SIZE) = l - f"
      using diff_mult_div [OF fe] by (simp add: unat_div sz PAGE_SIZE_def fl(2))
    have "sz < PAGE_SIZE \<longleftrightarrow> unat (sz div PAGE_SIZE) = 0"
      by (simp add: word_less_nat_alt PAGE_SIZE_def unat_div div_eq_0_iff)
    then have szlt: "sz < PAGE_SIZE \<longleftrightarrow> l \<le> f" by (simp add: cnt)
    have one: "sz div PAGE_SIZE = 1 \<longleftrightarrow> l = Suc f"
      using cnt by (auto simp: word_unat_eq_iff)
    have zero: "sz div PAGE_SIZE = 0 \<longleftrightarrow> l \<le> f"
      using cnt by (auto simp: word_unat_eq_iff)
    have fpos: "unat ab div 4096 = f" by (simp add: ab)
    have l52: "l < 2 ^ 52" using e64 by (simp add: fl less_mult_imp_div_less)
    have range: "SetBitRange bm MAX_PHYS_PAGE_BITMAP_INDEX (ADDRESS_TO_PAGE_BITMAP_ARRAY_INDEX ab)
        (unat (ADDRESS_TO_PAGE_BITMAP_BIT_OFFSET ab)) (sz div PAGE_SIZE) UNUSED_BIT
      = (if l \<le> TOTAL_PAGES then set_run bm f (l - f) False else bm)" if "f < l"
      using that l52 by (subst SetBitRange_eq)
        (simp_all add: cnt [unfolded PAGE_SIZE_def] fpos index_offset_page page_consts)
    show ?thesis
      using lo len zero one szlt range
      by (auto simp: ParseRegion_def Let_def ab_def [symmetric] sz_def [symmetric] fpos
          f_def [symmetric] l_def [symmetric] set_run_1 [simplified] not_le)
  qed
qed

lemma region_pages_eq:
  "region_pages r = (if 4096 \<le> unat (Base r) then {region_first r..<region_last r} else {})"
proof -
  have "unat (Base r) \<le> p * 4096 \<longleftrightarrow> region_first r \<le> p" for p
  proof -
    have "region_first r \<le> p \<longleftrightarrow> (unat (Base r) + 4095) div 4096 < p + 1"
      by (auto simp: region_first_def)
    also have "\<dots> \<longleftrightarrow> unat (Base r) + 4095 < (p + 1) * 4096"
      by (rule div_less_iff_less_mult) simp
    finally show ?thesis by auto
  qed
  moreover have "(p + 1) * 4096 \<le> unat (Base r) + unat (Length r) \<longleftrightarrow> p < region_last r" for p
    using less_eq_div_iff_mult_less_eq [of 4096 "p + 1" "unat (Base r) + unat (Length r)"]
    by (auto simp: region_last_def)
  ultimately show ?thesis by (auto simp: region_pages_def)
qed

text \<open>
  A region reaches the bitmap when it ends inside the 64 GiB it covers. \<open>region_stray\<close> is the case the
  range check misses: a single whole page at or above 64 GiB.
\<close>

definition region_fits :: "MemoryRegion \<Rightarrow> bool" where
  "region_fits r \<longleftrightarrow> region_last r \<le> TOTAL_PAGES"

definition region_stray :: "MemoryRegion \<Rightarrow> bool" where
  "region_stray r \<longleftrightarrow> region_last r = Suc (region_first r) \<and> TOTAL_PAGES \<le> region_first r"

lemma bit_at_ParseRegion:
  assumes "region_wf r" and "n < TOTAL_PAGES"
  shows "bit_at (ParseRegion r bm) n \<longleftrightarrow> bit_at bm n \<and> \<not> (region_fits r \<and> n \<in> region_pages r)"
proof (cases "4096 \<le> unat (Base r)")
  case True
  then show ?thesis
    using assms by (auto simp: ParseRegion_eq region_pages_eq region_fits_def bit_at_set_run)
next
  case False
  then have "ParseRegion r bm = bm"
    by (intro ParseRegion_low) (simp add: word_less_nat_alt PAGE_SIZE_def)
  with False show ?thesis by (simp add: region_pages_eq)
qed

lemma ParseRegion_outside:
  assumes "region_wf r" and "\<not> region_stray r" and "BITMAP_BYTES \<le> k"
  shows "ParseRegion r bm k = bm k"
proof (cases "4096 \<le> unat (Base r)")
  case True
  have "region_last r \<le> TOTAL_PAGES"
    if "region_first r < region_last r"
       "region_last r = Suc (region_first r) \<or> region_last r \<le> TOTAL_PAGES"
    using that assms(2) by (auto simp: region_stray_def)
  then show ?thesis
    using True assms(1,3) by (auto simp: ParseRegion_eq page_consts intro!: set_run_outside)
next
  case False
  then have "ParseRegion r bm = bm"
    by (intro ParseRegion_low) (simp add: word_less_nat_alt PAGE_SIZE_def)
  then show ?thesis by simp
qed

subsection \<open>The whole memory map\<close>

lemma bit_at_fold_ParseRegion:
  assumes "\<forall>i<n. region_wf (R i)" and "p < TOTAL_PAGES"
  shows "bit_at (fold (\<lambda>i bm. ParseRegion (R i) bm) [0..<n] bm) p \<longleftrightarrow>
    bit_at bm p \<and> \<not> (\<exists>i<n. region_fits (R i) \<and> p \<in> region_pages (R i))"
  using assms by (induction n) (auto simp: bit_at_ParseRegion less_Suc_eq)

lemma fold_ParseRegion_outside:
  assumes "\<forall>i<n. region_wf (R i) \<and> \<not> region_stray (R i)" and "BITMAP_BYTES \<le> k"
  shows "fold (\<lambda>i bm. ParseRegion (R i) bm) [0..<n] bm k = bm k"
  using assms by (induction n) (auto simp: ParseRegion_outside)

lemma bit_at_filled:
  "p < TOTAL_PAGES \<Longrightarrow> bit_at (FillMemory bm 0 MAX_PHYS_PAGE_BITMAP_INDEX 0xFF) p"
proof -
  have "(0xFF :: u8) = - 1" by simp
  then have "Bit 0xFF b" if "b < 8" for b using that by (simp only: Bit_iff bit_minus_1_iff) simp
  moreover assume "p < TOTAL_PAGES"
  ultimately show ?thesis by (simp add: bit_at_def page_consts less_mult_imp_div_less)
qed

lemma page_free_ParseMemoryInfo:
  assumes "\<not> ParseMemoryInfo_called s"
    and "\<forall>i<unat (FreeRegionCount info). region_wf (FreeMemory info i)"
  shows "page_free (PhysicalMemoryPageBitmap (ParseMemoryInfo info s)) p \<longleftrightarrow>
    p < TOTAL_PAGES \<and>
    (\<exists>i<unat (FreeRegionCount info). region_fits (FreeMemory info i) \<and> p \<in> region_pages (FreeMemory info i))"
proof (cases "p < TOTAL_PAGES")
  case True
  have "bit_at (PhysicalMemoryPageBitmap (ParseMemoryInfo info s)) p \<longleftrightarrow>
      \<not> (\<exists>i<unat (FreeRegionCount info). region_fits (FreeMemory info i) \<and> p \<in> region_pages (FreeMemory info i))"
    using assms True bit_at_filled [OF True, of "PhysicalMemoryPageBitmap s"]
    by (simp add: ParseMemoryInfo_def Let_def bit_at_fold_ParseRegion del: FillMemory_array)
  with True show ?thesis unfolding page_free_def by blast
qed (simp add: page_free_def)

lemma ParseMemoryInfo_page0:
  assumes "\<not> ParseMemoryInfo_called s"
    and "\<forall>i<unat (FreeRegionCount info). region_wf (FreeMemory info i)"
  shows "\<not> page_free (PhysicalMemoryPageBitmap (ParseMemoryInfo info s)) 0"
  using assms by (simp add: page_free_ParseMemoryInfo region_pages_def)

subsection \<open>Properties\<close>

text \<open>A memory map for concrete instances: one free region of four pages from \<open>0x1800\<close> on.\<close>

definition example_info :: MemoryInfo where
  "example_info = \<lparr>FreeMemory = (\<lambda>_. \<lparr>Base = 0x1800, Length = 0x4000\<rparr>), FreeRegionCount = 1,
     ReservedMemory = (\<lambda>_. \<lparr>Base = 0, Length = 0\<rparr>), ReservedRegionCount = 0\<rparr>"

definition example_phys :: phys where
  "example_phys = \<lparr>PhysicalMemoryPageBitmap = (\<lambda>_. 0), ParseMemoryInfo_called = False\<rparr>"

lemma example_info_wf:
  "\<forall>i<unat (FreeRegionCount example_info). region_wf (FreeMemory example_info i)"
  "\<forall>i<unat (FreeRegionCount example_info). \<not> region_stray (FreeMemory example_info i)"
  by (simp_all add: example_info_def region_wf_def region_stray_def region_first_def region_last_def
      page_consts)

text \<open>
  C12. After \<open>ParseMemoryInfo\<close> a page is free exactly when it lies completely inside one of the free
  regions of the map that start at or above the first page and end inside the 64 GiB the bitmap
  covers; every other page is in use, whatever the bitmap held before.
\<close>

theorem ParseMemoryInfo_correct:
  assumes "\<not> ParseMemoryInfo_called s"
    and "\<forall>i<unat (FreeRegionCount info). region_wf (FreeMemory info i)"
  shows "page_free (PhysicalMemoryPageBitmap (ParseMemoryInfo info s)) p \<longleftrightarrow>
    p < TOTAL_PAGES \<and>
    (\<exists>i<unat (FreeRegionCount info).
       4096 \<le> unat (Base (FreeMemory info i)) \<and>
       unat (Base (FreeMemory info i)) \<le> p * 4096 \<and>
       (p + 1) * 4096 \<le> unat (Base (FreeMemory info i)) + unat (Length (FreeMemory info i)) \<and>
       (unat (Base (FreeMemory info i)) + unat (Length (FreeMemory info i))) div 4096 \<le> TOTAL_PAGES)"
  using page_free_ParseMemoryInfo [OF assms, of p]
  by (auto simp: region_pages_def region_fits_def region_last_def)

theorem ParseMemoryInfo_correct_witness:
  "page_free (PhysicalMemoryPageBitmap (ParseMemoryInfo example_info example_phys)) 2 \<and>
   \<not> page_free (PhysicalMemoryPageBitmap (ParseMemoryInfo example_info example_phys)) 1"
proof -
  have "\<not> ParseMemoryInfo_called example_phys" by (simp add: example_phys_def)
  note c = ParseMemoryInfo_correct [OF this example_info_wf(1)]
  show ?thesis unfolding c by (simp add: example_info_def page_consts)
qed

text \<open>
  C38. \<open>ParseMemoryInfo\<close> writes no byte outside the bitmap, provided no region of the map consists of a
  single whole page at or above 64 GiB (the one case its code handles without a range check).
\<close>

theorem ParseMemoryInfo_in_bounds:
  assumes "\<forall>i<unat (FreeRegionCount info). region_wf (FreeMemory info i)"
    and "\<forall>i<unat (FreeRegionCount info). \<not> region_stray (FreeMemory info i)"
    and "BITMAP_BYTES \<le> k"
  shows "PhysicalMemoryPageBitmap (ParseMemoryInfo info s) k = PhysicalMemoryPageBitmap s k"
  using assms by (simp add: ParseMemoryInfo_def Let_def fold_ParseRegion_outside page_consts)

theorem ParseMemoryInfo_in_bounds_witness:
  "PhysicalMemoryPageBitmap (ParseMemoryInfo example_info example_phys) BITMAP_BYTES = 0"
  using ParseMemoryInfo_in_bounds [OF example_info_wf order.refl, of example_phys]
  by (simp add: example_phys_def)

text \<open>
  The missing range check: a one-page region at 64 GiB makes \<open>ParseMemoryInfo\<close> write the byte
  directly behind the bitmap.
\<close>

lemma ParseRegion_stray_write:
  "ParseRegion \<lparr>Base = 0x1000000000, Length = 4096\<rparr> bm BITMAP_BYTES = SetBit (bm BITMAP_BYTES) 0 False"
proof -
  define r where "r = \<lparr>Base = 0x1000000000 :: u64, Length = 4096\<rparr>"
  have rw: "region_wf r" "4096 \<le> unat (Base r)" "region_first r = TOTAL_PAGES" "region_last r = Suc TOTAL_PAGES"
    by (simp_all add: r_def region_wf_def region_first_def region_last_def page_consts)
  have "ParseRegion r bm = set_run bm TOTAL_PAGES 1 False" by (simp add: ParseRegion_eq rw)
  then have "ParseRegion r bm BITMAP_BYTES = SetBit (bm BITMAP_BYTES) 0 False"
    by (simp add: set_run_1 [simplified] page_consts)
  then show ?thesis by (simp add: r_def)
qed

text \<open>
  A free region that starts inside the first page contributes nothing, however long it is: its
  length is recomputed from the base address that has just been overwritten.
\<close>

lemma ParseRegion_drops_low_region:
  assumes "Base r < PAGE_SIZE"
  shows "ParseRegion r bm = bm"
  using assms by (rule ParseRegion_low)

lemma ParseRegion_drops_low_region_example:
  "ParseRegion \<lparr>Base = 0, Length = 0x9F000\<rparr> (\<lambda>_. 0xFF) = (\<lambda>_. 0xFF)"
  by (rule ParseRegion_drops_low_region) (simp add: PAGE_SIZE_def)

end
