(* ===== verification/PageAllocator.thy ===== *)
theory PageAllocator
  imports PhysBitmap
begin

text \<open>
  \<open>Kernel/Core/Memory/EarlyPageAllocator\<close>: the first-fit page allocator over the physical page
  bitmap, and the interface \<open>IPageAllocator\<close> it implements. A pointer is a 64-bit address and
  \<open>nullptr\<close> is address 0. The two nested loops of \<open>AllocatePage()\<close>, the run search of
  \<open>FindAvailableAddress\<close> and the counting loops are recursive functions with the loop's own bounds;
  the run search goes one byte beyond the bitmap, as its bound
  \<open>(MAX_PHYS_PAGE_BITMAP_INDEX + 1) * CHAR_BIT\<close> does.

  The locale \<open>page_allocator\<close> is the contract of \<open>IPageAllocator\<close> in terms of the set of free pages;
  its interpretation \<open>early\<close> shows that the bitmap code meets it as long as page 0 is in use and the
  byte behind the bitmap is \<open>0xFF\<close> (\<open>bitmap_ok\<close>).
\<close>

unbundle bit_operations_syntax

subsection \<open>The operations\<close>

function FindAvailableAddress_loop :: "byte_array \<Rightarrow> nat \<Rightarrow> nat \<Rightarrow> nat \<Rightarrow> nat \<Rightarrow> u64" where
  "FindAvailableAddress_loop bm tot pageCount i run =
     (if i < tot
      then
        let idx = i div CHAR_BIT; b = i mod CHAR_BIT
        in if Bit (bm idx) b = UNUSED_BIT
           then
             if run + 1 = pageCount
             then let start = i - (pageCount - 1); sidx = start div CHAR_BIT; sbit = start mod CHAR_BIT
                  in BITMAP_INDEX_BIT_TO_PAGE_ADDRESS (of_nat sidx) (of_nat sbit)
             else FindAvailableAddress_loop bm tot pageCount (i + 1) (run + 1)
           else FindAvailableAddress_loop bm tot pageCount (i + 1) 0
      else 0)"
  by pat_completeness auto
termination
  by (relation "measure (\<lambda>(bm, tot, pageCount, i, run). tot - i)") auto

definition FindAvailableAddress :: "byte_array \<Rightarrow> u64 \<Rightarrow> u64" where
  "FindAvailableAddress bm pageCount =
     (if pageCount = 0 then 0
      else
        let tot = (MAX_PHYS_PAGE_BITMAP_INDEX + 1) * of_nat CHAR_BIT
        in if tot < pageCount then 0
           else FindAvailableAddress_loop bm (unat tot) (unat pageCount) 0 0)"

function AllocatePage_bits :: "u8 \<Rightarrow> nat \<Rightarrow> nat option" where
  "AllocatePage_bits v j =
     (if j < CHAR_BIT
      then if Bit v j = UNUSED_BIT then Some j else AllocatePage_bits v (j + 1)
      else None)"
  by pat_completeness auto
termination
  by (relation "measure (\<lambda>(v, j). CHAR_BIT - j)") auto

function AllocatePage_bytes :: "byte_array \<Rightarrow> nat \<Rightarrow> (nat \<times> nat) option" where
  "AllocatePage_bytes bm i =
     (if i < unat MAX_PHYS_PAGE_BITMAP_INDEX
      then case AllocatePage_bits (bm i) 0 of
             Some j \<Rightarrow> Some (i, j)
           | None \<Rightarrow> AllocatePage_bytes bm (i + 1)
      else None)"
  by pat_completeness auto
termination
  by (relation "measure (\<lambda>(bm, i). unat MAX_PHYS_PAGE_BITMAP_INDEX - i)") auto

definition AllocatePage :: "byte_array \<Rightarrow> u64 \<times> byte_array" where
  "AllocatePage bm =
     (case AllocatePage_bytes bm 0 of
        Some (i, j) \<Rightarrow>
          (BITMAP_INDEX_BIT_TO_PAGE_ADDRESS (of_nat i) (of_nat j), bm(i := SetBit (bm i) j USED_BIT))
      | None \<Rightarrow> (0, bm))"

definition pages_for :: "u64 \<Rightarrow> u64" where
  "pages_for bytes =
     (if bytes mod PAGE_SIZE \<noteq> 0 then bytes div PAGE_SIZE + 1 else bytes div PAGE_SIZE)"

definition AllocatePage_size :: "u64 \<Rightarrow> byte_array \<Rightarrow> u64 \<times> byte_array" where
  "AllocatePage_size minSize bm =
     (let pageCount = pages_for minSize
      in if pageCount = 1 then AllocatePage bm
         else
           let allocated = FindAvailableAddress bm pageCount
           in if allocated = 0 then (0, bm)
              else (allocated,
                    SetBitRange bm MAX_PHYS_PAGE_BITMAP_INDEX
                      (ADDRESS_TO_PAGE_BITMAP_ARRAY_INDEX allocated)
                      (unat (ADDRESS_TO_PAGE_BITMAP_BIT_OFFSET allocated)) pageCount USED_BIT))"

definition FreePage :: "u64 \<Rightarrow> byte_array \<Rightarrow> byte_array" where
  "FreePage ptr bm =
     (let i = unat (ADDRESS_TO_PAGE_BITMAP_ARRAY_INDEX ptr);
          b = unat (ADDRESS_TO_PAGE_BITMAP_BIT_OFFSET ptr)
      in bm(i := SetBit (bm i) b UNUSED_BIT))"

definition FreePage_size :: "u64 \<Rightarrow> u64 \<Rightarrow> byte_array \<Rightarrow> byte_array" where
  "FreePage_size ptr allocatedSize bm =
     (let pageCount = pages_for allocatedSize;
          i = ADDRESS_TO_PAGE_BITMAP_ARRAY_INDEX ptr;
          b = unat (ADDRESS_TO_PAGE_BITMAP_BIT_OFFSET ptr)
      in SetBitRange bm MAX_PHYS_PAGE_BITMAP_INDEX i b pageCount UNUSED_BIT)"

definition GetAvailableSize :: "byte_array \<Rightarrow> u64" where
  "GetAvailableSize bm =
     fold (\<lambda>i total. fold (\<lambda>j total. if Bit (bm i) j = UNUSED_BIT then total + PAGE_SIZE else total)
                        [0..<CHAR_BIT] total)
       [0..<unat MAX_PHYS_PAGE_BITMAP_INDEX] 0"

text \<open>
  The allocator object: \<open>InitEarlyPageAllocator\<close> builds it once in a static buffer (its address is the
  first argument), and \<open>GetEarlyPageAllocator\<close> hands out the pointer.
\<close>

record early_state = phys +
  isInitialized :: bool
  gEarlyPageAllocatorPtr :: u64

definition InitEarlyPageAllocator :: "u64 \<Rightarrow> MemoryInfo \<Rightarrow> early_state \<Rightarrow> early_state" where
  "InitEarlyPageAllocator earlyPageAllocatorBuffer info s =
     (let s1 = (if \<not> isInitialized s
                then (let p = ParseMemoryInfo info (phys.truncate s)
                      in s\<lparr>PhysicalMemoryPageBitmap := PhysicalMemoryPageBitmap p,
                           ParseMemoryInfo_called := ParseMemoryInfo_called p,
                           gEarlyPageAllocatorPtr := earlyPageAllocatorBuffer\<rparr>)
                else s)
      in s1\<lparr>isInitialized := True\<rparr>)"

definition GetEarlyPageAllocator :: "early_state \<Rightarrow> u64" where
  "GetEarlyPageAllocator s = gEarlyPageAllocatorPtr s"

subsection \<open>Free pages and the invariant\<close>

definition free_pages :: "byte_array \<Rightarrow> nat set" where
  "free_pages bm = {p. page_free bm p}"

definition bitmap_ok :: "byte_array \<Rightarrow> bool" where
  "bitmap_ok bm \<longleftrightarrow> \<not> page_free bm 0 \<and> bm BITMAP_BYTES = 0xFF"

definition page_addr :: "nat \<Rightarrow> u64" where
  "page_addr p = of_nat (p * 4096)"

text \<open>A small bitmap for concrete instances: pages 1 to 4 are free, everything else is in use.\<close>

definition example_bitmap :: byte_array where
  "example_bitmap = (\<lambda>i. if i = 0 then 0xE1 else 0xFF)"

lemmas alloc_eval = AllocatePage_size_def AllocatePage_def AllocatePage_bytes.simps
  AllocatePage_bits.simps FindAvailableAddress_def FindAvailableAddress_loop.simps pages_for_def
  BITMAP_INDEX_BIT_TO_PAGE_ADDRESS_def Bit_def PAGE_SIZE_def CHAR_BIT_def

lemma unat_BITMAP_INDEX [simp]:
  assumes "n < 2 ^ 52"
  shows "BITMAP_INDEX_BIT_TO_PAGE_ADDRESS (of_nat (n div CHAR_BIT)) (of_nat (n mod CHAR_BIT)) = page_addr n"
proof -
  have "of_nat (n div 8) * 8 + of_nat (n mod 8) = (of_nat n :: u64)"
    by (metis (no_types) div_mult_mod_eq of_nat_add of_nat_mult of_nat_numeral)
  then have "(of_nat (n div 8) * 8 + of_nat (n mod 8)) * 4096 = (of_nat n * 4096 :: u64)" by simp
  then show ?thesis
    by (simp add: BITMAP_INDEX_BIT_TO_PAGE_ADDRESS_def page_addr_def page_consts algebra_simps)
qed

lemma unat_page_addr [simp]: "p < 2 ^ 52 \<Longrightarrow> unat (page_addr p) = p * 4096"
  unfolding page_addr_def by (rule unat_of_nat_nowrap) simp

lemma page_addr_eq_0 [simp]: "p < 2 ^ 52 \<Longrightarrow> page_addr p = 0 \<longleftrightarrow> p = 0"
  by (simp add: word_unat_eq_iff)

lemma page_addr_inj: "p < 2 ^ 52 \<Longrightarrow> q < 2 ^ 52 \<Longrightarrow> page_addr p = page_addr q \<longleftrightarrow> p = q"
  by (simp add: word_unat_eq_iff)

lemma TOTAL_PAGES_less [simp]: "p < TOTAL_PAGES \<Longrightarrow> p < 4503599627370496"
  by (simp add: page_consts)

subsection \<open>Single pages\<close>

declare AllocatePage_bits.simps [simp del] AllocatePage_bytes.simps [simp del]
  FindAvailableAddress_loop.simps [simp del]

lemma AllocatePage_bits_Some:
  "AllocatePage_bits v j = Some k \<Longrightarrow> j \<le> k \<and> k < CHAR_BIT \<and> \<not> Bit v k \<and> (\<forall>l. j \<le> l \<and> l < k \<longrightarrow> Bit v l)"
proof (induction v j rule: AllocatePage_bits.induct)
  case (1 v j)
  show ?case
  proof (cases "j < CHAR_BIT \<and> Bit v j")
    case True
    with 1 have "j + 1 \<le> k \<and> k < CHAR_BIT \<and> \<not> Bit v k \<and> (\<forall>l. j + 1 \<le> l \<and> l < k \<longrightarrow> Bit v l)"
      by (auto simp: AllocatePage_bits.simps [of v j])
    with True show ?thesis by (metis Suc_eq_plus1 Suc_leD not_less_eq_eq le_antisym)
  next
    case False
    with 1 show ?thesis by (auto simp: AllocatePage_bits.simps [of v j] split: if_splits)
  qed
qed

lemma AllocatePage_bits_None:
  "AllocatePage_bits v j = None \<Longrightarrow> j \<le> l \<Longrightarrow> l < CHAR_BIT \<Longrightarrow> Bit v l"
proof (induction v j rule: AllocatePage_bits.induct)
  case (1 v j)
  then show ?case
    by (cases "j = l") (auto simp: AllocatePage_bits.simps [of v j] AllocatePage_bits.simps [of v l]
        split: if_splits)
qed

lemma AllocatePage_bytes_Some:
  "AllocatePage_bytes bm i = Some (a, b) \<Longrightarrow>
     i \<le> a \<and> a < BITMAP_BYTES \<and> b < CHAR_BIT \<and> \<not> Bit (bm a) b \<and>
     (\<forall>p. i * CHAR_BIT \<le> p \<and> p < a * CHAR_BIT + b \<longrightarrow> bit_at bm p)"
proof (induction bm i rule: AllocatePage_bytes.induct)
  case (1 bm i)
  then have i: "i < BITMAP_BYTES"
    by (auto simp: AllocatePage_bytes.simps [of bm i] page_consts split: if_splits)
  show ?case
  proof (cases "AllocatePage_bits (bm i) 0")
    case None
    with 1 i have IH: "i + 1 \<le> a \<and> a < BITMAP_BYTES \<and> b < CHAR_BIT \<and> \<not> Bit (bm a) b \<and>
        (\<forall>p. (i + 1) * CHAR_BIT \<le> p \<and> p < a * CHAR_BIT + b \<longrightarrow> bit_at bm p)"
      by (auto simp: AllocatePage_bytes.simps [of bm i] page_consts)
    have "bit_at bm p" if "i * CHAR_BIT \<le> p" "p < (i + 1) * CHAR_BIT" for p
    proof -
      have "p div CHAR_BIT = i" using that by (simp add: CHAR_BIT_def div_nat_eqI)
      then show ?thesis
        using AllocatePage_bits_None [OF None, of "p mod CHAR_BIT"] by (simp add: bit_at_def CHAR_BIT_def)
    qed
    with IH show ?thesis by (metis Suc_eq_plus1 Suc_leD not_le)
  next
    case (Some j)
    with 1 i have ab: "a = i" "b = j" by (auto simp: AllocatePage_bytes.simps [of bm i] page_consts)
    note bits = AllocatePage_bits_Some [OF Some]
    have "bit_at bm p" if "i * CHAR_BIT \<le> p" "p < i * CHAR_BIT + j" for p
    proof -
      have dv: "p div CHAR_BIT = i" using that bits by (simp add: CHAR_BIT_def div_nat_eqI)
      then have "p mod CHAR_BIT = p - i * CHAR_BIT" by (simp flip: minus_div_mult_eq_mod)
      with dv that bits show ?thesis by (simp add: bit_at_def)
    qed
    with bits i ab show ?thesis by auto
  qed
qed

lemma AllocatePage_bytes_None:
  "AllocatePage_bytes bm i = None \<Longrightarrow> i * CHAR_BIT \<le> p \<Longrightarrow> p < TOTAL_PAGES \<Longrightarrow> bit_at bm p"
proof (induction bm i rule: AllocatePage_bytes.induct)
  case (1 bm i)
  then have i: "i < BITMAP_BYTES" by (simp add: page_consts)
  with 1 have n: "AllocatePage_bits (bm i) 0 = None"
    by (auto simp: AllocatePage_bytes.simps [of bm i] page_consts split: option.splits)
  show ?case
  proof (cases "p < (i + 1) * CHAR_BIT")
    case True
    then have "p div CHAR_BIT = i" using 1 by (simp add: CHAR_BIT_def div_nat_eqI)
    then show ?thesis
      using AllocatePage_bits_None [OF n, of "p mod CHAR_BIT"] by (simp add: bit_at_def CHAR_BIT_def)
  next
    case False
    with 1 i n show ?thesis by (auto simp: AllocatePage_bytes.simps [of bm i] page_consts)
  qed
qed

text \<open>
  \<open>AllocatePage()\<close> takes the lowest free page, marks it and nothing else, and fails exactly when no
  page is free.
\<close>

lemma AllocatePage_none: "free_pages bm = {} \<Longrightarrow> AllocatePage bm = (0, bm)"
proof -
  assume e: "free_pages bm = {}"
  have "AllocatePage_bytes bm 0 = None"
  proof (rule ccontr)
    assume "AllocatePage_bytes bm 0 \<noteq> None"
    then obtain a b where "AllocatePage_bytes bm 0 = Some (a, b)" by auto
    from AllocatePage_bytes_Some [OF this] have "page_free bm (a * CHAR_BIT + b)"
      by (auto simp: page_free_def bit_at_def page_consts)
    with e show False by (auto simp: free_pages_def)
  qed
  then show ?thesis by (simp add: AllocatePage_def)
qed

lemma AllocatePage_some:
  assumes "free_pages bm \<noteq> {}"
  obtains p where "page_free bm p" and "\<forall>q<p. \<not> page_free bm q"
    and "AllocatePage bm = (page_addr p, set_run bm p 1 True)"
proof -
  obtain q where q: "page_free bm q" using assms by (auto simp: free_pages_def)
  have "AllocatePage_bytes bm 0 \<noteq> None"
  proof
    assume "AllocatePage_bytes bm 0 = None"
    from AllocatePage_bytes_None [OF this, of q] q show False by (simp add: page_free_def)
  qed
  then obtain a b where ab: "AllocatePage_bytes bm 0 = Some (a, b)" by auto
  define p where "p = a * CHAR_BIT + b"
  note s = AllocatePage_bytes_Some [OF ab]
  have dm: "p div CHAR_BIT = a" "p mod CHAR_BIT = b" using s by (auto simp: p_def CHAR_BIT_def)
  have free: "page_free bm p"
    using s dm by (auto simp: page_free_def bit_at_def p_def page_consts)
  moreover have "\<forall>q<p. \<not> page_free bm q" using s by (auto simp: page_free_def p_def)
  moreover have "AllocatePage bm = (page_addr p, set_run bm p 1 True)"
    using unat_BITMAP_INDEX [of p] free dm
    by (simp add: AllocatePage_def ab set_run_1 [simplified] page_free_def)
  ultimately show thesis by (rule that)
qed

lemma free_pages_set_run:
  "free_pages (set_run bm s n f) =
     (if f then free_pages bm - {s..<s + n} else free_pages bm \<union> ({s..<s + n} \<inter> {..<TOTAL_PAGES}))"
  by (auto simp: free_pages_def page_free_def bit_at_set_run split: if_splits)

lemma bitmap_ok_set_run:
  assumes "bitmap_ok bm" and "s + n \<le> TOTAL_PAGES" and "f \<or> 0 < s"
  shows "bitmap_ok (set_run bm s n f)"
  using assms by (auto simp: bitmap_ok_def page_free_def bit_at_set_run page_consts set_run_outside)

subsection \<open>Runs of pages\<close>

text \<open>\<open>free_run bm n s\<close>: \<open>n\<close> clear bits from bit \<open>s\<close> on.\<close>

definition free_run :: "byte_array \<Rightarrow> nat \<Rightarrow> nat \<Rightarrow> bool" where
  "free_run bm n s \<longleftrightarrow> (\<forall>p. s \<le> p \<and> p < s + n \<longrightarrow> \<not> bit_at bm p)"

text \<open>What the search knows of the positions it has passed: no run starts before the run of clear bits it is counting.\<close>

lemma no_run_at_used:
  assumes "bit_at bm i" and "run \<le> i" and "run < n" and "\<forall>s<i - run. \<not> free_run bm n s"
  shows "\<forall>s<i + 1. \<not> free_run bm n s"
proof (intro allI impI)
  fix s assume s: "s < i + 1"
  show "\<not> free_run bm n s"
  proof (cases "s < i - run")
    case False
    then have "s \<le> i \<and> i < s + n" using s assms(2,3) by linarith
    with assms(1) show ?thesis by (auto simp: free_run_def)
  qed (use assms(4) in blast)
qed

lemma FindAvailableAddress_loop_found:
  assumes "i < tot" and "\<not> bit_at bm i" and "run + 1 = n" and "run \<le> i" and "tot < 2 ^ 52" and "\<forall>p. i - run \<le> p \<and> p < i \<longrightarrow> \<not> bit_at bm p"
  shows "FindAvailableAddress_loop bm tot n i run = page_addr (i - run)" "i - run + n \<le> tot" "free_run bm n (i - run)"
proof -
  have s: "i - (n - 1) = i - run" using assms(3) by simp
  show "FindAvailableAddress_loop bm tot n i run = page_addr (i - run)"
    using assms(1-3,5) unat_BITMAP_INDEX [of "i - run"]
    by (auto simp: FindAvailableAddress_loop.simps [of bm tot n i run] bit_at_def Let_def s)
  show "i - run + n \<le> tot" using assms(1,3,4) by linarith
  have "\<not> bit_at bm p" if "i - run \<le> p" "p < i - run + n" for p
    using assms(2-4,6) that by (cases "p = i") auto
  then show "free_run bm n (i - run)" by (simp add: free_run_def)
qed

lemma FindAvailableAddress_loop_spec:
  assumes "run \<le> i" and "run < n" and "tot < 2 ^ 52"
    and "\<forall>p. i - run \<le> p \<and> p < i \<longrightarrow> \<not> bit_at bm p"
    and "\<forall>s<i - run. \<not> (free_run bm n s)"
  shows "(\<exists>s. FindAvailableAddress_loop bm tot n i run = page_addr s \<and> s + n \<le> tot \<and> free_run bm n s \<and>
             (\<forall>t < s. \<not> free_run bm n t)) \<or>
         (FindAvailableAddress_loop bm tot n i run = 0 \<and> (\<forall>s. s + n \<le> tot \<longrightarrow> \<not> free_run bm n s))"
  using assms
proof (induction bm tot n i run rule: FindAvailableAddress_loop.induct)
  case (1 bm tot n i run)
  note simps = FindAvailableAddress_loop.simps [of bm tot n i run]
  consider (over) "\<not> i < tot" | (used) "i < tot" "bit_at bm i" | (found) "i < tot" "\<not> bit_at bm i" "run + 1 = n"
    | (more) "i < tot" "\<not> bit_at bm i" "run + 1 \<noteq> n" by blast
  then show ?case
  proof cases
    case over
    have "\<not> free_run bm n s" if "s + n \<le> tot" for s
    proof -
      have "s < i - run" using that over "1.prems"(2) by linarith
      with "1.prems"(5) show ?thesis by blast
    qed
    with over show ?thesis by (simp add: simps)
  next
    case used
    then have "FindAvailableAddress_loop bm tot n i run = FindAvailableAddress_loop bm tot n (i + 1) 0"
      and b: "Bit (bm (i div CHAR_BIT)) (i mod CHAR_BIT) \<noteq> UNUSED_BIT" by (simp_all add: simps bit_at_def Let_def)
    moreover have "\<forall>s<i + 1 - 0. \<not> free_run bm n s" using no_run_at_used [OF used(2) "1.prems"(1,2,5)] by simp
    moreover have "\<forall>p. i + 1 - 0 \<le> p \<and> p < i + 1 \<longrightarrow> \<not> bit_at bm p" and "0 < n" using "1.prems"(2) by auto
    ultimately show ?thesis using "1.IH"(2) [OF used(1) refl refl b] "1.prems"(3) by simp
  next
    case found
    from FindAvailableAddress_loop_found [OF this "1.prems"(1,3,4)] "1.prems"(5) show ?thesis by blast
  next
    case more
    then have eq: "FindAvailableAddress_loop bm tot n i run = FindAvailableAddress_loop bm tot n (i + 1) (run + 1)"
      and b: "Bit (bm (i div CHAR_BIT)) (i mod CHAR_BIT) = UNUSED_BIT" by (simp_all add: simps bit_at_def Let_def)
    have "\<forall>p. i - run \<le> p \<and> p < i + 1 \<longrightarrow> \<not> bit_at bm p" using "1.prems"(4) more(2) by (metis Suc_eq_plus1 less_Suc_eq)
    moreover have "i + 1 - (run + 1) = i - run" by simp
    ultimately show ?thesis using "1.IH"(1) [OF more(1) refl refl b more(3)] "1.prems" more(3) eq by auto
  qed
qed

lemma FindAvailableAddress_cases:
  assumes "n = unat pageCount" and "0 < n"
  shows "(\<exists>s. FindAvailableAddress bm pageCount = page_addr s \<and> s + n \<le> TOTAL_PAGES + CHAR_BIT \<and>
            free_run bm n s \<and> (\<forall>t < s. \<not> free_run bm n t)) \<or>
         (FindAvailableAddress bm pageCount = 0 \<and>
            (\<forall>s. s + n \<le> TOTAL_PAGES + CHAR_BIT \<longrightarrow> \<not> free_run bm n s))"
proof -
  have nz: "pageCount \<noteq> 0" using assms by auto
  show ?thesis
  proof (cases "16777224 < n")
    case True
    then have "FindAvailableAddress bm pageCount = 0"
      using nz assms by (simp add: FindAvailableAddress_def word_less_nat_alt CHAR_BIT_def)
    with True show ?thesis by (simp add: page_consts)
  next
    case False
    then have "FindAvailableAddress bm pageCount = FindAvailableAddress_loop bm 16777224 n 0 0"
      using nz assms by (simp add: FindAvailableAddress_def word_less_nat_alt CHAR_BIT_def)
    with FindAvailableAddress_loop_spec [of 0 0 n 16777224 bm] assms show ?thesis
      by (simp add: page_consts)
  qed
qed

text \<open>With the byte behind the bitmap full, a free run lies inside the bitmap.\<close>

lemma free_run_inside:
  assumes "bm BITMAP_BYTES = 0xFF" and "free_run bm n s" and "s + n \<le> TOTAL_PAGES + CHAR_BIT" and "0 < n"
  shows "s + n \<le> TOTAL_PAGES"
proof (rule ccontr)
  assume "\<not> s + n \<le> TOTAL_PAGES"
  define q where "q = s + n - 1"
  have q: "TOTAL_PAGES \<le> q" "q < TOTAL_PAGES + CHAR_BIT" "s \<le> q" "q < s + n"
    using \<open>\<not> s + n \<le> TOTAL_PAGES\<close> assms(3,4) by (auto simp: q_def)
  then have "q div CHAR_BIT = BITMAP_BYTES" by (simp add: page_consts div_nat_eqI)
  moreover have "(0xFF :: u8) = - 1" by simp
  then have "Bit 0xFF (q mod CHAR_BIT)" by (simp only: Bit_iff bit_minus_1_iff) (simp add: CHAR_BIT_def)
  ultimately have "bit_at bm q" using assms(1) by (simp add: bit_at_def)
  with assms(2) q show False by (auto simp: free_run_def)
qed

lemma free_run_iff_pages:
  "s + n \<le> TOTAL_PAGES \<Longrightarrow> free_run bm n s \<longleftrightarrow> {s..<s + n} \<subseteq> free_pages bm"
  by (auto simp: free_run_def free_pages_def page_free_def)

lemma FindAvailableAddress_ok:
  assumes "bitmap_ok bm" and "n = unat pageCount" and "0 < n"
  shows "(\<exists>s. FindAvailableAddress bm pageCount = page_addr s \<and> 0 < s \<and> s + n \<le> TOTAL_PAGES \<and>
            {s..<s + n} \<subseteq> free_pages bm \<and> (\<forall>t < s. \<not> {t..<t + n} \<subseteq> free_pages bm)) \<or>
         (FindAvailableAddress bm pageCount = 0 \<and> (\<nexists>s. {s..<s + n} \<subseteq> free_pages bm))"
proof -
  have le: "s + n \<le> TOTAL_PAGES" if "{s..<s + n} \<subseteq> free_pages bm" for s
  proof -
    have "s + n - 1 \<in> {s..<s + n}" using assms(3) by auto
    with that have "s + n - 1 \<in> free_pages bm" by blast
    then show ?thesis by (auto simp: free_pages_def page_free_def)
  qed
  have zero: "0 \<notin> free_pages bm" using assms(1) by (simp add: bitmap_ok_def free_pages_def)
  from FindAvailableAddress_cases [OF assms(2,3), of bm] show ?thesis
  proof (elim disjE exE conjE)
    fix s assume s: "FindAvailableAddress bm pageCount = page_addr s" "s + n \<le> TOTAL_PAGES + CHAR_BIT"
      "free_run bm n s" "\<forall>t < s. \<not> free_run bm n t"
    have "s + n \<le> TOTAL_PAGES" using assms s by (intro free_run_inside) (auto simp: bitmap_ok_def)
    moreover from this have "{s..<s + n} \<subseteq> free_pages bm" using s free_run_iff_pages by blast
    moreover from this have "0 < s" using zero assms(3) by (metis atLeastLessThan_iff bot_nat_0.not_eq_extremum le_refl less_add_same_cancel1 subsetD)
    moreover have "\<forall>t < s. \<not> {t..<t + n} \<subseteq> free_pages bm" using s(4) le free_run_iff_pages by blast
    ultimately show ?thesis using s(1) by blast
  next
    assume z: "FindAvailableAddress bm pageCount = 0"
      and none: "\<forall>s. s + n \<le> TOTAL_PAGES + CHAR_BIT \<longrightarrow> \<not> free_run bm n s"
    have "\<not> {s..<s + n} \<subseteq> free_pages bm" for s
      using none le [of s] free_run_iff_pages [of s n bm] by (auto simp: trans_le_add1)
    with z show ?thesis by blast
  qed
qed

lemma pages_for_eq: "unat (pages_for sz) = (unat sz + 4095) div 4096"
proof -
  have d: "unat sz div 4096 < 4503599627370496" by (simp add: less_mult_imp_div_less)
  have "sz mod PAGE_SIZE = 0 \<longleftrightarrow> unat sz mod 4096 = 0"
    by (simp add: word_unat_eq_iff unat_mod PAGE_SIZE_def)
  moreover have "unat (sz div PAGE_SIZE) = unat sz div 4096" by (simp add: unat_div PAGE_SIZE_def)
  moreover from this d have "unat (sz div PAGE_SIZE + 1) = unat sz div 4096 + 1"
    by (subst unat_add_nowrap) auto
  moreover have "(unat sz + 4095) div 4096 = (if unat sz mod 4096 = 0 then unat sz div 4096 else unat sz div 4096 + 1)"
    by (simp add: div_add1_eq [of "unat sz" 4095]) (auto simp: div_if)
  ultimately show ?thesis by (simp add: pages_for_def)
qed

lemma SetBitRange_addr:
  assumes "unat a div 4096 = s" and "s + unat cnt \<le> TOTAL_PAGES"
  shows "SetBitRange bm MAX_PHYS_PAGE_BITMAP_INDEX (ADDRESS_TO_PAGE_BITMAP_ARRAY_INDEX a)
    (unat (ADDRESS_TO_PAGE_BITMAP_BIT_OFFSET a)) cnt f = set_run bm s (unat cnt) f"
  using assms by (subst SetBitRange_eq) (simp_all add: page_consts)

lemma SetBitRange_pages:
  assumes "s + unat cnt \<le> TOTAL_PAGES"
  shows "SetBitRange bm MAX_PHYS_PAGE_BITMAP_INDEX (ADDRESS_TO_PAGE_BITMAP_ARRAY_INDEX (page_addr s))
    (unat (ADDRESS_TO_PAGE_BITMAP_BIT_OFFSET (page_addr s))) cnt f = set_run bm s (unat cnt) f"
  using assms by (intro SetBitRange_addr) (simp_all add: page_consts)

subsection \<open>The contract of IPageAllocator\<close>

text \<open>\<open>n\<close> single-page allocations in a row: the pointers and the final state.\<close>

primrec alloc_many :: "('s \<Rightarrow> u64 \<times> 's) \<Rightarrow> nat \<Rightarrow> 's \<Rightarrow> u64 list \<times> 's" where
  "alloc_many alloc 0 s = ([], s)"
| "alloc_many alloc (Suc n) s =
     (let (p, s') = alloc s; (ps, s'') = alloc_many alloc n s' in (p # ps, s''))"

text \<open>
  \<open>FREE\<close> is the set of free page numbers, \<open>ok\<close> the provider's invariant. A client may allocate one
  page or the pages for a byte count, and may give back what it got.
\<close>

locale page_allocator =
  fixes alloc :: "'s \<Rightarrow> u64 \<times> 's"
    and alloc_size :: "u64 \<Rightarrow> 's \<Rightarrow> u64 \<times> 's"
    and free :: "u64 \<Rightarrow> 's \<Rightarrow> 's"
    and free_size :: "u64 \<Rightarrow> u64 \<Rightarrow> 's \<Rightarrow> 's"
    and avail :: "'s \<Rightarrow> u64"
    and FREE :: "'s \<Rightarrow> nat set"
    and ok :: "'s \<Rightarrow> bool"
  assumes FREE_range: "ok s \<Longrightarrow> FREE s \<subseteq> {1..<TOTAL_PAGES}"
    and alloc_none: "ok s \<Longrightarrow> FREE s = {} \<Longrightarrow> alloc s = (0, s)"
    and alloc_some: "ok s \<Longrightarrow> FREE s \<noteq> {} \<Longrightarrow>
          \<exists>s'. alloc s = (page_addr (Min (FREE s)), s') \<and> ok s' \<and> FREE s' = FREE s - {Min (FREE s)}"
    and alloc_size_none: "ok s \<Longrightarrow> 0 < sz \<Longrightarrow>
          \<nexists>p. {p..<p + unat (pages_for sz)} \<subseteq> FREE s \<Longrightarrow> alloc_size sz s = (0, s)"
    and alloc_size_some: "ok s \<Longrightarrow> 0 < sz \<Longrightarrow> {q..<q + unat (pages_for sz)} \<subseteq> FREE s \<Longrightarrow>
          \<exists>p s'. alloc_size sz s = (page_addr p, s') \<and> p \<le> q \<and>
                 {p..<p + unat (pages_for sz)} \<subseteq> FREE s \<and>
                 ok s' \<and> FREE s' = FREE s - {p..<p + unat (pages_for sz)}"
    and free_page: "ok s \<Longrightarrow> p \<in> {1..<TOTAL_PAGES} \<Longrightarrow>
          ok (free (page_addr p) s) \<and> FREE (free (page_addr p) s) = insert p (FREE s)"
    and free_pages_size: "ok s \<Longrightarrow> 0 < p \<Longrightarrow> p + unat (pages_for sz) \<le> TOTAL_PAGES \<Longrightarrow>
          ok (free_size (page_addr p) sz s) \<and>
          FREE (free_size (page_addr p) sz s) = FREE s \<union> {p..<p + unat (pages_for sz)}"
    and avail_eq: "ok s \<Longrightarrow> unat (avail s) = 4096 * card (FREE s)"
begin

lemma finite_FREE: "ok s \<Longrightarrow> finite (FREE s)"
  using FREE_range finite_subset by blast

lemma alloc_cases:
  assumes "ok s"
  obtains (none) "FREE s = {}" "alloc s = (0, s)"
  | (some) p s' where "p \<in> FREE s" "0 < p" "p < TOTAL_PAGES" "alloc s = (page_addr p, s')" "ok s'"
      "FREE s' = FREE s - {p}"
proof (cases "FREE s = {}")
  case True
  with alloc_none [OF assms] show thesis by (intro none) auto
next
  case False
  have "Min (FREE s) \<in> FREE s" using False finite_FREE [OF assms] by (rule Min_in [rotated])
  moreover from this have "0 < Min (FREE s)" "Min (FREE s) < TOTAL_PAGES"
    using FREE_range [OF assms] by auto
  ultimately show thesis using alloc_some [OF assms False] some by blast
qed

lemma alloc_result:
  assumes "ok s" and "alloc s = (a, s')"
  shows "ok s' \<and> FREE s' \<subseteq> FREE s \<and>
    (a \<noteq> 0 \<longrightarrow> (\<exists>p. a = page_addr p \<and> p \<in> FREE s \<and> FREE s' = FREE s - {p})) \<and>
    (a = 0 \<longleftrightarrow> FREE s = {})"
  using assms(1)
proof (cases rule: alloc_cases)
  case (some p t)
  have eq: "a = page_addr p" "s' = t" using some(4) assms(2) by simp_all
  have "a \<noteq> 0" using some(2,3) by (simp add: eq(1))
  moreover have "FREE s \<noteq> {}" using some(1) by blast
  moreover have "\<exists>p. a = page_addr p \<and> p \<in> FREE s \<and> FREE s' = FREE s - {p}"
    using some(1,6) eq by blast
  ultimately show ?thesis using some(5,6) eq(2) by simp
next
  case none
  then show ?thesis using assms by simp
qed

text \<open>
  Every non-null pointer of a sequence of allocations names a page that was free at the start, and no
  page is handed out twice.
\<close>

lemma alloc_many_result:
  "ok s \<Longrightarrow> alloc_many alloc n s = (ps, s') \<Longrightarrow>
     ok s' \<and> length ps = n \<and> distinct (filter (\<lambda>a. a \<noteq> 0) ps) \<and>
     (\<exists>Q. set (filter (\<lambda>a. a \<noteq> 0) ps) = page_addr ` Q \<and> Q \<subseteq> FREE s \<and> FREE s' = FREE s - Q)"
proof (induction n arbitrary: s ps)
  case 0
  then show ?case by (auto intro!: exI [of _ "{}"])
next
  case (Suc n)
  obtain a t where a: "alloc s = (a, t)" by (cases "alloc s")
  obtain qs u where q: "alloc_many alloc n t = (qs, u)" by (cases "alloc_many alloc n t")
  have ps: "ps = a # qs" "s' = u" using Suc.prems(2) a q by auto
  note r = alloc_result [OF Suc.prems(1) a]
  from Suc.IH [of t qs] r q ps obtain Q where Q: "ok u" "length qs = n"
    "distinct (filter (\<lambda>a. a \<noteq> 0) qs)"
    "set (filter (\<lambda>a. a \<noteq> 0) qs) = page_addr ` Q" "Q \<subseteq> FREE t" "FREE u = FREE t - Q" by blast
  show ?case
  proof (cases "a = 0")
    case True
    with Q r ps show ?thesis by (auto intro!: exI [of _ Q])
  next
    case False
    then obtain p where p: "a = page_addr p" "p \<in> FREE s" "FREE t = FREE s - {p}" using r by blast
    have small: "x < TOTAL_PAGES" if "x \<in> FREE s" for x using that FREE_range [OF Suc.prems(1)] by auto
    have "page_addr p \<notin> page_addr ` Q"
      using Q(5) p small by (auto simp: page_addr_inj)
    with Q p ps False have "distinct (filter (\<lambda>a. a \<noteq> 0) ps)"
      and "set (filter (\<lambda>a. a \<noteq> 0) ps) = page_addr ` insert p Q" by auto
    moreover have "insert p Q \<subseteq> FREE s" "FREE s' = FREE s - insert p Q" using Q p ps by auto
    ultimately show ?thesis using Q(1,2) ps by (metis length_Cons)
  qed
qed

text \<open>Allocating and freeing the same page restores the set of free pages.\<close>

lemma alloc_free:
  assumes "ok s" and "alloc s = (a, s')" and "a \<noteq> 0"
  shows "ok (free a s') \<and> FREE (free a s') = FREE s"
  using assms(1)
proof (cases rule: alloc_cases)
  case (some p t)
  have eq: "a = page_addr p" "s' = t" using some(4) assms(2) by simp_all
  from free_page [of s' p] some eq show ?thesis by (simp add: insert_absorb)
next
  case none
  then show ?thesis using assms by simp
qed

lemma alloc_size_ok:
  assumes "ok s" and "0 < sz" and "alloc_size sz s = (a, s')"
  shows "ok s'"
proof (cases "\<exists>q. {q..<q + unat (pages_for sz)} \<subseteq> FREE s")
  case True
  with alloc_size_some [OF assms(1,2)] assms(3) show ?thesis by fastforce
next
  case False
  with alloc_size_none [OF assms(1,2)] assms show ?thesis by simp
qed

lemma alloc_size_free_size:
  assumes "ok s" and "0 < sz" and "alloc_size sz s = (a, s')" and "a \<noteq> 0"
  shows "ok (free_size a sz s') \<and> FREE (free_size a sz s') = FREE s"
proof -
  define n where "n = unat (pages_for sz)"
  have "\<exists>q. {q..<q + n} \<subseteq> FREE s"
    using alloc_size_none [OF assms(1,2)] assms(3,4) by (auto simp: n_def)
  then obtain q where "{q..<q + n} \<subseteq> FREE s" by blast
  from alloc_size_some [OF assms(1,2) this [unfolded n_def]] assms(3) obtain p where p: "a = page_addr p"
    "{p..<p + n} \<subseteq> FREE s" "ok s'" "FREE s' = FREE s - {p..<p + n}" by (auto simp: n_def)
  have "0 < n" using assms(2) unfolding n_def pages_for_eq
    by (simp add: word_less_nat_alt div_greater_zero_iff)
  then have "p \<in> FREE s" "p + n - 1 \<in> FREE s" using p(2) by auto
  then have "0 < p" "p + n - 1 < TOTAL_PAGES" using FREE_range [OF assms(1)] by auto
  then have "0 < p" "p + n \<le> TOTAL_PAGES" by auto
  with free_pages_size [OF p(3), of p sz] p show ?thesis by (auto simp: n_def)
qed

end

subsection \<open>The bitmap meets the contract\<close>

lemma fold_count:
  "fold (\<lambda>j t. if P j then t + c else t) [0..<n] t = (t :: u64) + of_nat (card {j. j < n \<and> P j}) * c"
proof (induction n)
  case (Suc n)
  have "{j. j < Suc n \<and> P j} = (if P n then insert n {j. j < n \<and> P j} else {j. j < n \<and> P j})"
    by (auto simp: less_Suc_eq)
  then show ?case by (simp add: Suc algebra_simps)
qed simp

lemma card_bits_Suc:
  "card {p. p < Suc n * CHAR_BIT \<and> Q p} =
     card {p. p < n * CHAR_BIT \<and> Q p} + card {j. j < CHAR_BIT \<and> Q (n * CHAR_BIT + j)}"
proof -
  have "{p. p < Suc n * CHAR_BIT \<and> Q p} =
      {p. p < n * CHAR_BIT \<and> Q p} \<union> (\<lambda>j. n * CHAR_BIT + j) ` {j. j < CHAR_BIT \<and> Q (n * CHAR_BIT + j)}"
    (is "?L = ?A \<union> ?B")
  proof (rule set_eqI)
    fix p
    show "p \<in> ?L \<longleftrightarrow> p \<in> ?A \<union> ?B"
    proof (cases "p < n * CHAR_BIT")
      case False
      then obtain k where "p = n * CHAR_BIT + k" by (metis le_Suc_ex not_less)
      then show ?thesis by (auto simp: image_iff)
    qed auto
  qed
  moreover have "card ?B = card {j. j < CHAR_BIT \<and> Q (n * CHAR_BIT + j)}"
    by (rule card_image) (simp add: inj_on_def)
  moreover have "?A \<inter> ?B = {}" by auto
  ultimately show ?thesis by (simp add: card_Un_disjoint)
qed

lemma GetAvailableSize_eq: "GetAvailableSize bm = of_nat (card (free_pages bm)) * PAGE_SIZE"
proof -
  have "fold (\<lambda>i total. fold (\<lambda>j total. if Bit (bm i) j = UNUSED_BIT then total + PAGE_SIZE else total)
             [0..<CHAR_BIT] total) [0..<n] 0
      = of_nat (card {p. p < n * CHAR_BIT \<and> \<not> bit_at bm p}) * PAGE_SIZE" for n
  proof (induction n)
    case (Suc n)
    have "{j. j < CHAR_BIT \<and> \<not> bit_at bm (n * CHAR_BIT + j)} = {j. j < CHAR_BIT \<and> Bit (bm n) j = UNUSED_BIT}"
      by (auto simp: bit_at_def CHAR_BIT_def)
    then show ?case using Suc card_bits_Suc [of n "\<lambda>p. \<not> bit_at bm p"]
      by (simp add: fold_count algebra_simps)
  qed simp
  moreover have "{p. p < unat MAX_PHYS_PAGE_BITMAP_INDEX * CHAR_BIT \<and> \<not> bit_at bm p} = free_pages bm"
    by (auto simp: free_pages_def page_free_def page_consts)
  ultimately show ?thesis by (simp add: GetAvailableSize_def)
qed

lemma free_pages_range: "bitmap_ok bm \<Longrightarrow> free_pages bm \<subseteq> {1..<TOTAL_PAGES}"
  by (auto simp: bitmap_ok_def free_pages_def Suc_le_eq page_free_def intro: gr0I)

lemma FreePage_eq: "p < TOTAL_PAGES \<Longrightarrow> FreePage (page_addr p) bm = set_run bm p 1 False"
  by (simp add: FreePage_def Let_def set_run_1 [simplified])

lemma card_free_pages_le: "card (free_pages bm) \<le> TOTAL_PAGES"
proof -
  have "free_pages bm \<subseteq> {..<TOTAL_PAGES}" by (auto simp: free_pages_def page_free_def)
  from card_mono [OF _ this] show ?thesis by simp
qed

lemma AllocatePage_Min:
  assumes "bitmap_ok bm" and "free_pages bm \<noteq> {}"
  shows "Min (free_pages bm) \<in> free_pages bm"
    and "AllocatePage bm = (page_addr (Min (free_pages bm)), set_run bm (Min (free_pages bm)) 1 True)"
proof -
  have fin: "finite (free_pages bm)" using free_pages_range [OF assms(1)] finite_subset by blast
  obtain p where p: "page_free bm p" "\<forall>q<p. \<not> page_free bm q"
    "AllocatePage bm = (page_addr p, set_run bm p 1 True)"
    using AllocatePage_some [OF assms(2)] by blast
  have "Min (free_pages bm) = p"
    using p(1,2) fin by (intro Min_eqI) (auto simp: free_pages_def intro: leI)
  with p show "Min (free_pages bm) \<in> free_pages bm"
    and "AllocatePage bm = (page_addr (Min (free_pages bm)), set_run bm (Min (free_pages bm)) 1 True)"
    by (auto simp: free_pages_def)
qed

lemma AllocatePage_size_some:
  assumes ok: "bitmap_ok bm" and sz: "0 < sz" and n: "n = unat (pages_for sz)"
    and q: "{q..<q + n} \<subseteq> free_pages bm"
  shows "\<exists>p. AllocatePage_size sz bm = (page_addr p, set_run bm p n True) \<and> p \<le> q \<and> 0 < p \<and>
    p + n \<le> TOTAL_PAGES \<and> {p..<p + n} \<subseteq> free_pages bm"
proof (cases "n = 1")
  case True
  then have p1: "pages_for sz = 1" using n by (simp add: word_unat_eq_iff)
  have qf: "q \<in> free_pages bm" using q True by auto
  then have ne: "free_pages bm \<noteq> {}" by blast
  note m = AllocatePage_Min [OF ok ne]
  have "Min (free_pages bm) \<le> q"
    using qf free_pages_range [OF ok] finite_subset by (intro Min_le) blast+
  moreover have "0 < Min (free_pages bm)" "Min (free_pages bm) + 1 \<le> TOTAL_PAGES"
    using m(1) free_pages_range [OF ok] by auto
  ultimately show ?thesis
    using m True p1 by (intro exI [of _ "Min (free_pages bm)"]) (auto simp: AllocatePage_size_def)
next
  case False
  have pos: "0 < n" using sz unfolding n pages_for_eq
    by (simp add: word_less_nat_alt div_greater_zero_iff)
  from FindAvailableAddress_ok [OF ok n pos] q obtain s where
    s: "FindAvailableAddress bm (pages_for sz) = page_addr s" "0 < s" "s + n \<le> TOTAL_PAGES"
      "{s..<s + n} \<subseteq> free_pages bm" "\<forall>t < s. \<not> {t..<t + n} \<subseteq> free_pages bm" by blast
  have "s \<le> q" using s(5) q by (meson not_le)
  moreover have "page_addr s \<noteq> 0" using s(2,3) pos by (simp add: page_consts)
  moreover have "pages_for sz \<noteq> 1" using False n by (auto simp: word_unat_eq_iff)
  ultimately show ?thesis
    using s SetBitRange_pages [of s "pages_for sz" bm True] n
    by (intro exI [of _ s]) (simp add: AllocatePage_size_def Let_def)
qed

lemma AllocatePage_size_none:
  assumes ok: "bitmap_ok bm" and sz: "0 < sz" and none: "\<nexists>p. {p..<p + unat (pages_for sz)} \<subseteq> free_pages bm"
  shows "AllocatePage_size sz bm = (0, bm)"
proof (cases "pages_for sz = 1")
  case True
  with none have "free_pages bm = {}" by fastforce
  with True show ?thesis by (simp add: AllocatePage_size_def AllocatePage_none)
next
  case False
  have "0 < unat (pages_for sz)" using sz unfolding pages_for_eq
    by (simp add: word_less_nat_alt div_greater_zero_iff)
  with FindAvailableAddress_ok [OF ok refl this] none have "FindAvailableAddress bm (pages_for sz) = 0" by blast
  with False show ?thesis by (simp add: AllocatePage_size_def)
qed

interpretation early: page_allocator AllocatePage AllocatePage_size FreePage FreePage_size
  GetAvailableSize free_pages bitmap_ok
proof (unfold_locales, goal_cases)
  case (1 s)
  then show ?case by (rule free_pages_range)
next
  case (2 s)
  then show ?case by (simp add: AllocatePage_none)
next
  case (3 s)
  note m = AllocatePage_Min [OF 3]
  have "Min (free_pages s) + 1 \<le> TOTAL_PAGES" using m(1) free_pages_range [OF 3(1)] by auto
  with m 3(1) show ?case
    by (auto simp: free_pages_set_run simp del: One_nat_def intro!: bitmap_ok_set_run)
next
  case (4 s sz)
  then show ?case by (rule AllocatePage_size_none)
next
  case (5 s sz q)
  from AllocatePage_size_some [OF 5(1,2) refl 5(3)] 5(1) show ?case
    by (fastforce simp: free_pages_set_run intro: bitmap_ok_set_run)
next
  case (6 s p)
  then show ?case
    by (auto simp: FreePage_eq free_pages_set_run simp del: One_nat_def intro!: bitmap_ok_set_run)
next
  case (7 s p sz)
  then have "FreePage_size (page_addr p) sz s = set_run s p (unat (pages_for sz)) False"
    using SetBitRange_pages [of p "pages_for sz" s False] by (simp add: FreePage_size_def Let_def)
  with 7 show ?case by (auto simp: free_pages_set_run intro!: bitmap_ok_set_run)
next
  case (8 s)
  have "card (free_pages s) * 4096 < 2 ^ 64" "card (free_pages s) < 2 ^ 64"
    using card_free_pages_le [of s] by (simp_all add: page_consts)
  then show ?case by (simp add: GetAvailableSize_eq PAGE_SIZE_def unat_mult_nowrap unat_of_nat_nowrap)
qed

subsection \<open>Properties\<close>

lemma example_bitmap_ok: "bitmap_ok example_bitmap"
  by (simp add: bitmap_ok_def example_bitmap_def page_free_def bit_at_def BITMAP_BYTES_def alloc_eval)

lemma bit_FF: "b < 8 \<Longrightarrow> bit (0xFF :: u8) b"
proof -
  have "(0xFF :: u8) = - 1" by simp
  then show "b < 8 \<Longrightarrow> bit (0xFF :: u8) b" by (simp only: bit_minus_1_iff) simp
qed

lemma example_free_pages: "free_pages example_bitmap = {1, 2, 3, 4}"
proof -
  have b: "p \<in> free_pages example_bitmap \<longleftrightarrow> p < 8 \<and> \<not> bit (0xE1 :: u8) p" for p
  proof (cases "p < 8")
    case True
    then show ?thesis
      by (simp add: free_pages_def page_free_def bit_at_def example_bitmap_def Bit_iff page_consts)
  next
    case False
    then have "p div 8 \<noteq> 0" by simp
    then have "example_bitmap (p div 8) = 0xFF" by (simp add: example_bitmap_def)
    then have "\<not> page_free example_bitmap p"
      using bit_FF [of "p mod 8"] by (simp add: page_free_def bit_at_def Bit_iff CHAR_BIT_def)
    with False show ?thesis by (simp add: free_pages_def)
  qed
  have "(p < 8 \<and> \<not> bit (0xE1 :: u8) p) \<longleftrightarrow> p \<in> {1, 2, 3, 4}" for p
  proof (cases "p < 8")
    case True
    then have "p \<in> {0, 1, 2, 3, 4, 5, 6, 7}" by auto
    then show ?thesis by (elim insertE) simp_all
  qed auto
  with b show ?thesis by blast
qed

text \<open>
  C1. \<open>AllocatePage()\<close> on a bitmap whose invariant holds: with a free page left it returns the address
  of the lowest one, that page is no longer free, every other page keeps its status and the invariant
  still holds; without one it returns \<open>nullptr\<close> and changes nothing.
\<close>

theorem AllocatePage_correct:
  assumes "bitmap_ok bm"
  shows "if free_pages bm = {} then AllocatePage bm = (0, bm)
         else \<exists>bm'. AllocatePage bm = (page_addr (Min (free_pages bm)), bm') \<and>
                    free_pages bm' = free_pages bm - {Min (free_pages bm)} \<and> bitmap_ok bm'"
  using early.alloc_none [OF assms] early.alloc_some [OF assms] by auto

theorem AllocatePage_correct_witness:
  "bitmap_ok example_bitmap \<and> fst (AllocatePage example_bitmap) = page_addr 1"
proof -
  have "Min (free_pages example_bitmap) = 1" by (simp add: example_free_pages)
  with AllocatePage_correct [OF example_bitmap_ok] example_bitmap_ok show ?thesis
    by (auto simp: example_free_pages split: if_splits)
qed



text \<open>
  However many single pages are allocated in a row, the non-null results are pairwise different
  and address exactly the pages that stopped being free, all of them free at the start; the
  invariant survives.
\<close>

lemma AllocatePage_sequence_disjoint:
  assumes "bitmap_ok bm" and "alloc_many AllocatePage n bm = (ps, bm')"
  shows "distinct (filter (\<lambda>a. a \<noteq> 0) ps) \<and> length ps = n \<and> bitmap_ok bm' \<and>
    (\<exists>Q. set (filter (\<lambda>a. a \<noteq> 0) ps) = page_addr ` Q \<and> Q \<subseteq> free_pages bm \<and>
         free_pages bm' = free_pages bm - Q)"
  using early.alloc_many_result [OF assms] by blast

lemma AllocatePage_sequence_disjoint_example:
  "length (fst (alloc_many AllocatePage 2 example_bitmap)) = 2 \<and>
   distinct (filter (\<lambda>a. a \<noteq> 0) (fst (alloc_many AllocatePage 2 example_bitmap)))"
  using AllocatePage_sequence_disjoint [OF example_bitmap_ok, of 2
      "fst (alloc_many AllocatePage 2 example_bitmap)" "snd (alloc_many AllocatePage 2 example_bitmap)"]
  by simp

text \<open>
  C26. Freeing what was allocated restores the allocator: \<open>FreePage(p, size)\<close> after a successful
  \<open>AllocatePage(size)\<close> gives back exactly the pages that were taken, and so does \<open>FreePage(p)\<close> after
  \<open>AllocatePage()\<close>.
\<close>

theorem allocate_free_roundtrip:
  assumes "bitmap_ok bm" and "0 < sz"
    and "AllocatePage_size sz bm = (a, bm')" and "a \<noteq> 0"
    and "AllocatePage bm = (c, bm'')" and "c \<noteq> 0"
  shows "bitmap_ok (FreePage_size a sz bm') \<and> free_pages (FreePage_size a sz bm') = free_pages bm \<and>
    bitmap_ok (FreePage c bm'') \<and> free_pages (FreePage c bm'') = free_pages bm"
  using early.alloc_size_free_size [OF assms(1-4)] early.alloc_free [OF assms(1,5,6)] by blast

theorem allocate_free_roundtrip_witness:
  "free_pages (FreePage_size (fst (AllocatePage_size 5000 example_bitmap)) 5000
       (snd (AllocatePage_size 5000 example_bitmap))) = {1, 2, 3, 4}"
proof -
  have nz: "fst (AllocatePage_size 5000 example_bitmap) \<noteq> 0" "fst (AllocatePage example_bitmap) \<noteq> 0"
    by (simp_all add: alloc_eval example_bitmap_def)
  have "0 < (5000 :: u64)" by simp
  from allocate_free_roundtrip [OF example_bitmap_ok this prod.collapse [symmetric] nz(1)
      prod.collapse [symmetric] nz(2)]
  show ?thesis by (simp add: example_free_pages)
qed

text \<open>\<open>GetAvailableSize\<close> is the number of free pages times the page size.\<close>

lemma GetAvailableSize_correct: "unat (GetAvailableSize bm) = 4096 * card (free_pages bm)"
proof -
  have "card (free_pages bm) * 4096 < 2 ^ 64" "card (free_pages bm) < 2 ^ 64"
    using card_free_pages_le [of bm] by (simp_all add: page_consts)
  then show ?thesis
    by (simp add: GetAvailableSize_eq PAGE_SIZE_def unat_mult_nowrap unat_of_nat_nowrap)
qed

text \<open>
  The run search looks one byte beyond the bitmap: with every page in use and a zero byte behind
  the bitmap, a request of two to eight pages returns the address 64 GiB and marks nothing, so that
  the next request gets the same address.
\<close>

lemma AllocatePage_size_beyond_bitmap:
  assumes "free_pages bm = {}" and "bm BITMAP_BYTES = 0"
    and "unat (pages_for sz) \<in> {2..8}"
  shows "AllocatePage_size sz bm = (0x1000000000, bm)"
proof -
  define n where "n = unat (pages_for sz)"
  have n: "2 \<le> n" "n \<le> 8" using assms(3) by (auto simp: n_def)
  have used: "bit_at bm p" if "p < TOTAL_PAGES" for p
    using that assms(1) by (auto simp: free_pages_def page_free_def)
  have behind: "\<not> bit_at bm p" if "TOTAL_PAGES \<le> p" "p < TOTAL_PAGES + 8" for p
  proof -
    have "p div 8 = BITMAP_BYTES" using that by (intro div_nat_eqI) (auto simp: page_consts)
    with assms(2) show ?thesis by (simp add: bit_at_def Bit_iff CHAR_BIT_def)
  qed
  have run: "free_run bm n TOTAL_PAGES" using behind n by (auto simp: free_run_def)
  have nolow: "\<not> free_run bm n s" if "s < TOTAL_PAGES" for s
    using used [OF that] n by (auto simp: free_run_def)
  have fits: "TOTAL_PAGES + n \<le> TOTAL_PAGES + CHAR_BIT" using n by (simp add: CHAR_BIT_def)
  have "0 < n" using n by simp
  from FindAvailableAddress_cases [OF n_def this, of bm] run fits obtain s where
    s: "FindAvailableAddress bm (pages_for sz) = page_addr s" "free_run bm n s" "\<forall>t < s. \<not> free_run bm n t"
    by blast
  have "s = TOTAL_PAGES" using nolow s(2,3) run by (metis linorder_neqE_nat)
  with s(1) have "FindAvailableAddress bm (pages_for sz) = page_addr TOTAL_PAGES" by simp
  moreover have "page_addr TOTAL_PAGES = 0x1000000000" by (simp add: page_addr_def page_consts)
  moreover have "SetBitRange bm MAX_PHYS_PAGE_BITMAP_INDEX (ADDRESS_TO_PAGE_BITMAP_ARRAY_INDEX 0x1000000000)
      (unat (ADDRESS_TO_PAGE_BITMAP_BIT_OFFSET 0x1000000000)) (pages_for sz) USED_BIT = bm"
    using n by (subst SetBitRange_eq) (simp_all add: n_def page_consts)
  moreover have "pages_for sz \<noteq> 1" using n by (auto simp: n_def)
  ultimately show ?thesis by (simp add: AllocatePage_size_def)
qed

lemma AllocatePage_size_beyond_bitmap_example:
  "fst (AllocatePage_size 8192 (\<lambda>i. if i = BITMAP_BYTES then 0 else 0xFF)) = 0x1000000000"
proof -
  let ?bm = "\<lambda>i. if i = BITMAP_BYTES then 0 else 0xFF :: u8"
  have "bit_at ?bm p" if "p < TOTAL_PAGES" for p
  proof -
    have "p div 8 \<noteq> BITMAP_BYTES" using that by (simp add: page_consts)
    then show ?thesis using bit_FF [of "p mod 8"] by (simp add: bit_at_def Bit_iff CHAR_BIT_def)
  qed
  then have "free_pages ?bm = {}" by (auto simp: free_pages_def page_free_def)
  then have "AllocatePage_size 8192 ?bm = (0x1000000000, ?bm)"
    by (rule AllocatePage_size_beyond_bitmap) (simp_all add: pages_for_eq)
  then show ?thesis by simp
qed

text \<open>
  \<open>InitEarlyPageAllocator\<close> on a memory map whose regions are well formed, with a full byte behind
  the bitmap, establishes the invariant of the allocator and publishes the allocator object; a second
  call changes nothing.
\<close>

lemma InitEarlyPageAllocator_establishes:
  assumes "\<not> isInitialized s" and "\<not> ParseMemoryInfo_called s"
    and "\<forall>i<unat (FreeRegionCount info). region_wf (FreeMemory info i)"
    and "\<forall>i<unat (FreeRegionCount info). \<not> region_stray (FreeMemory info i)"
    and "PhysicalMemoryPageBitmap s BITMAP_BYTES = 0xFF"
  shows "bitmap_ok (PhysicalMemoryPageBitmap (InitEarlyPageAllocator buf info s)) \<and>
    GetEarlyPageAllocator (InitEarlyPageAllocator buf info s) = buf \<and>
    InitEarlyPageAllocator buf' info' (InitEarlyPageAllocator buf info s) = InitEarlyPageAllocator buf info s"
proof -
  let ?t = "phys.truncate s"
  have "PhysicalMemoryPageBitmap (ParseMemoryInfo info ?t) BITMAP_BYTES = 0xFF"
    using assms(3-5) by (auto simp: ParseMemoryInfo_def Let_def fold_ParseRegion_outside page_consts phys.defs)
  moreover have "\<not> page_free (PhysicalMemoryPageBitmap (ParseMemoryInfo info ?t)) 0"
    using assms(2,3) by (intro ParseMemoryInfo_page0) (auto simp: phys.defs)
  ultimately show ?thesis
    using assms(1) by (simp add: InitEarlyPageAllocator_def Let_def bitmap_ok_def GetEarlyPageAllocator_def)
qed

definition example_early :: early_state where
  "example_early = \<lparr>PhysicalMemoryPageBitmap = (\<lambda>_. 0xFF), ParseMemoryInfo_called = False,
     isInitialized = False, gEarlyPageAllocatorPtr = 0\<rparr>"

lemma InitEarlyPageAllocator_establishes_example:
  "bitmap_ok (PhysicalMemoryPageBitmap (InitEarlyPageAllocator 0x200000 example_info example_early))"
proof -
  have "\<not> isInitialized example_early" "\<not> ParseMemoryInfo_called example_early"
    "PhysicalMemoryPageBitmap example_early BITMAP_BYTES = 0xFF" by (simp_all add: example_early_def)
  with InitEarlyPageAllocator_establishes [of example_early, OF _ _ example_info_wf] show ?thesis by blast
qed

end
