(* ===== verification/NewDelete.thy ===== *)
theory NewDelete
  imports PageAllocator
begin

text \<open>
  \<open>Kernel/Core/Memory/NewDelete.cpp\<close>: the global \<open>operator new\<close> and \<open>operator delete\<close> over the early
  page allocator. The state is the page bitmap, the contents of memory and the global allocator
  pointer \<open>gEarlyAlloc\<close>; the virtual calls through that pointer are those of \<open>EarlyPageAllocator\<close>, the
  only implementation of \<open>IPageAllocator\<close> in the kernel. A panic (which prints and halts) and a call
  through a null allocator pointer are error values.

  \<open>AllocatedMemoryInfo\<close> is the packed 8-byte header: four magic characters and a 32-bit page count.
\<close>

unbundle bit_operations_syntax

subsection \<open>The operations\<close>

datatype kernel_error = Panic u32 u64 | NullDereference

definition STATUS_ERROR :: u32 where
  "STATUS_ERROR = 0x80000000"

record heap_state =
  hs_bitmap :: byte_array
  hs_mem :: memory
  gEarlyAlloc :: u64

definition InitOperatorNew :: "u64 \<Rightarrow> heap_state \<Rightarrow> heap_state" where
  "InitOperatorNew alloc h = h\<lparr>gEarlyAlloc := alloc\<rparr>"

record AllocatedMemoryInfo =
  Magic :: "u8 list"
  AllocatedPages :: u32

definition sizeof_AllocatedMemoryInfo :: u64 where
  "sizeof_AllocatedMemoryInfo = 8"

definition KMEM :: "u8 list" where
  "KMEM = map of_char ''KMEM''"

definition store_info :: "memory \<Rightarrow> u64 \<Rightarrow> AllocatedMemoryInfo \<Rightarrow> memory" where
  "store_info m a i = write_bytes m a (Magic i @ le_bytes 4 (ucast (AllocatedPages i)))"

definition load_info :: "memory \<Rightarrow> u64 \<Rightarrow> AllocatedMemoryInfo" where
  "load_info m a = \<lparr>Magic = read_bytes m a 4, AllocatedPages = read32 m (a + 4)\<rparr>"

definition operator_new :: "u64 \<Rightarrow> heap_state \<Rightarrow> kernel_error + u64 \<times> heap_state" where
  "operator_new sz h =
     (if gEarlyAlloc h = 0 then Inl NullDereference
      else
        let sizeAlloc = sz + sizeof_AllocatedMemoryInfo;
            (p, bm) = AllocatePage_size sizeAlloc (hs_bitmap h)
        in if p = 0 then Inl (Panic STATUS_ERROR 0)
           else Inr (p, h\<lparr>hs_bitmap := bm,
                          hs_mem := store_info (hs_mem h) (p - sizeof_AllocatedMemoryInfo)
                            \<lparr>Magic = KMEM, AllocatedPages = ucast (pages_for sizeAlloc)\<rparr>\<rparr>))"

definition operator_new_nothrow :: "u64 \<Rightarrow> heap_state \<Rightarrow> kernel_error + u64 \<times> heap_state" where
  "operator_new_nothrow sz h =
     (if gEarlyAlloc h = 0 then Inl NullDereference
      else
        let sizeAlloc = sz + sizeof_AllocatedMemoryInfo;
            (p, bm) = AllocatePage_size sizeAlloc (hs_bitmap h)
        in if p = 0 then Inr (0, h\<lparr>hs_bitmap := bm\<rparr>)
           else Inr (p, h\<lparr>hs_bitmap := bm,
                          hs_mem := store_info (hs_mem h) (p - sizeof_AllocatedMemoryInfo)
                            \<lparr>Magic = KMEM, AllocatedPages = ucast (pages_for sizeAlloc)\<rparr>\<rparr>))"

definition operator_delete :: "u64 \<Rightarrow> heap_state \<Rightarrow> kernel_error + heap_state" where
  "operator_delete p h =
     (let allocatedAddr = p - sizeof_AllocatedMemoryInfo;
          pg = AllocatedPages (load_info (hs_mem h) allocatedAddr)
      in if gEarlyAlloc h = 0 then Inl NullDereference
         else Inr (h\<lparr>hs_bitmap := FreePage_size allocatedAddr (ucast pg) (hs_bitmap h)\<rparr>))"

definition operator_delete_nothrow :: "u64 \<Rightarrow> heap_state \<Rightarrow> kernel_error + heap_state" where
  "operator_delete_nothrow p h =
     (let allocatedAddr = p - sizeof_AllocatedMemoryInfo
      in if \<not> CompareMemory (ptr_view (hs_mem h) allocatedAddr) (\<lambda>i. KMEM ! i) 4 then Inr h
         else
           let pg = AllocatedPages (load_info (hs_mem h) allocatedAddr)
           in if gEarlyAlloc h = 0 then Inl NullDereference
              else Inr (h\<lparr>hs_bitmap := FreePage_size allocatedAddr (ucast pg) (hs_bitmap h)\<rparr>))"

definition operator_new_array :: "u64 \<Rightarrow> heap_state \<Rightarrow> kernel_error + u64 \<times> heap_state" where
  "operator_new_array sz h = operator_new sz h"

definition operator_new_array_nothrow :: "u64 \<Rightarrow> heap_state \<Rightarrow> kernel_error + u64 \<times> heap_state" where
  "operator_new_array_nothrow sz h = operator_new_nothrow sz h"

definition operator_delete_array :: "u64 \<Rightarrow> heap_state \<Rightarrow> kernel_error + heap_state" where
  "operator_delete_array p h = operator_delete p h"

definition operator_delete_array_nothrow :: "u64 \<Rightarrow> heap_state \<Rightarrow> kernel_error + heap_state" where
  "operator_delete_array_nothrow p h = operator_delete p h"

definition operator_delete_sized :: "u64 \<Rightarrow> u64 \<Rightarrow> heap_state \<Rightarrow> kernel_error + heap_state" where
  "operator_delete_sized p sz h = operator_delete p h"

definition operator_delete_array_sized :: "u64 \<Rightarrow> u64 \<Rightarrow> heap_state \<Rightarrow> kernel_error + heap_state" where
  "operator_delete_array_sized p sz h = operator_delete_array p h"

text \<open>The invariant of the heap and the page interval a request of \<open>sz\<close> bytes takes.\<close>

definition heap_ok :: "heap_state \<Rightarrow> bool" where
  "heap_ok h \<longleftrightarrow> bitmap_ok (hs_bitmap h) \<and> gEarlyAlloc h \<noteq> 0"

definition new_pages :: "u64 \<Rightarrow> nat" where
  "new_pages sz = (unat (sz + sizeof_AllocatedMemoryInfo) + 4095) div 4096"

subsection \<open>The header\<close>

lemma length_KMEM [simp]: "length KMEM = 4"
  by (simp add: KMEM_def)

lemma store_info_split:
  assumes "length (Magic i) = 4"
  shows "read_bytes (store_info m a i) a 4 = Magic i"
    and "read_bytes (store_info m a i) (a + 4) 4 = le_bytes 4 (ucast (AllocatedPages i))"
proof -
  have u: "unat (of_nat k :: u64) = k" if "k < 4" for k using that by (intro unat_of_nat_nowrap) simp
  have v: "unat (4 + of_nat k :: u64) = 4 + k" if "k < 4" for k
    using that u [OF that] by (subst unat_add_nowrap) auto
  show "read_bytes (store_info m a i) a 4 = Magic i"
    using assms by (intro nth_equalityI) (auto simp: store_info_def write_bytes_def u nth_append)
  show "read_bytes (store_info m a i) (a + 4) 4 = le_bytes 4 (ucast (AllocatedPages i))"
    using assms
    by (intro nth_equalityI) (auto simp: store_info_def write_bytes_def v nth_append add.assoc)
qed

lemma load_store_info [simp]: "length (Magic i) = 4 \<Longrightarrow> load_info (store_info m a i) a = i"
  by (simp add: load_info_def store_info_split read32_def mem_simps)

lemma CompareMemory_KMEM:
  "CompareMemory (ptr_view m a) (\<lambda>i. KMEM ! i) 4 \<longleftrightarrow> Magic (load_info m a) = KMEM"
  by (auto simp: CompareMemory_iff load_info_def list_eq_iff_nth_eq ptr_view_def)

lemma store_info_outside:
  assumes "length (Magic i) = 4" and "8 \<le> unat (x - a)"
  shows "store_info m a i x = m x"
  using assms by (simp add: store_info_def write_bytes_def)

subsection \<open>Allocation\<close>

lemma new_pages_eq: "new_pages sz = unat (pages_for (sz + sizeof_AllocatedMemoryInfo))"
  by (simp add: new_pages_def pages_for_eq)

text \<open>What a successful \<open>operator new\<close> leaves behind: page interval, header and bitmap.\<close>

lemma operator_new_Inr:
  assumes ok: "heap_ok h" and pos: "sz + sizeof_AllocatedMemoryInfo \<noteq> 0"
    and res: "operator_new sz h = Inr (p, h')"
  obtains q where "p = page_addr q" and "0 < q" and "q + new_pages sz \<le> TOTAL_PAGES"
    and "{q..<q + new_pages sz} \<subseteq> free_pages (hs_bitmap h)"
    and "h' = h\<lparr>hs_bitmap := set_run (hs_bitmap h) q (new_pages sz) True,
                hs_mem := store_info (hs_mem h) (p - sizeof_AllocatedMemoryInfo)
                  \<lparr>Magic = KMEM, AllocatedPages = of_nat (new_pages sz)\<rparr>\<rparr>"
proof -
  define sa where "sa = sz + sizeof_AllocatedMemoryInfo"
  have bm: "bitmap_ok (hs_bitmap h)" and ga: "gEarlyAlloc h \<noteq> 0" using ok by (auto simp: heap_ok_def)
  have sa0: "0 < sa" using pos by (simp add: sa_def word_gt_0)
  obtain a b where ab: "AllocatePage_size sa (hs_bitmap h) = (a, b)" by (cases "AllocatePage_size sa (hs_bitmap h)")
  have a: "a \<noteq> 0" "p = a" using res ga ab by (auto simp: operator_new_def sa_def Let_def split: if_splits)
  have "\<exists>q. {q..<q + unat (pages_for sa)} \<subseteq> free_pages (hs_bitmap h)"
    using AllocatePage_size_none [OF bm sa0] ab a by auto
  then obtain q where "{q..<q + unat (pages_for sa)} \<subseteq> free_pages (hs_bitmap h)" by blast
  from AllocatePage_size_some [OF bm sa0 refl this] ab obtain r where
    r: "a = page_addr r" "b = set_run (hs_bitmap h) r (new_pages sz) True" "0 < r"
      "r + new_pages sz \<le> TOTAL_PAGES" "{r..<r + new_pages sz} \<subseteq> free_pages (hs_bitmap h)"
    by (auto simp: new_pages_eq sa_def)
  have "h' = h\<lparr>hs_bitmap := b, hs_mem := store_info (hs_mem h) (p - sizeof_AllocatedMemoryInfo)
                  \<lparr>Magic = KMEM, AllocatedPages = of_nat (new_pages sz)\<rparr>\<rparr>"
    using res ga ab a by (auto simp: operator_new_def sa_def Let_def new_pages_eq split: if_splits)
  with r a that show thesis by blast
qed

lemma operator_new_Inl:
  assumes ok: "heap_ok h" and pos: "sz + sizeof_AllocatedMemoryInfo \<noteq> 0"
  shows "operator_new sz h = Inl e \<longleftrightarrow>
    e = Panic STATUS_ERROR 0 \<and> (\<nexists>q. {q..<q + new_pages sz} \<subseteq> free_pages (hs_bitmap h))"
proof -
  define sa where "sa = sz + sizeof_AllocatedMemoryInfo"
  have bm: "bitmap_ok (hs_bitmap h)" and ga: "gEarlyAlloc h \<noteq> 0" using ok by (auto simp: heap_ok_def)
  have sa0: "0 < sa" using pos by (simp add: sa_def word_gt_0)
  show ?thesis
  proof (cases "\<exists>q. {q..<q + unat (pages_for sa)} \<subseteq> free_pages (hs_bitmap h)")
    case True
    then obtain q where "{q..<q + unat (pages_for sa)} \<subseteq> free_pages (hs_bitmap h)" by blast
    from AllocatePage_size_some [OF bm sa0 refl this] obtain r b where
      "AllocatePage_size sa (hs_bitmap h) = (page_addr r, b)" "0 < r" "r \<le> TOTAL_PAGES" by auto
    moreover have "page_addr r \<noteq> 0" using calculation by (simp add: page_consts)
    ultimately have "\<exists>x. operator_new sz h = Inr x"
      using ga by (auto simp: operator_new_def Let_def sa_def)
    with True show ?thesis by (auto simp: new_pages_eq sa_def)
  next
    case False
    then have "AllocatePage_size sa (hs_bitmap h) = (0, hs_bitmap h)"
      by (intro AllocatePage_size_none [OF bm sa0])
    with False ga show ?thesis by (auto simp: operator_new_def Let_def new_pages_eq sa_def)
  qed
qed

subsection \<open>Deallocation\<close>

text \<open>
  \<open>operator delete\<close> looks for the header below the block, where \<open>operator new\<close> put it, and passes that
  address and the page count (as if it were a byte count) to the allocator. The page it frees is
  therefore the one below the block.
\<close>

lemma operator_delete_new:
  assumes ok: "heap_ok h" and pos: "sz + sizeof_AllocatedMemoryInfo \<noteq> 0"
    and res: "operator_new sz h = Inr (page_addr q, h')" and q: "q < TOTAL_PAGES"
  shows "operator_delete (page_addr q) h' =
    Inr (h'\<lparr>hs_bitmap := set_run (hs_bitmap h') (q - 1) ((new_pages sz + 4095) div 4096) False\<rparr>)"
proof -
  obtain r where r: "page_addr q = page_addr r" "0 < r" "r + new_pages sz \<le> TOTAL_PAGES"
    "h' = h\<lparr>hs_bitmap := set_run (hs_bitmap h) r (new_pages sz) True,
            hs_mem := store_info (hs_mem h) (page_addr q - sizeof_AllocatedMemoryInfo)
              \<lparr>Magic = KMEM, AllocatedPages = of_nat (new_pages sz)\<rparr>\<rparr>"
    using operator_new_Inr [OF ok pos res] by metis
  have rq: "r = q" using r(1,3) q by (subst (asm) page_addr_inj) (auto simp: page_consts)
  have pg: "AllocatedPages (load_info (hs_mem h') (page_addr q - sizeof_AllocatedMemoryInfo))
      = of_nat (new_pages sz)" by (simp add: r(4))
  have n32: "unat (ucast (of_nat (new_pages sz) :: u32) :: u64) = new_pages sz"
    using r(3) by (simp add: unat_ucast_up page_consts unat_of_nat_nowrap)
  have qa: "unat (page_addr q) = q * 4096" using q by simp
  then have "unat (page_addr q - sizeof_AllocatedMemoryInfo) = q * 4096 - 8"
    using r(2) rq by (subst unat_sub) (auto simp: sizeof_AllocatedMemoryInfo_def word_le_nat_alt)
  also have "\<dots> div 4096 = q - 1"
    using r(2) rq by (intro div_nat_eqI) auto
  finally have pre: "unat (page_addr q - sizeof_AllocatedMemoryInfo) div 4096 = q - 1" .
  have "(new_pages sz + 4095) div 4096 \<le> new_pages sz + 1" by (simp add: less_mult_imp_div_less less_Suc_eq_le [symmetric])
  then have "q - 1 + (new_pages sz + 4095) div 4096 \<le> TOTAL_PAGES" using r(2,3) rq by linarith
  with SetBitRange_addr [OF pre, of "pages_for (ucast (of_nat (new_pages sz) :: u32))" "hs_bitmap h'" False]
  have "FreePage_size (page_addr q - sizeof_AllocatedMemoryInfo) (ucast (of_nat (new_pages sz) :: u32)) (hs_bitmap h')
      = set_run (hs_bitmap h') (q - 1) ((new_pages sz + 4095) div 4096) False"
    by (simp add: FreePage_size_def Let_def pages_for_eq n32)
  moreover have "gEarlyAlloc h' \<noteq> 0" using ok by (simp add: r(4) heap_ok_def)
  ultimately show ?thesis by (simp add: operator_delete_def Let_def pg)
qed

lemma operator_delete_nothrow_eq:
  "operator_delete_nothrow p h =
     (if Magic (load_info (hs_mem h) (p - sizeof_AllocatedMemoryInfo)) = KMEM then operator_delete p h else Inr h)"
  by (simp add: operator_delete_nothrow_def operator_delete_def CompareMemory_KMEM Let_def)

lemma operator_new_nothrow_eq:
  "operator_new_nothrow sz h =
     (case operator_new sz h of
        Inl (Panic _ _) \<Rightarrow> Inr (0, h\<lparr>hs_bitmap := snd (AllocatePage_size (sz + sizeof_AllocatedMemoryInfo) (hs_bitmap h))\<rparr>)
      | r \<Rightarrow> r)"
  by (auto simp: operator_new_nothrow_def operator_new_def Let_def split: prod.splits)

definition example_heap :: heap_state where
  "example_heap = \<lparr>hs_bitmap = example_bitmap, hs_mem = (\<lambda>_. 0), gEarlyAlloc = 0x200000\<rparr>"

lemma example_heap_ok: "heap_ok example_heap"
  using example_bitmap_ok by (simp add: heap_ok_def example_heap_def)

lemma example_new: "operator_new 100 example_heap = Inr (page_addr 1, snd (projr (operator_new 100 example_heap)))"
  by (simp add: operator_new_def Let_def example_heap_def example_bitmap_def
      sizeof_AllocatedMemoryInfo_def alloc_eval page_addr_def)



text \<open>
  What \<open>operator delete\<close> gives back after \<open>operator new\<close> of at most 16 MiB: not the pages of the
  block, which stay taken, but the single page before it. (It passes the header's address, which lies
  in that page, and the page count where the allocator expects a byte count.)
\<close>

lemma operator_delete_frees_preceding_page:
  assumes "heap_ok h" and "sz + sizeof_AllocatedMemoryInfo \<noteq> 0"
    and "operator_new sz h = Inr (page_addr q, h')" and "q < TOTAL_PAGES" and "new_pages sz \<le> 4096"
  shows "\<exists>h''. operator_delete (page_addr q) h' = Inr h'' \<and> hs_mem h'' = hs_mem h' \<and>
    free_pages (hs_bitmap h'') = insert (q - 1) (free_pages (hs_bitmap h) - {q..<q + new_pages sz})"
proof -
  obtain r where r: "page_addr q = page_addr r" "0 < r" "r + new_pages sz \<le> TOTAL_PAGES"
    "h' = h\<lparr>hs_bitmap := set_run (hs_bitmap h) r (new_pages sz) True,
            hs_mem := store_info (hs_mem h) (page_addr q - sizeof_AllocatedMemoryInfo)
              \<lparr>Magic = KMEM, AllocatedPages = of_nat (new_pages sz)\<rparr>\<rparr>"
    using operator_new_Inr [OF assms(1-3)] by metis
  have rq: "r = q" using r(1,3) assms(4) by (subst (asm) page_addr_inj) (auto simp: page_consts)
  have "0 < new_pages sz"
    using assms(2) by (simp add: new_pages_def div_greater_zero_iff unat_gt_0 Suc_le_eq)
  then have one: "(new_pages sz + 4095) div 4096 = 1"
    using assms(5) by (intro div_nat_eqI) auto
  have "free_pages (set_run (hs_bitmap h') (q - 1) 1 False)
      = insert (q - 1) (free_pages (hs_bitmap h) - {q..<q + new_pages sz})"
    using r(2) rq assms(4) by (auto simp: free_pages_set_run r(4))
  with operator_delete_new [OF assms(1-4)] one show ?thesis by simp
qed

lemma operator_delete_frees_preceding_page_example:
  "\<exists>h' h''. operator_new 100 example_heap = Inr (page_addr 1, h') \<and>
     operator_delete (page_addr 1) h' = Inr h'' \<and> free_pages (hs_bitmap h'') = {0, 2, 3, 4}"
proof -
  have n: "new_pages 100 = 1" by (simp add: new_pages_def sizeof_AllocatedMemoryInfo_def)
  have p: "(100 :: u64) + sizeof_AllocatedMemoryInfo \<noteq> 0" by (simp add: sizeof_AllocatedMemoryInfo_def)
  have f: "insert (1 - 1) (free_pages (hs_bitmap example_heap) - {1..<1 + 1}) = {0, 2, 3, 4}"
    by (auto simp: example_heap_def example_free_pages)
  from operator_delete_frees_preceding_page [OF example_heap_ok p example_new] example_new
  show ?thesis unfolding n f [symmetric] by (auto simp: page_consts)
qed

text \<open>
  The non-throwing forms: \<open>new (std::nothrow)\<close> differs from \<open>new\<close> only in returning a null pointer
  where the other panics; the non-throwing \<open>delete\<close> is \<open>delete\<close> if the header carries the magic, and
  does nothing otherwise.
\<close>

lemma nothrow_forms:
  "operator_new_nothrow sz h =
     (case operator_new sz h of
        Inl (Panic _ _) \<Rightarrow> Inr (0, h\<lparr>hs_bitmap := snd (AllocatePage_size (sz + sizeof_AllocatedMemoryInfo) (hs_bitmap h))\<rparr>)
      | r \<Rightarrow> r) \<and>
   operator_delete_nothrow p h =
     (if Magic (load_info (hs_mem h) (p - sizeof_AllocatedMemoryInfo)) = KMEM then operator_delete p h else Inr h)"
  by (intro conjI operator_new_nothrow_eq operator_delete_nothrow_eq)

end
