(* ===== verification/Consoles.thy ===== *)
theory Consoles
  imports SerialPort FrameConsole NewDelete
begin

text \<open>
  The consoles of the kernel put together: \<open>Kernel/Include/Object/Interface/IOutputDevice.hpp\<close>,
  \<open>Kernel/Devices/Console/RedundantOutput.hpp\<close>, the owners in \<open>Kernel/Core/KernelConsole/KernelConsole.hpp\<close>,
  \<open>Kernel/Core/ErrorHandling/Panic.cpp\<close> and \<open>Kernel/Arch/x86_64/Utility/Halt.hpp\<close>.

  A device is the record of its virtual functions, over the state of all consoles: the UART with the
  interrupt flag, the heap with the memory that also holds the frame buffer, and the two static owners. An
  operation that waits for the UART forever has the value \<open>None\<close>. The sizes of the objects, which the ABI
  determines, are the parameter \<open>sz\<close>, and \<open>junk\<close> is what an uninitialised field holds.
\<close>

unbundle bit_operations_syntax

subsection \<open>State and interface\<close>

record console_state =
  uart :: uart_state
  heap :: heap_state
  in_critical :: bool
  console_owner :: "KernelConsole option"
  serial_owner :: "SerialConsole option"

record object_sizes =
  sizeof_KernelConsole :: u64
  sizeof_SerialConsole :: u64
  sizeof_Serial16550 :: u64
  sizeof_RedundantOutput :: u64

record 's IOutputDevice =
  dev_PutChar :: "u8 \<Rightarrow> 's \<Rightarrow> 's option"
  dev_PutString :: "u8 list \<Rightarrow> 's \<Rightarrow> 's option"
  dev_Flush :: "'s \<Rightarrow> 's option"
  dev_GetDeviceType :: "DeviceType"
  dev_Reset :: "'s \<Rightarrow> 's option"
  dev_Shutdown :: "'s \<Rightarrow> 's option"

text \<open>The text of a C string, up to its NUL.\<close>

definition cstr :: "string \<Rightarrow> u8 list" where
  "cstr str = map of_char (takeWhile (\<lambda>c. c \<noteq> CHR 0x00) str)"

subsection \<open>RedundantOutput\<close>

definition call_if :: "('d \<Rightarrow> 's \<Rightarrow> 's option) \<Rightarrow> 'd option \<Rightarrow> 's \<Rightarrow> 's option" where
  "call_if f p s = (case p of None \<Rightarrow> Some s | Some d \<Rightarrow> f d s)"

definition RedundantOutput_PutChar :: "'s IOutputDevice option \<Rightarrow> 's IOutputDevice option \<Rightarrow> u8 \<Rightarrow> 's \<Rightarrow> 's option" where
  "RedundantOutput_PutChar m_A m_B ch s =
     (case call_if (\<lambda>d. dev_PutChar d ch) m_A s of
        None \<Rightarrow> None
      | Some s1 \<Rightarrow> call_if (\<lambda>d. dev_PutChar d ch) m_B s1)"

definition RedundantOutput_PutString :: "'s IOutputDevice option \<Rightarrow> 's IOutputDevice option \<Rightarrow> u8 list \<Rightarrow> 's \<Rightarrow> 's option" where
  "RedundantOutput_PutString m_A m_B str s =
     (case call_if (\<lambda>d. dev_PutString d str) m_A s of
        None \<Rightarrow> None
      | Some s1 \<Rightarrow> call_if (\<lambda>d. dev_PutString d str) m_B s1)"

definition RedundantOutput_Flush :: "'s IOutputDevice option \<Rightarrow> 's IOutputDevice option \<Rightarrow> 's \<Rightarrow> 's option" where
  "RedundantOutput_Flush m_A m_B s =
     (case call_if dev_Flush m_A s of None \<Rightarrow> None | Some s1 \<Rightarrow> call_if dev_Flush m_B s1)"

definition RedundantOutput_GetDeviceType :: DeviceType where
  "RedundantOutput_GetDeviceType = CONSOLE"

definition RedundantOutput_Reset :: "'s IOutputDevice option \<Rightarrow> 's IOutputDevice option \<Rightarrow> 's \<Rightarrow> 's option" where
  "RedundantOutput_Reset m_A m_B s =
     (case call_if dev_Reset m_A s of None \<Rightarrow> None | Some s1 \<Rightarrow> call_if dev_Reset m_B s1)"

definition RedundantOutput_Shutdown :: "'s IOutputDevice option \<Rightarrow> 's IOutputDevice option \<Rightarrow> 's \<Rightarrow> 's option" where
  "RedundantOutput_Shutdown m_A m_B s =
     (case call_if dev_Shutdown m_A s of None \<Rightarrow> None | Some s1 \<Rightarrow> call_if dev_Shutdown m_B s1)"

definition RedundantOutput :: "'s IOutputDevice option \<Rightarrow> 's IOutputDevice option \<Rightarrow> 's IOutputDevice" where
  "RedundantOutput a b =
     \<lparr>dev_PutChar = RedundantOutput_PutChar a b, dev_PutString = RedundantOutput_PutString a b,
      dev_Flush = RedundantOutput_Flush a b, dev_GetDeviceType = RedundantOutput_GetDeviceType,
      dev_Reset = RedundantOutput_Reset a b, dev_Shutdown = RedundantOutput_Shutdown a b\<rparr>"

subsection \<open>The two devices\<close>

text \<open>An operation of the frame buffer console on the state; a call needs the object to exist.\<close>

definition on_frame :: "(KernelConsole \<Rightarrow> memory \<Rightarrow> KernelConsole \<times> memory) \<Rightarrow> console_state \<Rightarrow> console_state option" where
  "on_frame f s =
     (case console_owner s of
        None \<Rightarrow> None
      | Some c \<Rightarrow> (let (c', m') = f c (hs_mem (heap s))
                  in Some (s\<lparr>console_owner := Some c', heap := (heap s)\<lparr>hs_mem := m'\<rparr>\<rparr>)))"

definition on_serial :: "(SerialConsole \<Rightarrow> uart_state \<Rightarrow> (SerialConsole \<times> uart_state) option) \<Rightarrow> console_state \<Rightarrow> console_state option" where
  "on_serial f s =
     (case serial_owner s of
        None \<Rightarrow> None
      | Some d \<Rightarrow> (case f d (uart s) of None \<Rightarrow> None | Some (d', u') \<Rightarrow> Some (s\<lparr>serial_owner := Some d', uart := u'\<rparr>)))"

definition frame_device :: "console_state IOutputDevice" where
  "frame_device =
     \<lparr>dev_PutChar = \<lambda>ch. on_frame (PutChar ch), dev_PutString = \<lambda>str. on_frame (PutString str), dev_Flush = on_frame Flush,
      dev_GetDeviceType = CONSOLE, dev_Reset = on_frame Reset, dev_Shutdown = on_frame Shutdown\<rparr>"

definition serial_device :: "hardware \<Rightarrow> console_state IOutputDevice" where
  "serial_device hw =
     \<lparr>dev_PutChar = \<lambda>ch. on_serial (SerialConsole_PutChar hw ch), dev_PutString = \<lambda>str. on_serial (SerialConsole_PutString hw str),
      dev_Flush = on_serial (SerialConsole_Flush hw), dev_GetDeviceType = SERIAL, dev_Reset = on_serial SerialConsole_Reset,
      dev_Shutdown = on_serial SerialConsole_Shutdown\<rparr>"

subsection \<open>The owners\<close>

definition InitKernelConsole :: "object_sizes \<Rightarrow> GraphicInfo \<Rightarrow> console_state \<Rightarrow> kernel_error + console_state" where
  "InitKernelConsole sz info s =
     (if console_owner s = None
      then case operator_new (sizeof_KernelConsole sz) (heap s) of
             Inl e \<Rightarrow> Inl e
           | Inr (p, h) \<Rightarrow>
               (let (c, m') = KernelConsole_new info (hs_mem h)
                in Inr (s\<lparr>console_owner := Some c, heap := h\<lparr>hs_mem := m'\<rparr>\<rparr>))
      else Inr s)"

definition GetKernelConsole :: "console_state \<Rightarrow> console_state IOutputDevice option" where
  "GetKernelConsole s = (case console_owner s of None \<Rightarrow> None | Some c \<Rightarrow> Some frame_device)"

definition SerialConsole_new :: "hardware \<Rightarrow> object_sizes \<Rightarrow> u64 \<Rightarrow> console_state \<Rightarrow> kernel_error + SerialConsole \<times> console_state" where
  "SerialConsole_new hw sz junk s =
     (case operator_new (sizeof_Serial16550 sz) (heap s) of
        Inl e \<Rightarrow> Inl e
      | Inr (p, h) \<Rightarrow>
          (let (port, u') = run_state (Serial16550_probe hw junk 115200) (uart s)
           in Inr (\<lparr>m_Port = Some port\<rparr>, s\<lparr>heap := h, uart := u'\<rparr>)))"

definition InitSerialConsole :: "hardware \<Rightarrow> object_sizes \<Rightarrow> u64 \<Rightarrow> console_state \<Rightarrow> kernel_error + console_state" where
  "InitSerialConsole hw sz junk s =
     (if serial_owner s = None
      then case operator_new (sizeof_SerialConsole sz) (heap s) of
             Inl e \<Rightarrow> Inl e
           | Inr (p, h) \<Rightarrow>
               (case SerialConsole_new hw sz junk (s\<lparr>heap := h\<rparr>) of
                  Inl e \<Rightarrow> Inl e
                | Inr (d, s') \<Rightarrow> Inr (s'\<lparr>serial_owner := Some d\<rparr>))
      else Inr s)"

definition GetSerialConsole :: "hardware \<Rightarrow> console_state \<Rightarrow> console_state IOutputDevice option" where
  "GetSerialConsole hw s = (case serial_owner s of None \<Rightarrow> None | Some d \<Rightarrow> Some (serial_device hw))"

text \<open>The result is the address of the new object together with its virtual functions.\<close>

definition GetBootstrapConsole ::
  "hardware \<Rightarrow> object_sizes \<Rightarrow> console_state \<Rightarrow> kernel_error + (u64 \<times> console_state IOutputDevice) \<times> console_state" where
  "GetBootstrapConsole hw sz s =
     (case operator_new (sizeof_RedundantOutput sz) (heap s) of
        Inl e \<Rightarrow> Inl e
      | Inr (p, h) \<Rightarrow>
          Inr ((p, RedundantOutput (GetSerialConsole hw s) (GetKernelConsole s)), s\<lparr>heap := h\<rparr>))"

subsection \<open>Panic\<close>

definition enter_critical :: "console_state \<Rightarrow> console_state" where
  "enter_critical s =
     (let c = StartCriticalSection \<lparr>InCritical = in_critical s, flags = rflags (uart s)\<rparr>
      in s\<lparr>in_critical := InCritical c, uart := (uart s)\<lparr>rflags := flags c\<rparr>\<rparr>)"

text \<open>\<open>HaltProcessor\<close> never returns; its state is the one it sleeps in.\<close>

definition HaltProcessor :: "console_state \<Rightarrow> console_state" where
  "HaltProcessor s = s\<lparr>uart := (uart s)\<lparr>rflags := unset_bit IF_BIT (rflags (uart s))\<rparr>\<rparr>"

record source_location =
  fileName :: "string option"
  func :: "string option"
  line :: int

record panic_args =
  pa_status :: u32
  param1 :: u64
  param2 :: u64
  param3 :: u64
  param4 :: u64

text \<open>The strings that \<open>PanicEx\<close> prints, in order.\<close>

definition panic_report :: "panic_args \<Rightarrow> source_location \<Rightarrow> u8 list list" where
  "panic_report a loc =
     [cstr ''Panic! Status:'', cstr (ULongToHexString (ucast (pa_status a)))]
     @ (case fileName loc of None \<Rightarrow> [] | Some f \<Rightarrow> [cstr (CHR 0x0A # ''In file:''), cstr f])
     @ (if line loc \<ge> 0 then [cstr (CHR 0x0A # ''Line:''), cstr (ULongToHexString (word_of_int (line loc)))] else [])
     @ (case func loc of None \<Rightarrow> [] | Some f \<Rightarrow> [cstr (CHR 0x0A # ''Function:''), cstr f])
     @ [cstr (CHR 0x0A # ''Param1:''), cstr (ULongToHexString (param1 a)),
        cstr (CHR 0x0A # ''Param2:''), cstr (ULongToHexString (param2 a)),
        cstr (CHR 0x0A # ''Param3:''), cstr (ULongToHexString (param3 a)),
        cstr (CHR 0x0A # ''Param4:''), cstr (ULongToHexString (param4 a))]"

primrec print_strings :: "'s IOutputDevice \<Rightarrow> u8 list list \<Rightarrow> 's \<Rightarrow> 's option" where
  "print_strings con [] s = Some s"
| "print_strings con (x # xs) s = (case dev_PutString con x s of None \<Rightarrow> None | Some s1 \<Rightarrow> print_strings con xs s1)"

datatype panic_result = Halted console_state | Fault

definition print_panic :: "console_state IOutputDevice \<Rightarrow> panic_args \<Rightarrow> source_location \<Rightarrow> console_state \<Rightarrow> console_state option" where
  "print_panic con a loc s =
     (case dev_Reset con s of
        None \<Rightarrow> None
      | Some s1 \<Rightarrow> (case print_strings con (panic_report a loc) s1 of None \<Rightarrow> None | Some s2 \<Rightarrow> dev_Flush con s2))"

text \<open>
  The console is allocated with \<open>operator new\<close>, which itself panics when no page is left: \<open>new_loc\<close> is the
  source location of that panic, and the call is recursive.
\<close>

partial_function (option) PanicEx ::
  "hardware \<Rightarrow> object_sizes \<Rightarrow> source_location \<Rightarrow> panic_args \<Rightarrow> source_location \<Rightarrow> console_state \<Rightarrow> panic_result option" where
  "PanicEx hw sz new_loc a loc s =
     (case GetBootstrapConsole hw sz (enter_critical s) of
        Inl e \<Rightarrow>
          (case e of
             Panic st p \<Rightarrow>
               PanicEx hw sz new_loc \<lparr>pa_status = st, param1 = p, param2 = 0, param3 = 0, param4 = 0\<rparr> new_loc (enter_critical s)
           | NullDereference \<Rightarrow> Some Fault)
      | Inr r \<Rightarrow>
          (if fst (fst r) = 0 then Some (Halted (HaltProcessor (snd r)))
           else case print_panic (snd (fst r)) a loc (snd r) of None \<Rightarrow> None | Some s1 \<Rightarrow> Some (Halted (HaltProcessor s1))))"

subsection \<open>Two devices as one\<close>

text \<open>
  A device that copies to a screen: besides the bytes it sends, each operation acts on the part \<open>view\<close> of the
  state as the screen's own operation does.
\<close>

fun print_screen :: "(u8 \<Rightarrow> 'f \<Rightarrow> 'f) \<Rightarrow> (u8 list \<Rightarrow> 'f \<Rightarrow> 'f) \<Rightarrow> print_op \<Rightarrow> 'f \<Rightarrow> 'f" where
  "print_screen scr_char scr_string (PrintChar c) f = scr_char c f"
| "print_screen scr_char scr_string (PrintString cs) f = scr_string cs f"

locale mirrored_output = output_device put_char put_string out ready enc
  for put_char :: "u8 \<Rightarrow> 's \<Rightarrow> 's option"
    and put_string :: "u8 list \<Rightarrow> 's \<Rightarrow> 's option"
    and out :: "'s \<Rightarrow> u8 list"
    and ready :: "'s \<Rightarrow> bool"
    and enc :: "u8 \<Rightarrow> u8 list" +
  fixes view :: "'s \<Rightarrow> 'f"
    and scr_char :: "u8 \<Rightarrow> 'f \<Rightarrow> 'f"
    and scr_string :: "u8 list \<Rightarrow> 'f \<Rightarrow> 'f"
  assumes char_view: "ready s \<Longrightarrow> put_char c s = Some s' \<Longrightarrow> view s' = scr_char c (view s)"
    and string_view: "ready s \<Longrightarrow> put_string cs s = Some s' \<Longrightarrow> view s' = scr_string cs (view s)"
begin

lemma op_view: "ready s \<Longrightarrow> do_print put_char put_string x s = Some s' \<Longrightarrow> view s' = print_screen scr_char scr_string x (view s)"
  using char_view string_view by (cases x) auto

lemma all_view:
  "ready s \<Longrightarrow> print_all put_char put_string xs s = Some s' \<Longrightarrow> view s' = fold (print_screen scr_char scr_string) xs (view s)"
proof (induction xs arbitrary: s)
  case (Cons x xs)
  from op_law [OF Cons.prems(1), of x] obtain s1 where
    s1: "do_print put_char put_string x s = Some s1" "ready s1" by blast
  with Cons.IH [OF s1(2)] Cons.prems op_view [OF Cons.prems(1) s1(1)] show ?case by simp
qed simp

end

definition serial_out :: "console_state \<Rightarrow> u8 list" where
  "serial_out s = (case serial_owner s of None \<Rightarrow> [] | Some d \<Rightarrow> console_out (d, uart s))"

definition serial_ready :: "hardware \<Rightarrow> console_state \<Rightarrow> bool" where
  "serial_ready hw s \<longleftrightarrow> (case serial_owner s of None \<Rightarrow> False | Some d \<Rightarrow> console_ready hw (d, uart s))"

definition screen_view :: "console_state \<Rightarrow> KernelConsole \<times> memory" where
  "screen_view s = (the (console_owner s), hs_mem (heap s))"

text \<open>Both consoles are there and usable; \<open>b\<close> is the critical-section flag, which no device changes.\<close>

definition boot_ready :: "hardware \<Rightarrow> bool \<Rightarrow> console_state \<Rightarrow> bool" where
  "boot_ready hw b s \<longleftrightarrow> console_owner s \<noteq> None \<and> serial_ready hw s \<and> in_critical s = b"

abbreviation bootstrap_device :: "hardware \<Rightarrow> console_state IOutputDevice" where
  "bootstrap_device hw \<equiv> RedundantOutput (Some (serial_device hw)) (Some frame_device)"

text \<open>The frame buffer device changes the screen only.\<close>

lemma on_frame_ready:
  assumes "boot_ready hw b s"
  obtains s' where "on_frame f s = Some s'" "boot_ready hw b s'" "serial_out s' = serial_out s"
    "screen_view s' = (case screen_view s of (c, m) \<Rightarrow> f c m)" "uart s' = uart s"
proof -
  from assms obtain c where c: "console_owner s = Some c" by (auto simp: boot_ready_def)
  let ?r = "f c (hs_mem (heap s))"
  let ?s = "s\<lparr>console_owner := Some (fst ?r), heap := (heap s)\<lparr>hs_mem := snd ?r\<rparr>\<rparr>"
  have "on_frame f s = Some ?s" using c by (simp add: on_frame_def Let_def case_prod_beta)
  moreover have "boot_ready hw b ?s" using assms by (simp add: boot_ready_def serial_ready_def cong: option.case_cong)
  moreover have "serial_out ?s = serial_out s" by (simp add: serial_out_def cong: option.case_cong)
  moreover have "screen_view ?s = (case screen_view s of (c, m) \<Rightarrow> f c m)" using c by (simp add: screen_view_def)
  ultimately show thesis by (rule that) simp
qed

text \<open>An operation of the serial console that sends \<open>bs\<close>.\<close>

lemma on_serial_ready:
  assumes "boot_ready hw b s"
    and "\<And>d. console_ready hw (d, uart s) \<Longrightarrow>
      \<exists>d' u'. f d (uart s) = Some (d', u') \<and> console_ready hw (d', u') \<and> console_out (d', u') = console_out (d, uart s) @ bs"
  obtains s' where "on_serial f s = Some s'" "boot_ready hw b s'" "serial_out s' = serial_out s @ bs" "screen_view s' = screen_view s"
proof -
  from assms(1) obtain d where d: "serial_owner s = Some d" "console_ready hw (d, uart s)"
    by (auto simp: boot_ready_def serial_ready_def split: option.splits)
  from assms(2) [OF d(2)] obtain d' u' where
    "f d (uart s) = Some (d', u')" "console_ready hw (d', u')" "console_out (d', u') = console_out (d, uart s) @ bs" by blast
  with d assms(1) that show thesis
    by (auto simp: on_serial_def boot_ready_def serial_ready_def serial_out_def screen_view_def)
qed

lemma both_devices:
  assumes "boot_ready hw b s"
    and "\<And>d. console_ready hw (d, uart s) \<Longrightarrow>
      \<exists>d' u'. f d (uart s) = Some (d', u') \<and> console_ready hw (d', u') \<and> console_out (d', u') = console_out (d, uart s) @ bs"
  shows "\<exists>s'. (case on_serial f s of None \<Rightarrow> None | Some s1 \<Rightarrow> on_frame g s1) = Some s' \<and> boot_ready hw b s' \<and>
    serial_out s' = serial_out s @ bs \<and> screen_view s' = (case screen_view s of (c, m) \<Rightarrow> g c m)"
proof -
  obtain s1 where s1: "on_serial f s = Some s1" "boot_ready hw b s1" "serial_out s1 = serial_out s @ bs" "screen_view s1 = screen_view s"
    using on_serial_ready [where f = f and bs = bs, OF assms] by blast
  obtain s2 where "on_frame g s1 = Some s2" "boot_ready hw b s2" "serial_out s2 = serial_out s1"
    "screen_view s2 = (case screen_view s1 of (c, m) \<Rightarrow> g c m)"
    by (rule on_frame_ready [OF s1(2)])
  with s1 show ?thesis by auto
qed

lemmas RedundantOutput_defs = RedundantOutput_PutChar_def RedundantOutput_PutString_def RedundantOutput_Flush_def
  RedundantOutput_Reset_def RedundantOutput_Shutdown_def call_if_def frame_device_def serial_device_def

lemma bootstrap_PutChar:
  assumes "boot_ready hw b s"
  shows "\<exists>s'. dev_PutChar (bootstrap_device hw) c s = Some s' \<and> boot_ready hw b s' \<and> serial_out s' = serial_out s @ crlf c \<and>
    screen_view s' = (case screen_view s of (k, m) \<Rightarrow> PutChar c k m)"
  using both_devices [OF assms, of "SerialConsole_PutChar hw c" "crlf c" "PutChar c"]
    serial.char_law [of hw "(d, uart s)" c for d]
  by (force simp: RedundantOutput_def RedundantOutput_defs cong: option.case_cong)

lemma bootstrap_PutString:
  assumes "boot_ready hw b s"
  shows "\<exists>s'. dev_PutString (bootstrap_device hw) cs s = Some s' \<and> boot_ready hw b s' \<and>
    serial_out s' = serial_out s @ concat (map crlf cs) \<and>
    screen_view s' = (case screen_view s of (k, m) \<Rightarrow> PutString cs k m)"
  using both_devices [OF assms, of "SerialConsole_PutString hw cs" "concat (map crlf cs)" "PutString cs"]
    serial.string_law [of hw "(d, uart s)" cs for d]
  by (force simp: RedundantOutput_def RedundantOutput_defs cong: option.case_cong)

interpretation bootstrap: mirrored_output "dev_PutChar (bootstrap_device hw)" "dev_PutString (bootstrap_device hw)"
  serial_out "boot_ready hw b" crlf screen_view "\<lambda>c (k, m). PutChar c k m" "\<lambda>cs (k, m). PutString cs k m" for hw b
proof unfold_locales
  fix s c cs s'
  assume r: "boot_ready hw b s"
  show "\<exists>s'. dev_PutChar (bootstrap_device hw) c s = Some s' \<and> boot_ready hw b s' \<and> serial_out s' = serial_out s @ crlf c"
    using bootstrap_PutChar [OF r] by blast
  show "\<exists>s'. dev_PutString (bootstrap_device hw) cs s = Some s' \<and> boot_ready hw b s' \<and> serial_out s' = serial_out s @ concat (map crlf cs)"
    using bootstrap_PutString [OF r] by blast
  show "screen_view s' = (case screen_view s of (k, m) \<Rightarrow> PutChar c k m)" if "dev_PutChar (bootstrap_device hw) c s = Some s'"
    using bootstrap_PutChar [OF r, of c] that by auto
  show "screen_view s' = (case screen_view s of (k, m) \<Rightarrow> PutString cs k m)" if "dev_PutString (bootstrap_device hw) cs s = Some s'"
    using bootstrap_PutString [OF r, of cs] that by auto
qed

subsection \<open>Panic reports\<close>

lemma bootstrap_Reset:
  assumes "boot_ready hw b s"
  shows "\<exists>s'. dev_Reset (bootstrap_device hw) s = Some s' \<and> boot_ready hw b s' \<and> serial_out s' = serial_out s"
  using both_devices [OF assms, of SerialConsole_Reset "[]" Reset]
  by (fastforce simp: RedundantOutput_def RedundantOutput_defs SerialConsole_Reset_def cong: option.case_cong)

lemma Serial_Flush_ends:
  assumes "console_ready hw (d, u)"
  shows "\<exists>d' u'. SerialConsole_Flush hw d u = Some (d', u') \<and> console_ready hw (d', u') \<and> console_out (d', u') = console_out (d, u) @ []"
proof -
  from assms obtain p where p: "m_Port d = Some p" "m_IsReady p" "uart_live hw (line_status p)"
    by (auto simp: console_ready_def split: option.splits)
  then obtain n where "hw_in8 hw (polls hw (line_status p) n (trace u)) (line_status p) AND 0x20 \<noteq> 0"
    unfolding uart_live_def by blast
  from wait_tx_at [OF p(2) this, of "BasePort p"] obtain tr where
    "wait_tx hw p u = Some (u\<lparr>trace := trace u @ tr\<rparr>)" "sent (BasePort p) tr = []" by blast
  with p assms show ?thesis by (simp add: SerialConsole_Flush_def Serial_Flush_def console_ready_def console_out_def)
qed

lemma bootstrap_Flush:
  assumes "boot_ready hw b s"
  shows "\<exists>s'. dev_Flush (bootstrap_device hw) s = Some s' \<and> boot_ready hw b s' \<and> serial_out s' = serial_out s"
  using both_devices [OF assms, of "SerialConsole_Flush hw" "[]" Flush] Serial_Flush_ends [of hw _ "uart s"]
  by (simp add: RedundantOutput_def RedundantOutput_defs cong: option.case_cong) blast

lemma print_strings_bootstrap:
  "boot_ready hw b s \<Longrightarrow>
   \<exists>s'. print_strings (bootstrap_device hw) xs s = Some s' \<and> boot_ready hw b s' \<and>
     serial_out s' = serial_out s @ concat (map crlf (concat xs))"
proof (induction xs arbitrary: s)
  case (Cons x xs)
  from bootstrap_PutString [OF Cons.prems, of x] obtain s1 where
    s1: "dev_PutString (bootstrap_device hw) x s = Some s1" "boot_ready hw b s1" "serial_out s1 = serial_out s @ concat (map crlf x)"
    by blast
  from Cons.IH [OF s1(2)] s1 show ?case by auto
qed simp

lemma print_panic_bootstrap:
  assumes "boot_ready hw b s"
  shows "\<exists>s'. print_panic (bootstrap_device hw) a loc s = Some s' \<and> boot_ready hw b s' \<and>
    serial_out s' = serial_out s @ concat (map crlf (concat (panic_report a loc)))"
proof -
  from bootstrap_Reset [OF assms] obtain s1 where
    s1: "dev_Reset (bootstrap_device hw) s = Some s1" "boot_ready hw b s1" "serial_out s1 = serial_out s" by blast
  from print_strings_bootstrap [OF s1(2)] obtain s2 where
    s2: "print_strings (bootstrap_device hw) (panic_report a loc) s1 = Some s2" "boot_ready hw b s2"
      "serial_out s2 = serial_out s1 @ concat (map crlf (concat (panic_report a loc)))" by blast
  from bootstrap_Flush [OF s2(2)] s1 s2 show ?thesis by (auto simp: print_panic_def)
qed

lemma enter_critical_ready:
  assumes "boot_ready hw b s"
  shows "boot_ready hw True (enter_critical s)" and "serial_out (enter_critical s) = serial_out s" and "heap (enter_critical s) = heap s"
  using assms
  by (auto simp: enter_critical_def StartCriticalSection_def boot_ready_def serial_ready_def serial_out_def console_ready_def
      console_out_def Let_def split: option.splits)

lemma GetBootstrapConsole_ready:
  assumes "boot_ready hw b s" and "operator_new (sizeof_RedundantOutput sz) (heap s) = Inr (p, h)"
  shows "GetBootstrapConsole hw sz s = Inr ((p, bootstrap_device hw), s\<lparr>heap := h\<rparr>)"
    and "boot_ready hw b (s\<lparr>heap := h\<rparr>)" and "serial_out (s\<lparr>heap := h\<rparr>) = serial_out s"
  using assms
  by (auto simp: GetBootstrapConsole_def GetSerialConsole_def GetKernelConsole_def boot_ready_def serial_ready_def serial_out_def
      split: option.splits)

text \<open>
  C16. The boot console mirrors: with a usable serial port and a frame buffer console, every sequence of
  characters and strings printed on the combined device is printed to the end, comes out of the serial port
  byte for byte (line feeds as carriage return and line feed), and leaves the screen exactly as if it had
  been printed on the frame buffer console alone.
\<close>

theorem bootstrap_console_mirrors:
  assumes "boot_ready hw b s"
  shows "\<exists>s'. print_all (dev_PutChar (bootstrap_device hw)) (dev_PutString (bootstrap_device hw)) xs s = Some s' \<and>
     serial_out s' = serial_out s @ concat (map (print_bytes crlf) xs) \<and>
     screen_view s' = fold (print_screen (\<lambda>c (k, m). PutChar c k m) (\<lambda>cs (k, m). PutString cs k m)) xs (screen_view s)"
  using bootstrap.all_law [OF assms] bootstrap.all_view [OF assms] by blast

text \<open>
  C25. A panic is reported: as long as one page is left for the console object, \<open>PanicEx\<close> comes to its halt, with
  interrupts disabled and the critical section entered, after the serial port has sent the status, the
  source location and the four parameters.
\<close>

theorem PanicEx_reports:
  assumes "boot_ready hw b s" and "operator_new (sizeof_RedundantOutput sz) (heap s) = Inr (p, h)"
  shows "\<exists>s'. PanicEx hw sz new_loc a loc s = Some (Halted s') \<and> \<not> bit (rflags (uart s')) IF_BIT \<and> in_critical s' \<and>
    serial_out s' = serial_out s @ concat (map crlf (concat (panic_report a loc)))"
proof -
  note e = enter_critical_ready [OF assms(1)]
  have n: "operator_new (sizeof_RedundantOutput sz) (heap (enter_critical s)) = Inr (p, h)" using assms(2) e(3) by simp
  note g = GetBootstrapConsole_ready [OF e(1) n]
  have p: "p \<noteq> 0" using assms(2) by (auto simp: operator_new_def Let_def split: if_splits prod.splits)
  from print_panic_bootstrap [OF g(2)] obtain s1 where
    s1: "print_panic (bootstrap_device hw) a loc ((enter_critical s)\<lparr>heap := h\<rparr>) = Some s1" "boot_ready hw True s1"
      "serial_out s1 = serial_out ((enter_critical s)\<lparr>heap := h\<rparr>) @ concat (map crlf (concat (panic_report a loc)))" by blast
  have "PanicEx hw sz new_loc a loc s = Some (Halted (HaltProcessor s1))"
    by (subst PanicEx.simps) (simp add: g(1) s1(1) p)
  moreover have "serial_out (HaltProcessor s1) = serial_out s1"
    by (simp add: serial_out_def HaltProcessor_def console_out_def cong: option.case_cong)
  moreover have "\<not> bit (rflags (uart (HaltProcessor s1))) IF_BIT" "in_critical (HaltProcessor s1)"
    using s1(2) by (simp_all add: HaltProcessor_def boot_ready_def bit_unset_bit_iff)
  ultimately show ?thesis using s1(3) g(3) e(2) by auto
qed

definition out_of_memory :: "object_sizes \<Rightarrow> console_state \<Rightarrow> bool" where
  "out_of_memory sz s \<longleftrightarrow> (\<exists>st p. operator_new (sizeof_RedundantOutput sz) (heap s) = Inl (Panic st p))"

lemma PanicEx_result_memory:
  "PanicEx hw sz new_loc a loc s = Some r \<Longrightarrow> \<not> out_of_memory sz s"
proof (induction hw sz new_loc a loc s r rule: PanicEx.raw_induct [rotated, consumes 1, case_names step])
  case (step rec hw sz new_loc a loc s r)
  show ?case
  proof
    assume o: "out_of_memory sz s"
    have h: "heap (enter_critical s) = heap s" by (simp add: enter_critical_def Let_def)
    from o obtain st p where "operator_new (sizeof_RedundantOutput sz) (heap s) = Inl (Panic st p)"
      by (auto simp: out_of_memory_def)
    with step.hyps h have "rec hw sz new_loc \<lparr>pa_status = st, param1 = p, param2 = 0, param3 = 0, param4 = 0\<rparr> new_loc (enter_critical s) = Some r"
      by (simp add: GetBootstrapConsole_def)
    from step.IH [OF this] o h show False by (simp add: out_of_memory_def)
  qed
qed

text \<open>
  C39. A panic for want of memory is never reported: \<open>PanicEx\<close> allocates its console, the allocation panics in
  turn, and the calls nest without end.
\<close>

theorem PanicEx_out_of_memory_diverges:
  assumes "heap_ok (heap s)" and "free_pages (hs_bitmap (heap s)) = {}" and "sizeof_RedundantOutput sz + 8 \<noteq> 0"
  shows "PanicEx hw sz new_loc a loc s = None"
proof -
  have z: "sizeof_RedundantOutput sz + sizeof_AllocatedMemoryInfo \<noteq> 0" using assms(3) by (simp add: sizeof_AllocatedMemoryInfo_def)
  then have "0 < unat (sizeof_RedundantOutput sz + sizeof_AllocatedMemoryInfo)" by (simp add: word_neq_0_conv unat_gt_0)
  then have n: "0 < new_pages (sizeof_RedundantOutput sz)" by (simp add: new_pages_def div_greater_zero_iff)
  have "out_of_memory sz s"
    using operator_new_Inl [OF assms(1) z] assms(2) n by (simp add: out_of_memory_def)
  with PanicEx_result_memory show ?thesis by (metis not_None_eq)
qed

subsection \<open>Console objects are never freed\<close>

text \<open>Repeated calls of \<open>GetBootstrapConsole\<close>, as each round of a worker makes one.\<close>

primrec get_consoles :: "hardware \<Rightarrow> object_sizes \<Rightarrow> nat \<Rightarrow> console_state \<Rightarrow> kernel_error + console_state" where
  "get_consoles hw sz 0 s = Inr s"
| "get_consoles hw sz (Suc n) s =
     (case get_consoles hw sz n s of
        Inl e \<Rightarrow> Inl e
      | Inr s1 \<Rightarrow> (case GetBootstrapConsole hw sz s1 of Inl e \<Rightarrow> Inl e | Inr (con, s2) \<Rightarrow> Inr s2))"

lemma GetBootstrapConsole_heap:
  assumes "heap_ok (heap s)" and "sizeof_RedundantOutput sz + 8 \<noteq> 0"
  shows "(\<exists>con h q. GetBootstrapConsole hw sz s = Inr (con, s\<lparr>heap := h\<rparr>) \<and> heap_ok h \<and> q \<in> free_pages (hs_bitmap (heap s)) \<and>
      free_pages (hs_bitmap h) \<subseteq> free_pages (hs_bitmap (heap s)) - {q}) \<or>
    GetBootstrapConsole hw sz s = Inl (Panic STATUS_ERROR 0)"
proof -
  let ?n = "new_pages (sizeof_RedundantOutput sz)"
  have z: "sizeof_RedundantOutput sz + sizeof_AllocatedMemoryInfo \<noteq> 0" using assms(2) by (simp add: sizeof_AllocatedMemoryInfo_def)
  then have n: "0 < ?n" by (simp add: new_pages_def div_greater_zero_iff word_neq_0_conv unat_gt_0 Suc_le_eq)
  show ?thesis
  proof (cases "operator_new (sizeof_RedundantOutput sz) (heap s)")
    case (Inl e)
    with operator_new_Inl [OF assms(1) z, of e] show ?thesis by (simp add: GetBootstrapConsole_def)
  next
    case (Inr r)
    obtain p h where r: "r = (p, h)" by (cases r)
    obtain q where
      q: "q + ?n \<le> TOTAL_PAGES" "0 < q" "{q..<q + ?n} \<subseteq> free_pages (hs_bitmap (heap s))"
        "hs_bitmap h = set_run (hs_bitmap (heap s)) q ?n True" "gEarlyAlloc h = gEarlyAlloc (heap s)"
      by (rule operator_new_Inr [OF assms(1) z Inr [unfolded r]]) (use that in simp)
    have "heap_ok h" using assms(1) q(1,4,5) by (auto simp: heap_ok_def intro: bitmap_ok_set_run)
    moreover have "q \<in> free_pages (hs_bitmap (heap s))" using q(3) n by auto
    moreover have "free_pages (hs_bitmap h) \<subseteq> free_pages (hs_bitmap (heap s)) - {q}" using n by (auto simp: q(4) free_pages_set_run)
    ultimately show ?thesis using Inr r by (auto simp: GetBootstrapConsole_def)
  qed
qed

lemma get_consoles_heap:
  assumes "heap_ok (heap s)" and "sizeof_RedundantOutput sz + 8 \<noteq> 0"
  shows "(\<exists>s'. get_consoles hw sz n s = Inr s' \<and> heap_ok (heap s') \<and>
      card (free_pages (hs_bitmap (heap s'))) + n \<le> card (free_pages (hs_bitmap (heap s)))) \<or>
    get_consoles hw sz n s = Inl (Panic STATUS_ERROR 0)"
proof (induction n)
  case (Suc n)
  show ?case
  proof (cases "get_consoles hw sz n s")
    case (Inr s1)
    with Suc have s1: "heap_ok (heap s1)" "card (free_pages (hs_bitmap (heap s1))) + n \<le> card (free_pages (hs_bitmap (heap s)))"
      by auto
    have "finite (free_pages (hs_bitmap (heap s1)))"
      using s1(1) free_pages_range finite_subset [OF _ finite_atLeastLessThan] by (metis heap_ok_def)
    then have "card X < card (free_pages (hs_bitmap (heap s1)))"
      if "q \<in> free_pages (hs_bitmap (heap s1))" "X \<subseteq> free_pages (hs_bitmap (heap s1)) - {q}" for X q
      using that by (intro psubset_card_mono) auto
    note less = this
    from GetBootstrapConsole_heap [OF s1(1) assms(2), of hw] show ?thesis
    proof (elim disjE exE conjE)
      fix con h q
      assume "GetBootstrapConsole hw sz s1 = Inr (con, s1\<lparr>heap := h\<rparr>)" "heap_ok h" and
        q: "q \<in> free_pages (hs_bitmap (heap s1))" "free_pages (hs_bitmap h) \<subseteq> free_pages (hs_bitmap (heap s1)) - {q}"
      with Inr less [OF q] s1(2) show ?thesis by simp
    qed (use Inr in simp)
  qed (use Suc in simp)
qed (use assms in simp)

text \<open>
  Nothing gives the memory of a console object back: after as many calls of \<open>GetBootstrapConsole\<close> as there are
  free pages, at the latest, the next call panics. A worker that asks for the console once per round runs
  for a bounded number of rounds.
\<close>

lemma bootstrap_consoles_exhaust_memory:
  assumes "heap_ok (heap s)" and "sizeof_RedundantOutput sz + 8 \<noteq> 0" and "card (free_pages (hs_bitmap (heap s))) < n"
  shows "get_consoles hw sz n s = Inl (Panic STATUS_ERROR 0)"
  using get_consoles_heap [OF assms(1,2), of hw n] assms(3) by auto

subsection \<open>A concrete console state\<close>

definition sample_sizes :: object_sizes where
  "sample_sizes = \<lparr>sizeof_KernelConsole = 64, sizeof_SerialConsole = 48, sizeof_Serial16550 = 24, sizeof_RedundantOutput = 100\<rparr>"

definition sample_consoles :: "heap_state \<Rightarrow> console_state" where
  "sample_consoles h =
     \<lparr>uart = \<lparr>trace = [], rflags = 0x202\<rparr>, heap = h, in_critical = False,
      console_owner = Some \<lparr>m_Info = \<lparr>FrameBufferBase = 0xE0000000, FrameBufferSize = 0x400, PixelsPerScanLine = 16,
        HorizontalResolution = 16, VerticalResolution = 16, DisplayPixelFormat = BGR\<rparr>, m_CursorPosition = \<lparr>X = 0, Y = 0\<rparr>\<rparr>,
      serial_owner = Some \<lparr>m_Port = Some sample_uart\<rparr>\<rparr>"

definition full_heap :: heap_state where
  "full_heap = \<lparr>hs_bitmap = \<lambda>_. 0xFF, hs_mem = \<lambda>_. 0, gEarlyAlloc = 0x200000\<rparr>"

lemma sample_consoles_ready: "boot_ready sample_uart_hw False (sample_consoles h)"
  by (simp add: boot_ready_def sample_consoles_def serial_ready_def console_ready_def sample_uart_live)
    (simp add: sample_uart_def new_lock_def)

lemma sample_serial_out [simp]: "serial_out (sample_consoles h) = []"
  by (simp add: serial_out_def sample_consoles_def console_out_def sent_def)

lemma full_heap_ok: "heap_ok full_heap" "free_pages (hs_bitmap full_heap) = {}"
proof -
  have "\<not> page_free (\<lambda>_. 0xFF) p" for p
    using bit_FF [of "p mod 8"] by (simp add: page_free_def bit_at_def Bit_iff CHAR_BIT_def)
  then show "heap_ok full_heap" "free_pages (hs_bitmap full_heap) = {}"
    by (simp_all add: heap_ok_def full_heap_def bitmap_ok_def free_pages_def)
qed

theorem bootstrap_console_mirrors_witness:
  "\<exists>s'. print_all (dev_PutChar (bootstrap_device sample_uart_hw)) (dev_PutString (bootstrap_device sample_uart_hw))
     [PrintString [0x48, 0x69], PrintChar 0x0A] (sample_consoles example_heap) = Some s' \<and>
     serial_out s' = [0x48, 0x69, 0x0D, 0x0A] \<and>
     screen_view s' = (case screen_view (sample_consoles example_heap) of (k, m) \<Rightarrow>
       (case PutString [0x48, 0x69] k m of (k1, m1) \<Rightarrow> PutChar 0x0A k1 m1))"
  using bootstrap_console_mirrors [OF sample_consoles_ready, of "[PrintString [0x48, 0x69], PrintChar 0x0A]" example_heap]
  by (simp add: crlf_def case_prod_beta del: PutString_simps)

theorem PanicEx_reports_witness:
  "\<exists>s' rest. PanicEx sample_uart_hw sample_sizes \<lparr>fileName = None, func = None, line = -1\<rparr>
     \<lparr>pa_status = 0x80000000, param1 = 0, param2 = 0, param3 = 0, param4 = 0\<rparr> \<lparr>fileName = None, func = None, line = -1\<rparr>
     (sample_consoles example_heap) = Some (Halted s') \<and> \<not> bit (rflags (uart s')) 9 \<and> serial_out s' = map of_char ''Panic!'' @ rest"
proof -
  have n: "operator_new (sizeof_RedundantOutput sample_sizes) (heap (sample_consoles example_heap)) =
      Inr (page_addr 1, snd (projr (operator_new 100 example_heap)))"
    using example_new by (simp add: sample_sizes_def sample_consoles_def)
  show ?thesis
    using PanicEx_reports [OF sample_consoles_ready n, of "\<lparr>fileName = None, func = None, line = -1\<rparr>"
      "\<lparr>pa_status = 0x80000000, param1 = 0, param2 = 0, param3 = 0, param4 = 0\<rparr>" "\<lparr>fileName = None, func = None, line = -1\<rparr>"]
    by (auto simp: panic_report_def cstr_def crlf_def IF_BIT_def)
qed

theorem PanicEx_out_of_memory_diverges_witness:
  "PanicEx sample_uart_hw sample_sizes \<lparr>fileName = None, func = None, line = -1\<rparr>
     \<lparr>pa_status = 0x80000000, param1 = 0, param2 = 0, param3 = 0, param4 = 0\<rparr> \<lparr>fileName = None, func = None, line = -1\<rparr>
     (sample_consoles full_heap) = None"
  using full_heap_ok by (intro PanicEx_out_of_memory_diverges) (simp_all add: sample_consoles_def sample_sizes_def)

lemma bootstrap_consoles_exhaust_memory_example:
  "get_consoles sample_uart_hw sample_sizes 5 (sample_consoles example_heap) = Inl (Panic STATUS_ERROR 0)"
proof -
  have "free_pages (hs_bitmap example_heap) = {1, 2, 3, 4}" by (simp add: example_heap_def example_free_pages)
  then show ?thesis
    using example_heap_ok by (intro bootstrap_consoles_exhaust_memory) (simp_all add: sample_consoles_def sample_sizes_def)
qed

end
