(* ===== verification/LocalApic.thy ===== *)
theory LocalApic
  imports Hardware
begin

text \<open>
  \<open>Kernel/Arch/x86_64/APIC/LAPIC.cpp\<close>, \<open>APICInit.hpp\<close> and \<open>IOAPIC.cpp\<close>: the drivers of the local APIC (with
  its timer) and of the I/O APIC, in the state monad over the access trace. Register accesses are
  volatile reads and writes at \<open>gLAPICMMIO + offset\<close>; an access through the null pointer is an access at
  the bare offset, as the code does it. The busy-wait loop of the calibration is a partial function.
\<close>

unbundle bit_operations_syntax

record lapic_state = hw_state +
  gLAPICMMIO :: u64
  gLAPICReady :: bool

type_synonym ('r, 'a) lapic = "('r lapic_state_scheme, 'a) state"

definition IRQ_BASE :: u8 where "IRQ_BASE = 0x20"
definition VEC_PIT_IRQ :: u8 where "VEC_PIT_IRQ = 0x62"
definition VEC_TIMER :: u8 where "VEC_TIMER = 0x60"
definition VEC_ERROR :: u8 where "VEC_ERROR = 0x61"
definition VEC_SPURIOUS :: u8 where "VEC_SPURIOUS = 0xFF"

definition MSR_IA32_APIC_BASE :: u32 where "MSR_IA32_APIC_BASE = 0x1B"
definition APIC_BASE_EXTD :: u64 where "APIC_BASE_EXTD = push_bit 10 1"
definition APIC_BASE_EN :: u64 where "APIC_BASE_EN = push_bit 11 1"
definition APIC_BASE_ADDR_MASK :: u64 where "APIC_BASE_ADDR_MASK = 0xFFFFF000"
definition LAPIC_ID :: u32 where "LAPIC_ID = 0x020"
definition LAPIC_VERSION :: u32 where "LAPIC_VERSION = 0x030"
definition LAPIC_TPR :: u32 where "LAPIC_TPR = 0x080"
definition LAPIC_EOI :: u32 where "LAPIC_EOI = 0x0B0"
definition LAPIC_SVR :: u32 where "LAPIC_SVR = 0x0F0"
definition LAPIC_ESR :: u32 where "LAPIC_ESR = 0x280"
definition LAPIC_LVT_TIMER :: u32 where "LAPIC_LVT_TIMER = 0x320"
definition LAPIC_LVT_THERMAL :: u32 where "LAPIC_LVT_THERMAL = 0x330"
definition LAPIC_LVT_PERF :: u32 where "LAPIC_LVT_PERF = 0x340"
definition LAPIC_LVT_LINT0 :: u32 where "LAPIC_LVT_LINT0 = 0x350"
definition LAPIC_LVT_LINT1 :: u32 where "LAPIC_LVT_LINT1 = 0x360"
definition LAPIC_LVT_ERROR :: u32 where "LAPIC_LVT_ERROR = 0x370"
definition LAPIC_TIMER_INIT :: u32 where "LAPIC_TIMER_INIT = 0x380"
definition LAPIC_TIMER_CURR :: u32 where "LAPIC_TIMER_CURR = 0x390"
definition LAPIC_TIMER_DIV :: u32 where "LAPIC_TIMER_DIV = 0x3E0"
definition SVR_APIC_ENABLE :: u32 where "SVR_APIC_ENABLE = push_bit 8 1"
definition LVT_MASKED :: u32 where "LVT_MASKED = push_bit 16 1"
definition LVT_PERIODIC :: u32 where "LVT_PERIODIC = push_bit 17 1"

subsection \<open>Register access\<close>

definition GetLAPICMMIOBase :: "('r, u64) lapic" where
  "GetLAPICMMIOBase = do { s \<leftarrow> State_Monad.get; State_Monad.return (gLAPICMMIO s) }"

definition LAPICMMIORead :: "hardware \<Rightarrow> u32 \<Rightarrow> ('r, u32) lapic" where
  "LAPICMMIORead hw offset = do {
     b \<leftarrow> GetLAPICMMIOBase;
     mmio_read hw (b + ucast offset)
   }"

definition LAPICMMIOWrite :: "hardware \<Rightarrow> u32 \<Rightarrow> u32 \<Rightarrow> ('r, unit) lapic" where
  "LAPICMMIOWrite hw offset v = do {
     b \<leftarrow> GetLAPICMMIOBase;
     mmio_write (b + ucast offset) v;
     _ \<leftarrow> LAPICMMIORead hw LAPIC_ID;
     State_Monad.return ()
   }"

definition IsPresent :: "hardware \<Rightarrow> ('r, bool) lapic" where
  "IsPresent hw = do {
     r \<leftarrow> CPUID hw 1 0;
     State_Monad.return ((snd (snd (snd r))) AND push_bit 9 1 \<noteq> 0)
   }"

definition Enable :: "hardware \<Rightarrow> ('r, unit) lapic" where
  "Enable hw = do {
     v \<leftarrow> MSR_Read hw MSR_IA32_APIC_BASE;
     let apicBase = (v OR APIC_BASE_EN) AND NOT APIC_BASE_EXTD;
     MSR_Write MSR_IA32_APIC_BASE apicBase;
     s \<leftarrow> State_Monad.get;
     State_Monad.set (s\<lparr>gLAPICMMIO := apicBase AND APIC_BASE_ADDR_MASK\<rparr>)
   }"

definition InitEarly :: "hardware \<Rightarrow> u8 \<Rightarrow> u8 \<Rightarrow> ('r, unit) lapic" where
  "InitEarly hw spuriousVector0 errorVector0 = do {
     b \<leftarrow> GetLAPICMMIOBase;
     (if b = 0 then Enable hw else State_Monad.return ());
     let spuriousVector = (if spuriousVector0 < 0x20 then 0xFF else spuriousVector0);
     let errorVector = (if spuriousVector < 0x20 then 0xF1 else errorVector0);
     LAPICMMIOWrite hw LAPIC_TPR 0;
     LAPICMMIOWrite hw LAPIC_LVT_TIMER (LVT_MASKED OR 0xF0);
     LAPICMMIOWrite hw LAPIC_LVT_PERF (LVT_MASKED OR 0xF2);
     LAPICMMIOWrite hw LAPIC_LVT_THERMAL (LVT_MASKED OR 0xF3);
     LAPICMMIOWrite hw LAPIC_LVT_LINT0 (LVT_MASKED OR 0xF4);
     LAPICMMIOWrite hw LAPIC_LVT_LINT1 (LVT_MASKED OR 0xF5);
     LAPICMMIOWrite hw LAPIC_LVT_ERROR (ucast errorVector);
     LAPICMMIOWrite hw LAPIC_ESR 0;
     _ \<leftarrow> LAPICMMIORead hw LAPIC_ESR;
     LAPICMMIOWrite hw LAPIC_SVR (SVR_APIC_ENABLE OR ucast spuriousVector);
     LAPICMMIOWrite hw LAPIC_EOI 0;
     s \<leftarrow> State_Monad.get;
     State_Monad.set (s\<lparr>gLAPICReady := True\<rparr>)
   }"

definition EndOfInterrupt :: "hardware \<Rightarrow> ('r, unit) lapic" where
  "EndOfInterrupt hw = do {
     b \<leftarrow> GetLAPICMMIOBase;
     (if b \<noteq> 0 then LAPICMMIOWrite hw LAPIC_EOI 0 else State_Monad.return ())
   }"

definition ReadLAPICID :: "hardware \<Rightarrow> ('r, u32) lapic" where
  "ReadLAPICID hw = do {
     b \<leftarrow> GetLAPICMMIOBase;
     (if b \<noteq> 0 then do { v \<leftarrow> LAPICMMIORead hw LAPIC_ID; State_Monad.return (drop_bit 24 v) }
      else State_Monad.return 0xFFFFFFFF)
   }"

definition ReadLAPICVersion :: "hardware \<Rightarrow> ('r, u32) lapic" where
  "ReadLAPICVersion hw = do {
     b \<leftarrow> GetLAPICMMIOBase;
     (if b \<noteq> 0 then do { v \<leftarrow> LAPICMMIORead hw LAPIC_VERSION; State_Monad.return (v AND 0xFF) }
      else State_Monad.return 0xFFFFFFFF)
   }"

definition DisableLegacyPIC :: "('r, unit) hw" where
  "DisableLegacyPIC = do { Out8 0x21 0xFF; Out8 0xA1 0xFF }"

definition APIC_VEC_SPURIOUS :: u8 where "APIC_VEC_SPURIOUS = 0xFF"
definition APIC_VEC_ERROR :: u8 where "APIC_VEC_ERROR = 0xF1"

definition InitAPIC :: "hardware \<Rightarrow> ('r, bool) lapic" where
  "InitAPIC hw = do {
     present \<leftarrow> IsPresent hw;
     (if \<not> present then State_Monad.return False
      else do {
        Enable hw;
        InitEarly hw APIC_VEC_SPURIOUS APIC_VEC_ERROR;
        DisableLegacyPIC;
        State_Monad.return True
      })
   }"

subsection \<open>The timer\<close>

definition ConfigureTimer :: "hardware \<Rightarrow> u8 \<Rightarrow> u8 \<Rightarrow> u32 \<Rightarrow> bool \<Rightarrow> ('r, unit) lapic" where
  "ConfigureTimer hw vector divideShift initialCount periodic = do {
     b \<leftarrow> GetLAPICMMIOBase;
     (if b \<noteq> 0 then Enable hw else State_Monad.return ());
     let dv = ucast (divideShift AND 7);
     LAPICMMIOWrite hw LAPIC_TIMER_DIV dv;
     let lvt = ucast vector OR (if periodic then LVT_PERIODIC else 0);
     LAPICMMIOWrite hw LAPIC_LVT_TIMER (lvt OR LVT_MASKED);
     LAPICMMIOWrite hw LAPIC_TIMER_INIT initialCount;
     LAPICMMIOWrite hw LAPIC_LVT_TIMER lvt
   }"

definition MaskTimer :: "hardware \<Rightarrow> bool \<Rightarrow> ('r, unit) lapic" where
  "MaskTimer hw masked = do {
     b \<leftarrow> GetLAPICMMIOBase;
     (if b \<noteq> 0 then State_Monad.return ()
      else do {
        v \<leftarrow> LAPICMMIORead hw LAPIC_LVT_TIMER;
        let lvt = (if masked then v OR LVT_MASKED else v AND NOT LVT_MASKED);
        LAPICMMIOWrite hw LAPIC_LVT_TIMER lvt
      })
   }"

text \<open>The busy-wait on the time stamp counter, and the arithmetic behind it.\<close>

partial_function (option) wait_tsc :: "hardware \<Rightarrow> u64 \<Rightarrow> u64 \<Rightarrow> 'r lapic_state_scheme \<Rightarrow> 'r lapic_state_scheme option" where
  "wait_tsc hw t0 targetDelta s =
     (let (t1, s1) = run_state (ReadTSC hw) s
      in if t1 - t0 \<ge> targetDelta then Some s1 else wait_tsc hw t0 targetDelta s1)"

definition FALLBACK_INITIAL_COUNT :: u32 where "FALLBACK_INITIAL_COUNT = 62500"

definition initial_count :: "u64 \<Rightarrow> u32 \<Rightarrow> u32 \<Rightarrow> u32" where
  "initial_count deltaApic sampleMs targetPeriodUs =
     (if deltaApic = 0 then FALLBACK_INITIAL_COUNT
      else
        let countsPerSec = (deltaApic * 1000) div ucast sampleMs;
            initial64 = (countsPerSec * ucast targetPeriodUs) div 1000000;
            initial64 = (if initial64 = 0 then 1 else initial64);
            initial64 = (if initial64 > 0xFFFFFFFF then 0xFFFFFFFF else initial64)
        in ucast initial64)"

definition CalibrateTimerInitialCountTSC ::
  "hardware \<Rightarrow> u64 \<Rightarrow> u8 \<Rightarrow> u32 \<Rightarrow> u32 \<Rightarrow> 'r lapic_state_scheme \<Rightarrow> (u32 \<times> 'r lapic_state_scheme) option"
where
  "CalibrateTimerInitialCountTSC hw tscHz divideShift targetPeriodUs sampleMs s =
     (if gLAPICMMIO s = 0 \<or> tscHz = 0 \<or> targetPeriodUs = 0 \<or> sampleMs = 0 then Some (FALLBACK_INITIAL_COUNT, s)
      else
        let (_, s1) = run_state (LAPICMMIOWrite hw LAPIC_TIMER_DIV (ucast (divideShift AND 7))) s;
            (v, s2) = run_state (LAPICMMIORead hw LAPIC_LVT_TIMER) s1;
            lvt = (((v AND NOT LVT_PERIODIC) OR LVT_MASKED) AND 0xFFFFFF00) OR ucast VEC_TIMER;
            (_, s3) = run_state (LAPICMMIOWrite hw LAPIC_LVT_TIMER lvt) s2;
            startCount = 0x7FFFFFFF;
            (_, s4) = run_state (LAPICMMIOWrite hw LAPIC_TIMER_INIT startCount) s3;
            targetDelta = (tscHz * ucast sampleMs) div 1000;
            (t0, s5) = run_state (ReadTSC hw) s4
        in case wait_tsc hw t0 targetDelta s5 of
             None \<Rightarrow> None
           | Some s6 \<Rightarrow>
               let (curr, s7) = run_state (LAPICMMIORead hw LAPIC_TIMER_CURR) s6;
                   deltaApic = ucast (startCount - curr)
               in Some (initial_count deltaApic sampleMs targetPeriodUs, s7))"

subsection \<open>The I/O APIC\<close>

record IOAPIC =
  m_Base :: u32
  m_GSIBase :: u32

definition Sel :: "IOAPIC \<Rightarrow> u64" where
  "Sel a = ucast (m_Base a)"

definition Win :: "IOAPIC \<Rightarrow> u64" where
  "Win a = ucast (m_Base a + 0x10)"

definition IOAPIC_Read :: "hardware \<Rightarrow> IOAPIC \<Rightarrow> u32 \<Rightarrow> ('r, u32) hw" where
  "IOAPIC_Read hw a reg = do { mmio_write (Sel a) reg; mmio_read hw (Win a) }"

definition IOAPIC_Write :: "IOAPIC \<Rightarrow> u32 \<Rightarrow> u32 \<Rightarrow> ('r, unit) hw" where
  "IOAPIC_Write a reg val = do { mmio_write (Sel a) reg; mmio_write (Win a) val }"

definition Version :: "hardware \<Rightarrow> IOAPIC \<Rightarrow> ('r, u32) hw" where
  "Version hw a = IOAPIC_Read hw a 0x01"

definition RedirCount :: "hardware \<Rightarrow> IOAPIC \<Rightarrow> ('r, u32) hw" where
  "RedirCount hw a = do { v \<leftarrow> Version hw a; State_Monad.return (drop_bit 16 v AND 0xFF) }"

definition ReadRedir :: "hardware \<Rightarrow> IOAPIC \<Rightarrow> u32 \<Rightarrow> ('r, u64) hw" where
  "ReadRedir hw a idx = do {
     let regLo = 0x10 + idx * 2;
     let regHi = regLo + 1;
     lo \<leftarrow> IOAPIC_Read hw a regLo;
     hi \<leftarrow> IOAPIC_Read hw a regHi;
     State_Monad.return (ucast lo OR push_bit 32 (ucast hi))
   }"

definition WriteRedir :: "IOAPIC \<Rightarrow> u32 \<Rightarrow> u64 \<Rightarrow> ('r, unit) hw" where
  "WriteRedir a idx val = do {
     let regLo = 0x10 + idx * 2;
     let regHi = regLo + 1;
     IOAPIC_Write a regHi (ucast (drop_bit 32 val));
     IOAPIC_Write a regLo (ucast (val AND 0xFFFFFFFF))
   }"

definition OwnsGSI :: "hardware \<Rightarrow> IOAPIC \<Rightarrow> u32 \<Rightarrow> ('r, bool) hw" where
  "OwnsGSI hw a gsi = do {
     n \<leftarrow> RedirCount hw a;
     let max = n + 1;
     State_Monad.return (gsi \<ge> m_GSIBase a \<and> gsi < m_GSIBase a + max)
   }"

definition redir_low :: "u8 \<Rightarrow> u8 \<Rightarrow> u8 \<Rightarrow> bool \<Rightarrow> u32" where
  "redir_low vector polarity trigger masked =
     (let lo = 0 OR ucast vector;
          lo = (if polarity \<noteq> 0 then lo OR push_bit 13 1 else lo);
          lo = (if trigger \<noteq> 0 then lo OR push_bit 15 1 else lo)
      in if masked then lo OR push_bit 16 1 else lo)"

definition RouteGSI :: "hardware \<Rightarrow> IOAPIC \<Rightarrow> u32 \<Rightarrow> u8 \<Rightarrow> u8 \<Rightarrow> u8 \<Rightarrow> u8 \<Rightarrow> bool \<Rightarrow> ('r, unit) hw" where
  "RouteGSI hw a gsi vector destAPICID polarity trigger masked = do {
     owns \<leftarrow> OwnsGSI hw a gsi;
     (if \<not> owns then State_Monad.return ()
      else do {
        let idx = gsi - m_GSIBase a;
        let lo = redir_low vector polarity trigger masked;
        let hi = push_bit 24 (ucast destAPICID :: u32);
        WriteRedir a idx (push_bit 32 (ucast hi) OR ucast lo)
      })
   }"

subsection \<open>Effects\<close>

lemma run_base [hw_run]: "run_state GetLAPICMMIOBase s = (gLAPICMMIO s, s)"
  by (simp add: GetLAPICMMIOBase_def run_state_bind)

lemma LAPICMMIOWrite_effect [hw_run]:
  "gLAPICMMIO (snd (run_state (LAPICMMIOWrite hw off v) s)) = gLAPICMMIO s"
  "gLAPICReady (snd (run_state (LAPICMMIOWrite hw off v) s)) = gLAPICReady s"
  "mmio_writes (trace (snd (run_state (LAPICMMIOWrite hw off v) s))) =
     mmio_writes (trace s) @ [(gLAPICMMIO s + ucast off, v)]"
  by (simp_all add: LAPICMMIOWrite_def LAPICMMIORead_def hw_run)

lemma LAPICMMIORead_effect [hw_run]:
  "gLAPICMMIO (snd (run_state (LAPICMMIORead hw off) s)) = gLAPICMMIO s"
  "gLAPICReady (snd (run_state (LAPICMMIORead hw off) s)) = gLAPICReady s"
  "mmio_writes (trace (snd (run_state (LAPICMMIORead hw off) s))) = mmio_writes (trace s)"
  by (simp_all add: LAPICMMIORead_def hw_run)

definition apic_base :: "u64 \<Rightarrow> u64" where
  "apic_base msr = ((msr OR APIC_BASE_EN) AND NOT APIC_BASE_EXTD) AND APIC_BASE_ADDR_MASK"

lemma Enable_effect [hw_run]:
  "gLAPICMMIO (snd (run_state (Enable hw) s)) = apic_base (hw_rdmsr hw (trace s) MSR_IA32_APIC_BASE)"
  "gLAPICReady (snd (run_state (Enable hw) s)) = gLAPICReady s"
  "mmio_writes (trace (snd (run_state (Enable hw) s))) = mmio_writes (trace s)"
  by (simp_all add: Enable_def hw_run Let_def apic_base_def)

lemmas lapic_regs = LAPIC_ID_def LAPIC_VERSION_def LAPIC_TPR_def LAPIC_EOI_def LAPIC_SVR_def LAPIC_ESR_def
  LAPIC_LVT_TIMER_def LAPIC_LVT_THERMAL_def LAPIC_LVT_PERF_def LAPIC_LVT_LINT0_def LAPIC_LVT_LINT1_def
  LAPIC_LVT_ERROR_def LAPIC_TIMER_INIT_def LAPIC_TIMER_CURR_def LAPIC_TIMER_DIV_def SVR_APIC_ENABLE_def
  LVT_MASKED_def LVT_PERIODIC_def

lemma InitEarly_effect:
  assumes "gLAPICMMIO s \<noteq> 0" and "0x20 \<le> sv"
  shows "gLAPICMMIO (snd (run_state (InitEarly hw sv ev) s)) = gLAPICMMIO s"
    and "gLAPICReady (snd (run_state (InitEarly hw sv ev) s))"
    and "mmio_writes (trace (snd (run_state (InitEarly hw sv ev) s))) = mmio_writes (trace s) @
      map (\<lambda>(off, v). (gLAPICMMIO s + off, v))
        [(0x80, 0), (0x320, 0x100F0), (0x340, 0x100F2), (0x330, 0x100F3), (0x350, 0x100F4), (0x360, 0x100F5),
         (0x370, ucast ev), (0x280, 0), (0xF0, 0x100 OR ucast sv), (0xB0, 0)]"
  using assms by (simp_all add: InitEarly_def hw_run Let_def not_less [symmetric] lapic_regs)

text \<open>
  What the busy-wait relies on: between two accesses the time stamp counter advances, by at most \<open>m\<close>
  cycles; the counter itself may wrap.
\<close>

definition tsc_advances :: "hardware \<Rightarrow> nat \<Rightarrow> bool" where
  "tsc_advances hw m \<longleftrightarrow>
     (\<forall>tr e. 0 < unat (hw_tsc hw (tr @ [e]) - hw_tsc hw tr) \<and> unat (hw_tsc hw (tr @ [e]) - hw_tsc hw tr) \<le> m)"

lemma tsc_step:
  assumes "tsc_advances hw m" and "unat (hw_tsc hw tr - t0) < d" and "d + m < 2 ^ 64"
  shows "unat (hw_tsc hw tr - t0) < unat (hw_tsc hw (tr @ [e]) - t0)"
proof -
  let ?a = "hw_tsc hw tr - t0" and ?i = "hw_tsc hw (tr @ [e]) - hw_tsc hw tr"
  have i: "0 < unat ?i" "unat ?i \<le> m" using assms(1) by (simp_all add: tsc_advances_def)
  have "unat (?a + ?i) = unat ?a + unat ?i" using assms(2,3) i by (subst unat_add_nowrap) auto
  then show ?thesis using i by (simp add: algebra_simps)
qed

lemma wait_tsc_returns:
  assumes "tsc_advances hw m" and "unat d + m < 2 ^ 64"
  shows "\<exists>s'. wait_tsc hw t0 d s = Some s' \<and> gLAPICMMIO s' = gLAPICMMIO s \<and> mmio_writes (trace s') = mmio_writes (trace s)"
proof (induction "unat d - unat (hw_tsc hw (trace s) - t0)" arbitrary: s rule: less_induct)
  case less
  let ?s1 = "s\<lparr>trace := trace s @ [EvRdTsc (hw_tsc hw (trace s))]\<rparr>"
  show ?case
  proof (cases "d \<le> hw_tsc hw (trace s) - t0")
    case True
    then show ?thesis by (subst wait_tsc.simps) (simp add: hw_run)
  next
    case False
    then have lt: "unat (hw_tsc hw (trace s) - t0) < unat d" by (simp add: not_le word_less_nat_alt)
    from tsc_step [OF assms(1) this assms(2)]
    have "unat d - unat (hw_tsc hw (trace ?s1) - t0) < unat d - unat (hw_tsc hw (trace s) - t0)"
      using lt by (simp add: diff_less_mono2)
    from less.hyps [OF this] False show ?thesis by (subst wait_tsc.simps) (simp add: hw_run)
  qed
qed

text \<open>The calibration result as a natural number, when the products stay below \<open>2 ^ 64\<close>.\<close>

lemma initial_count_eq:
  assumes "unat d < 4294967296" and "unat us \<le> 1000000" and "0 < ms" and "d \<noteq> 0"
  shows "unat (initial_count d ms us) =
    max 1 (min 4294967295 (unat d * 1000 div unat ms * unat us div 1000000))"
proof -
  define c where "c = (d * 1000) div ucast ms"
  define i where "i = (c * ucast us) div 1000000"
  have um: "unat (ucast ms :: u64) = unat ms" "unat (ucast us :: u64) = unat us" by (simp_all add: unat_ucast_up)
  have "unat (d * 1000) = unat d * 1000" using assms(1) by (subst unat_mult_nowrap) auto
  then have c: "unat c = unat d * 1000 div unat ms" by (simp add: c_def unat_div um)
  have "unat d * 1000 div unat ms \<le> unat d * 1000" by (rule div_le_dividend)
  also have "\<dots> < 4294967296000" using assms(1) by simp
  finally have "unat c < 4294967296000" by (simp only: c)
  then have "unat c * unat us \<le> 4294967296000 * 1000000" using assms(2) by (intro mult_le_mono) simp_all
  then have "unat (c * ucast us) = unat c * unat us" by (subst unat_mult_nowrap) (simp_all add: um)
  then have i: "unat i = unat c * unat us div 1000000" by (simp add: i_def unat_div)
  have e: "initial_count d ms us =
      ucast (if (if i = 0 then 1 else i) > 0xFFFFFFFF then 0xFFFFFFFF else if i = 0 then 1 else i)"
    using assms(4) by (simp add: initial_count_def Let_def i_def c_def)
  have uc: "unat (ucast w :: u32) = unat w" if "unat w < 4294967296" for w :: u64
    using that by (simp add: unsigned_ucast_eq take_bit_nat_eq_self)
  show ?thesis
  proof (cases "i = 0")
    case True
    then show ?thesis using i by (simp add: e c [symmetric])
  next
    case False
    then have "0 < unat i" by (simp add: unat_gt_0)
    then show ?thesis
      using False i by (cases "i > 0xFFFFFFFF") (auto simp: e c [symmetric] uc word_less_nat_alt)
  qed
qed

lemma single_bits:
  "bit (8192 :: int) n \<longleftrightarrow> n = 13" "bit (32768 :: int) n \<longleftrightarrow> n = 15" "bit (65536 :: int) n \<longleftrightarrow> n = 16"
  using bit_exp_iff [of 13 n, where 'a = int] bit_exp_iff [of 15 n, where 'a = int] bit_exp_iff [of 16 n, where 'a = int]
  by (auto simp: possible_bit_def)

lemma redir_low_bits:
  "bit (redir_low vec pol trg masked) n \<longleftrightarrow>
     (n < 8 \<and> bit vec n) \<or> (n = 13 \<and> pol \<noteq> 0) \<or> (n = 15 \<and> trg \<noteq> 0) \<or> (n = 16 \<and> masked)"
proof -
  have "bit vec n \<Longrightarrow> n < 8" by (auto dest: bit_imp_le_length)
  then have "bit (ucast vec :: u32) n \<longleftrightarrow> n < 8 \<and> bit vec n" by (auto simp: bit_simps)
  then show ?thesis by (auto simp: redir_low_def Let_def bit_or_iff single_bits)
qed

text \<open>A machine with the usual answers, and the driver before its first call.\<close>

definition sample_hw :: hardware where
  "sample_hw = \<lparr>hw_in8 = \<lambda>_ _. 0, hw_in16 = \<lambda>_ _. 0, hw_in32 = \<lambda>_ _. 0, hw_rdmsr = \<lambda>_ _. 0xFEE00900,
     hw_mmio = \<lambda>_ a. if a = 0xFEE00390 then 0x7FFF0000 else 0x170020, hw_tsc = \<lambda>tr. of_nat (length tr),
     hw_cpuid = \<lambda>_ _ _. (0, 0, 0, 0x200), hw_rdrand = \<lambda>tr _. (True, of_nat (length tr))\<rparr>"

definition sample_lapic :: "u64 \<Rightarrow> lapic_state" where
  "sample_lapic b = \<lparr>trace = [], gLAPICMMIO = b, gLAPICReady = False\<rparr>"

lemma sample_tsc: "tsc_advances sample_hw 1"
  by (simp add: tsc_advances_def sample_hw_def)

subsection \<open>Properties\<close>

text \<open>
  \<open>InitAPIC\<close> on a processor with an APIC: afterwards the driver's base address is the one of the
  \<open>IA32_APIC_BASE\<close> register, every local interrupt source but the error interrupt is masked, all priority
  classes are accepted, the spurious-interrupt register enables the APIC with vector \<open>0xFF\<close>, the last
  register written is EOI, and no other register is touched.
\<close>

lemma InitAPIC_registers:
  assumes "fst (run_state (IsPresent hw) s)"
    and "s1 = snd (run_state (IsPresent hw) s)"
    and "b = apic_base (hw_rdmsr hw (trace s1) MSR_IA32_APIC_BASE)" and "b \<noteq> 0" and "mmio_writes (trace s) = []"
    and "run_state (InitAPIC hw) s = (r, s')"
  shows "r \<and> gLAPICMMIO s' = b \<and> gLAPICReady s' \<and>
    (\<forall>reg\<in>{0x320, 0x330, 0x340, 0x350, 0x360}. \<exists>v. last_write (trace s') (b + reg) = Some v \<and> bit v 16) \<and>
    last_write (trace s') (b + 0x80) = Some 0 \<and> last_write (trace s') (b + 0xF0) = Some 0x1FF \<and>
    last_write (trace s') (b + 0x370) = Some 0xF1 \<and> last (mmio_writes (trace s')) = (b + 0xB0, 0) \<and>
    (\<forall>a. last_write (trace s') a \<noteq> None \<longrightarrow>
       a - b \<in> {0x80, 0x320, 0x330, 0x340, 0x350, 0x360, 0x370, 0x280, 0xF0, 0xB0})"
proof -
  define s2 where "s2 = snd (run_state (Enable hw) s1)"
  have m1: "mmio_writes (trace s1) = []" using assms(5) by (simp add: assms(2) IsPresent_def hw_run)
  have s2: "gLAPICMMIO s2 = b" "mmio_writes (trace s2) = []" using m1 assms(3) by (simp_all add: s2_def hw_run)
  note ie = InitEarly_effect [of s2 APIC_VEC_SPURIOUS hw APIC_VEC_ERROR, unfolded s2]
  have "r = True" "s' = snd (run_state DisableLegacyPIC (snd (run_state (InitEarly hw APIC_VEC_SPURIOUS APIC_VEC_ERROR) s2)))"
    using assms(1,2,6) by (auto simp: InitAPIC_def s2_def run_state_bind case_prod_beta)
  then have rs: "r" "gLAPICMMIO s' = b" "gLAPICReady s'"
    "mmio_writes (trace s') = map (\<lambda>(off, v). (b + off, v))
        [(0x80, 0), (0x320, 0x100F0), (0x340, 0x100F2), (0x330, 0x100F3), (0x350, 0x100F4), (0x360, 0x100F5),
         (0x370, 0xF1), (0x280, 0), (0xF0, 0x1FF), (0xB0, 0)]"
    using ie assms(4) by (simp_all add: DisableLegacyPIC_def hw_run APIC_VEC_SPURIOUS_def APIC_VEC_ERROR_def)
  have masked: "\<exists>v. last_write (trace s') (b + reg) = Some v \<and> bit v 16"
    if "reg \<in> {0x320, 0x330, 0x340, 0x350, 0x360}" for reg
    using that unfolding last_write_def rs(4) by (elim insertE emptyE) simp_all
  have others: "a - b \<in> {0x80, 0x320, 0x330, 0x340, 0x350, 0x360, 0x370, 0x280, 0xF0, 0xB0}"
    if "last_write (trace s') a \<noteq> None" for a
  proof -
    have "a \<in> fst ` set (mmio_writes (trace s'))"
      using that by (simp add: last_write_def map_of_eq_None_iff)
    then show ?thesis unfolding rs(4) by (simp only: list.map list.set image_insert image_empty prod.case fst_conv)
        (elim insertE emptyE; simp)
  qed
  have "last_write (trace s') (b + 0x80) = Some 0" "last_write (trace s') (b + 0xF0) = Some 0x1FF"
    "last_write (trace s') (b + 0x370) = Some 0xF1" "last (mmio_writes (trace s')) = (b + 0xB0, 0)"
    unfolding last_write_def rs(4) by simp_all
  then show ?thesis using rs(1-3) masked others by blast
qed

lemma InitAPIC_registers_example:
  "last_write (trace (snd (run_state (InitAPIC sample_hw) (sample_lapic 0)))) 0xFEE000F0 = Some 0x1FF"
proof -
  let ?s = "sample_lapic 0"
  have "fst (run_state (IsPresent sample_hw) ?s)" by (simp add: IsPresent_def hw_run sample_hw_def)
  moreover have "0xFEE00000 = apic_base (hw_rdmsr sample_hw (trace (snd (run_state (IsPresent sample_hw) ?s))) MSR_IA32_APIC_BASE)"
    by (simp add: sample_hw_def apic_base_def APIC_BASE_EN_def APIC_BASE_EXTD_def APIC_BASE_ADDR_MASK_def)
  ultimately have "last_write (trace (snd (run_state (InitAPIC sample_hw) ?s))) (0xFEE00000 + 0xF0) = Some 0x1FF"
    using InitAPIC_registers [of sample_hw ?s _ "0xFEE00000", OF _ refl _ _ _ prod.collapse [symmetric]]
    by (simp add: sample_lapic_def)
  then show ?thesis by simp
qed

text \<open>
  \<open>MaskTimer\<close> tests the register pointer the wrong way round: once the APIC is initialised it does
  nothing at all, neither masking nor unmasking; before that it writes through the null pointer, to
  physical address \<open>0x320\<close>.
\<close>

lemma MaskTimer_inverted:
  "if gLAPICMMIO s \<noteq> 0 then run_state (MaskTimer hw masked) s = ((), s)
   else \<exists>v. mmio_writes (trace (snd (run_state (MaskTimer hw masked) s))) = mmio_writes (trace s) @ [(0x320, v)] \<and>
        bit v 16 = masked"
  by (auto simp: MaskTimer_def hw_run run_state_bind case_prod_beta Let_def lapic_regs bit_simps)

text \<open>
  The calibration of the APIC timer returns: if the time stamp counter advances between any two
  accesses, however it wraps, the busy-wait ends, and the result is the number of timer ticks in the
  target period computed from the measured ticks, clamped to the range from 1 to \<open>2 ^ 32 - 1\<close>.
\<close>

lemma CalibrateTimer_correct:
  assumes "gLAPICMMIO s \<noteq> 0" and "tscHz \<noteq> 0" and "0 < us" and "unat us \<le> 1000000" and "0 < ms"
    and "tsc_advances hw m" and "unat ((tscHz * ucast ms) div 1000) + m < 2 ^ 64"
  shows "\<exists>n s' d. CalibrateTimerInitialCountTSC hw tscHz shift us ms s = Some (n, s') \<and>
    (if d = 0 then n = FALLBACK_INITIAL_COUNT
     else unat n = max 1 (min 4294967295 (unat d * 1000 div unat ms * unat us div 1000000))) \<and>
    (\<exists>curr. last (trace s') = EvMmioRead (gLAPICMMIO s + 0x390) curr \<and> d = 0x7FFFFFFF - curr)"
proof -
  define s1 where "s1 = snd (run_state (LAPICMMIOWrite hw LAPIC_TIMER_DIV (ucast (shift AND 7))) s)"
  define v where "v = fst (run_state (LAPICMMIORead hw LAPIC_LVT_TIMER) s1)"
  define s2 where "s2 = snd (run_state (LAPICMMIORead hw LAPIC_LVT_TIMER) s1)"
  define s3 where "s3 = snd (run_state (LAPICMMIOWrite hw LAPIC_LVT_TIMER
      ((((v AND NOT LVT_PERIODIC) OR LVT_MASKED) AND 0xFFFFFF00) OR ucast VEC_TIMER)) s2)"
  define s4 where "s4 = snd (run_state (LAPICMMIOWrite hw LAPIC_TIMER_INIT 0x7FFFFFFF) s3)"
  define t0 where "t0 = fst (run_state (ReadTSC hw) s4)"
  define s5 where "s5 = snd (run_state (ReadTSC hw) s4)"
  have b: "gLAPICMMIO s5 = gLAPICMMIO s" by (simp add: s5_def s4_def s3_def s2_def s1_def hw_run)
  from wait_tsc_returns [OF assms(6,7), of t0 s5] obtain s6 where
    s6: "wait_tsc hw t0 ((tscHz * ucast ms) div 1000) s5 = Some s6" "gLAPICMMIO s6 = gLAPICMMIO s" by (auto simp: b)
  define curr where "curr = hw_mmio hw (trace s6) (gLAPICMMIO s + 0x390)"
  define s7 where "s7 = s6\<lparr>trace := trace s6 @ [EvMmioRead (gLAPICMMIO s + 0x390) curr]\<rparr>"
  have rd: "run_state (LAPICMMIORead hw LAPIC_TIMER_CURR) s6 = (curr, s7)"
    by (simp add: LAPICMMIORead_def hw_run run_state_bind s6(2) curr_def s7_def lapic_regs)
  have run: "CalibrateTimerInitialCountTSC hw tscHz shift us ms s =
      Some (initial_count (ucast (0x7FFFFFFF - curr)) ms us, s7)"
    using assms(1-3,5) s6(1) rd word_gt_0 [of us] word_gt_0 [of ms] unfolding CalibrateTimerInitialCountTSC_def Let_def
    by (simp add: case_prod_beta s1_def s2_def s3_def s4_def s5_def t0_def v_def)
  let ?d = "0x7FFFFFFF - curr"
  have ud: "unat (ucast ?d :: u64) = unat ?d" by (simp add: unat_ucast_up)
  have "if ?d = 0 then initial_count (ucast ?d) ms us = FALLBACK_INITIAL_COUNT
     else unat (initial_count (ucast ?d) ms us) = max 1 (min 4294967295 (unat ?d * 1000 div unat ms * unat us div 1000000))"
  proof (cases "?d = 0")
    case True
    then show ?thesis by (simp add: initial_count_def)
  next
    case False
    then have "(ucast ?d :: u64) \<noteq> 0" using ud by (metis unat_0 word_unat_eq_iff)
    with initial_count_eq [of "ucast ?d" us ms] assms(4,5) False show ?thesis by (simp add: ud)
  qed
  then show ?thesis using run by (intro exI [of _ "initial_count (ucast ?d) ms us"] exI [of _ s7] exI [of _ ?d]) (simp add: s7_def)
qed

lemma CalibrateTimer_correct_example:
  "\<exists>n s'. CalibrateTimerInitialCountTSC sample_hw 1000000 3 1000 10 (sample_lapic 0xFEE00000) = Some (n, s')"
proof -
  have "unat (1000000 * ucast (10 :: u32) div 1000 :: u64) + 1 < 2 ^ 64" by simp
  with CalibrateTimer_correct [of "sample_lapic 0xFEE00000" 1000000 1000 10 sample_hw 1 3, OF _ _ _ _ _ sample_tsc]
  show ?thesis by (fastforce simp: sample_lapic_def)
qed

text \<open>
  \<open>RouteGSI\<close> for an interrupt the I/O APIC owns writes exactly its redirection entry, high half first,
  and reading the entry's fields back gives the vector, the polarity, the trigger mode, the mask bit and
  the destination that were asked for, with every other bit zero; for any other interrupt no entry is written.
\<close>

lemma RouteGSI_correct:
  assumes "run_state (OwnsGSI hw a gsi) s = (owns, s1)"
    and "run_state (RouteGSI hw a gsi vec dest pol trg masked) s = ((), s')"
  shows "if owns
    then \<exists>e. mmio_writes (trace s') = mmio_writes (trace s1) @
           [(Sel a, 0x11 + (gsi - m_GSIBase a) * 2), (Win a, ucast (drop_bit 32 e)),
            (Sel a, 0x10 + (gsi - m_GSIBase a) * 2), (Win a, ucast e)] \<and>
         (\<forall>n<64. bit (e :: u64) n \<longleftrightarrow> (n < 8 \<and> bit vec n) \<or> (n = 13 \<and> pol \<noteq> 0) \<or> (n = 15 \<and> trg \<noteq> 0) \<or>
            (n = 16 \<and> masked) \<or> (56 \<le> n \<and> bit dest (n - 56)))
    else s' = s1"
proof (cases owns)
  case False
  with assms show ?thesis by (simp add: RouteGSI_def run_state_bind)
next
  case True
  define e where "e = (push_bit 32 (ucast (push_bit 24 (ucast dest :: u32))) OR ucast (redir_low vec pol trg masked) :: u64)"
  have s': "s' = snd (run_state (WriteRedir a (gsi - m_GSIBase a) e) s1)"
    using assms True by (simp add: RouteGSI_def run_state_bind Let_def e_def)
  have "mmio_writes (trace s') = mmio_writes (trace s1) @
           [(Sel a, 0x11 + (gsi - m_GSIBase a) * 2), (Win a, ucast (drop_bit 32 e)),
            (Sel a, 0x10 + (gsi - m_GSIBase a) * 2), (Win a, ucast e)]"
    by (simp add: s' WriteRedir_def IOAPIC_Write_def hw_run Let_def)
  moreover have "bit e n \<longleftrightarrow> (n < 8 \<and> bit vec n) \<or> (n = 13 \<and> pol \<noteq> 0) \<or> (n = 15 \<and> trg \<noteq> 0) \<or>
            (n = 16 \<and> masked) \<or> (56 \<le> n \<and> bit dest (n - 56))" if "n < 64" for n
  proof -
    have "bit e n \<longleftrightarrow> (32 \<le> n \<and> 56 \<le> n \<and> bit dest (n - 56)) \<or> bit (redir_low vec pol trg masked) n"
      using that by (auto simp: e_def bit_simps)
    then show ?thesis by (auto simp: redir_low_bits)
  qed
  ultimately show ?thesis using True by auto
qed

lemma RouteGSI_correct_example:
  "\<exists>e. mmio_writes (trace (snd (run_state (RouteGSI sample_hw \<lparr>m_Base = 0xFEC00000, m_GSIBase = 0\<rparr> 2 0x62 0 0 0 False)
      \<lparr>trace = []\<rparr>))) = [(0xFEC00000, 1), (0xFEC00000, 0x15), (0xFEC00010, ucast (drop_bit 32 e)),
        (0xFEC00000, 0x14), (0xFEC00010, ucast (e :: u64))]"
proof -
  let ?a = "\<lparr>m_Base = 0xFEC00000, m_GSIBase = 0\<rparr> :: IOAPIC" and ?s = "\<lparr>trace = []\<rparr> :: hw_state"
  have o: "run_state (OwnsGSI sample_hw ?a 2) ?s =
      (True, \<lparr>trace = [EvMmioWrite 0xFEC00000 1, EvMmioRead 0xFEC00010 0x170020]\<rparr>)"
    by (simp add: OwnsGSI_def RedirCount_def Version_def IOAPIC_Read_def hw_run run_state_bind Let_def sample_hw_def Sel_def Win_def)
  have "run_state (RouteGSI sample_hw ?a 2 0x62 0 0 0 False) ?s =
      ((), snd (run_state (RouteGSI sample_hw ?a 2 0x62 0 0 0 False) ?s))" by (simp add: prod_eq_iff)
  from RouteGSI_correct [OF o this] show ?thesis by (auto simp: Sel_def Win_def)
qed

end
