(* ===== verification/ThreadQueue.thy ===== *)
theory ThreadQueue
  imports HailPrelude
begin

text \<open>
  The data of \<open>Kernel/Core/Scheduler/Thread.hpp\<close> and \<open>KernelStack.hpp\<close>, and the intrusive ready queue of
  \<open>RunQueue.hpp\<close>. Thread objects live in a store indexed by their address (\<open>0\<close> is \<open>nullptr\<close>); their
  layout in memory is not modelled. \<open>Push\<close> and \<open>PopFront\<close> are the pointer code, assignment by
  assignment, so that they also say what happens when a thread is pushed twice.

  \<open>queue_list\<close> relates the pointers to the list of queued threads. The locale \<open>fifo_queue\<close> is what the
  scheduler relies on; its interpretation \<open>rq\<close> shows that the pointer code provides it.
\<close>

subsection \<open>Threads and the queue\<close>

record KernelStack =
  m_Base :: u64
  m_Size :: u64

datatype ThreadState = Init | Ready | Running | Sleep | Dead

record Thread =
  RSP :: u64
  KStack :: KernelStack
  State :: ThreadState
  Entry :: u64
  Arg :: u64
  Next :: u64
  Prev :: u64
  Name :: u64
  CPUIndex :: u32
  TimeSliceTicks :: u32

definition new_Thread :: Thread where
  "new_Thread = \<lparr>RSP = 0, KStack = \<lparr>m_Base = 0, m_Size = 0\<rparr>, State = Init, Entry = 0, Arg = 0,
     Next = 0, Prev = 0, Name = 0, CPUIndex = 0, TimeSliceTicks = 5\<rparr>"

type_synonym thread_store = "u64 \<Rightarrow> Thread"

record RunQueue =
  Head :: u64
  Tail :: u64

definition new_RunQueue :: RunQueue where
  "new_RunQueue = \<lparr>Head = 0, Tail = 0\<rparr>"

definition Empty :: "thread_store \<times> RunQueue \<Rightarrow> bool" where
  "Empty = (\<lambda>(th, q). Head q = 0)"

definition Push :: "u64 \<Rightarrow> thread_store \<times> RunQueue \<Rightarrow> thread_store \<times> RunQueue" where
  "Push t = (\<lambda>(th, q).
     let th1 = th(t := (th t)\<lparr>Next := 0\<rparr>);
         th2 = th1(t := (th1 t)\<lparr>Prev := Tail q\<rparr>);
         (th3, q1) = (if Tail q \<noteq> 0
                      then (th2(Tail q := (th2 (Tail q))\<lparr>Next := t\<rparr>), q)
                      else (th2, q\<lparr>Head := t\<rparr>))
     in (th3, q1\<lparr>Tail := t\<rparr>))"

definition PopFront :: "thread_store \<times> RunQueue \<Rightarrow> u64 \<times> thread_store \<times> RunQueue" where
  "PopFront = (\<lambda>(th, q).
     let t = Head q
     in if t = 0 then (0, th, q)
        else
          let q1 = q\<lparr>Head := Next (th t)\<rparr>;
              (th1, q2) = (if Head q1 \<noteq> 0
                           then (th(Head q1 := (th (Head q1))\<lparr>Prev := 0\<rparr>), q1)
                           else (th, q1\<lparr>Tail := 0\<rparr>));
              th2 = th1(t := (th1 t)\<lparr>Prev := 0\<rparr>);
              th3 = th2(t := (th2 t)\<lparr>Next := 0\<rparr>)
          in (t, th3, q2))"

subsection \<open>The list behind the pointers\<close>

definition queue_list :: "thread_store \<times> RunQueue \<Rightarrow> u64 list \<Rightarrow> bool" where
  "queue_list = (\<lambda>(th, q) xs.
     distinct xs \<and> 0 \<notin> set xs \<and>
     Head q = (if xs = [] then 0 else hd xs) \<and> Tail q = (if xs = [] then 0 else last xs) \<and>
     (\<forall>i<length xs. Next (th (xs ! i)) = (if Suc i < length xs then xs ! Suc i else 0) \<and>
                    Prev (th (xs ! i)) = (if i = 0 then 0 else xs ! (i - 1))))"

text \<open>A thread without its links: the part queue operations leave alone.\<close>

definition payload :: "thread_store \<times> RunQueue \<Rightarrow> u64 \<Rightarrow> Thread" where
  "payload = (\<lambda>(th, q) t. (th t)\<lparr>Next := 0, Prev := 0\<rparr>)"

lemma payload_fields:
  assumes "payload s = payload s'"
  shows "State (fst s t) = State (fst s' t)" "RSP (fst s t) = RSP (fst s' t)"
    "KStack (fst s t) = KStack (fst s' t)" "Entry (fst s t) = Entry (fst s' t)" "Arg (fst s t) = Arg (fst s' t)"
proof -
  have "(fst s t)\<lparr>Next := 0, Prev := 0\<rparr> = (fst s' t)\<lparr>Next := 0, Prev := 0\<rparr>"
    using fun_cong [OF assms, of t] by (cases s; cases s') (simp add: payload_def)
  then show "State (fst s t) = State (fst s' t)" "RSP (fst s t) = RSP (fst s' t)"
    "KStack (fst s t) = KStack (fst s' t)" "Entry (fst s t) = Entry (fst s' t)" "Arg (fst s t) = Arg (fst s' t)"
    by (cases "fst s t"; cases "fst s' t"; simp)+
qed

lemma Push_queue_list:
  assumes q: "queue_list s xs" and t: "t \<noteq> 0" "t \<notin> set xs"
  shows "queue_list (Push t s) (xs @ [t])"
proof (cases "xs = []")
  case True
  with assms show ?thesis by (cases s) (simp add: queue_list_def Push_def)
next
  case False
  obtain th r where s: "s = (th, r)" by (cases s)
  define n where "n = length xs"
  have n: "0 < n" "last xs = xs ! (n - 1)" using False by (auto simp: n_def last_conv_nth)
  have l1: "last xs \<in> set xs" using False by simp
  moreover have "0 \<notin> set xs" using q by (simp add: queue_list_def s)
  ultimately have l: "last xs \<in> set xs" "last xs \<noteq> 0" by metis+
  have tail: "Tail r = last xs" using q False by (simp add: queue_list_def s)
  define th' where "th' = fst (Push t s)"
  have th': "th' = (th(t := (th t)\<lparr>Next := 0, Prev := last xs\<rparr>))(last xs := (th (last xs))\<lparr>Next := t\<rparr>)"
    using l t by (auto simp: th'_def Push_def s tail Let_def fun_eq_iff)
  have P: "snd (Push t s) = \<lparr>Head = hd xs, Tail = t\<rparr>"
    using l q False by (simp add: Push_def s tail Let_def queue_list_def)
  have idx: "xs ! i = last xs \<longleftrightarrow> i = n - 1" if "i < n" for i
    using that q n by (simp add: queue_list_def s nth_eq_iff_index_eq n_def)
  have nt: "xs ! i \<noteq> t" if "i < n" for i using that t(2) by (auto simp: n_def)
  have "Next (th' ((xs @ [t]) ! i)) = (if Suc i < Suc n then (xs @ [t]) ! Suc i else 0) \<and>
        Prev (th' ((xs @ [t]) ! i)) = (if i = 0 then 0 else (xs @ [t]) ! (i - 1))" if "i < Suc n" for i
  proof (cases "i = n")
    case True
    then show ?thesis using n l t(2) by (auto simp: th' nth_append n_def [symmetric])
  next
    case i: False
    then have "i < n" using that by simp
    with q n idx [of i] nt [of i] show ?thesis
      by (auto simp: th' nth_append n_def [symmetric] queue_list_def s)
  qed
  moreover have "Push t s = (th', snd (Push t s))" by (simp add: th'_def)
  ultimately show ?thesis
    using q t False P by (auto simp: queue_list_def s n_def)
qed

lemma PopFront_queue_list:
  assumes q: "queue_list s (x # xs)"
  shows "fst (PopFront s) = x" and "queue_list (snd (PopFront s)) xs"
proof -
  obtain th r where s: "s = (th, r)" by (cases s)
  have d: "distinct (x # xs)" "0 \<notin> set (x # xs)" "Head r = x" "Tail r = last (x # xs)"
    using q by (auto simp: queue_list_def s split: if_splits)
  have link: "Next (th ((x # xs) ! i)) = (if Suc i < length (x # xs) then (x # xs) ! Suc i else 0)"
    "Prev (th ((x # xs) ! i)) = (if i = 0 then 0 else (x # xs) ! (i - 1))" if "i < length (x # xs)" for i
    using q that by (auto simp: queue_list_def s)
  have nx: "Next (th x) = (if xs = [] then 0 else hd xs)"
    using link(1) [of 0] by (auto simp: hd_conv_nth)
  show "fst (PopFront s) = x" using d by (auto simp: PopFront_def s Let_def split: prod.splits)
  show "queue_list (snd (PopFront s)) xs"
  proof (cases "xs = []")
    case True
    then show ?thesis using d nx by (simp add: PopFront_def s Let_def queue_list_def)
  next
    case False
    then have "hd xs \<in> set xs" by simp
    then have h: "hd xs \<noteq> 0" "hd xs \<noteq> x" using d(1,2) by (metis distinct.simps(2) list.set_intros(2))+
    have "Next (th (xs ! i)) = (if Suc i < length xs then xs ! Suc i else 0) \<and>
        Prev (th (xs ! i)) = (if i = 0 then x else xs ! (i - 1))" if "i < length xs" for i
      using link [of "Suc i"] that by (cases i) auto
    moreover have "xs ! i = hd xs \<longleftrightarrow> i = 0" if "i < length xs" for i
      using that d False by (simp add: hd_conv_nth nth_eq_iff_index_eq)
    moreover have "xs ! i \<noteq> x" if "i < length xs" for i using nth_mem [OF that] d(1) by (metis distinct.simps(2))
    moreover have "Next (th (hd xs)) = (if Suc 0 < length xs then xs ! Suc 0 else 0)"
      using link(1) [of 1] False by (simp add: hd_conv_nth)
    ultimately show ?thesis
      using d nx h False by (simp add: PopFront_def s Let_def queue_list_def)
  qed
qed

lemma payload_Push: "payload (Push t s) = payload s"
  by (cases s) (auto simp: payload_def Push_def Let_def fun_eq_iff)

lemma payload_PopFront: "payload (snd (PopFront s)) = payload s"
  by (cases s) (auto simp: payload_def PopFront_def Let_def fun_eq_iff split: prod.splits)

subsection \<open>The interface the scheduler relies on\<close>

text \<open>\<open>n\<close> removals in a row, oldest result first.\<close>

primrec pop_many :: "('s \<Rightarrow> u64 \<times> 's) \<Rightarrow> nat \<Rightarrow> 's \<Rightarrow> u64 list \<times> 's" where
  "pop_many pop 0 s = ([], s)"
| "pop_many pop (Suc n) s = (let (x, s1) = pop s; (xs, s2) = pop_many pop n s1 in (x # xs, s2))"

locale fifo_queue =
  fixes is_empty :: "'s \<Rightarrow> bool"
    and push :: "u64 \<Rightarrow> 's \<Rightarrow> 's"
    and pop :: "'s \<Rightarrow> u64 \<times> 's"
    and contents :: "'s \<Rightarrow> u64 list \<Rightarrow> bool"
    and rest :: "'s \<Rightarrow> 'd"
  assumes contents_wf: "contents s xs \<Longrightarrow> distinct xs \<and> 0 \<notin> set xs"
    and empty_iff: "contents s xs \<Longrightarrow> is_empty s \<longleftrightarrow> xs = []"
    and push_contents: "contents s xs \<Longrightarrow> t \<noteq> 0 \<Longrightarrow> t \<notin> set xs \<Longrightarrow> contents (push t s) (xs @ [t])"
    and push_rest: "rest (push t s) = rest s"
    and pop_nil: "contents s [] \<Longrightarrow> pop s = (0, s)"
    and pop_cons: "contents s (x # xs) \<Longrightarrow> fst (pop s) = x \<and> contents (snd (pop s)) xs"
    and pop_rest: "rest (snd (pop s)) = rest s"
begin

lemma contents_unique: "contents s xs \<Longrightarrow> contents s ys \<Longrightarrow> xs = ys"
proof (induction xs arbitrary: s ys)
  case Nil
  then show ?case using empty_iff [of s "[]"] empty_iff [of s ys] by simp
next
  case (Cons x xs)
  then obtain y zs where "ys = y # zs"
    using empty_iff [of s "x # xs"] empty_iff [of s ys] by (cases ys) auto
  then show ?case using Cons pop_cons by metis
qed

lemma push_all:
  "contents s xs \<Longrightarrow> distinct ts \<Longrightarrow> 0 \<notin> set ts \<Longrightarrow> set ts \<inter> set xs = {} \<Longrightarrow>
     contents (fold push ts s) (xs @ ts) \<and> rest (fold push ts s) = rest s"
proof (induction ts arbitrary: s xs)
  case (Cons t ts)
  then have "contents (push t s) (xs @ [t])" by (intro push_contents) auto
  from Cons.IH [OF this] Cons.prems show ?case by (auto simp: push_rest)
qed simp

lemma pop_all:
  "contents s (xs @ ys) \<Longrightarrow> fst (pop_many pop (length xs) s) = xs \<and>
     contents (snd (pop_many pop (length xs) s)) ys \<and> rest (snd (pop_many pop (length xs) s)) = rest s"
proof (induction xs arbitrary: s)
  case (Cons x xs)
  then have "fst (pop s) = x" "contents (snd (pop s)) (xs @ ys)" using pop_cons by auto
  with Cons.IH [of "snd (pop s)"] show ?case by (auto simp: pop_rest split: prod.splits)
qed simp

text \<open>First in, first out: what was pushed comes out in that order, behind what was there before.\<close>

lemma push_then_pop:
  assumes "contents s xs" and "distinct ts" and "0 \<notin> set ts" and "set ts \<inter> set xs = {}"
  shows "fst (pop_many pop (length (xs @ ts)) (fold push ts s)) = xs @ ts \<and>
    is_empty (snd (pop_many pop (length (xs @ ts)) (fold push ts s))) \<and>
    rest (snd (pop_many pop (length (xs @ ts)) (fold push ts s))) = rest s"
  using push_all [OF assms] pop_all [of "fold push ts s" "xs @ ts" "[]"] by (auto simp: empty_iff)

end

interpretation rq: fifo_queue Empty Push PopFront queue_list payload
proof (unfold_locales, goal_cases)
  case (1 s xs)
  then show ?case by (cases s) (simp add: queue_list_def)
next
  case (2 s xs)
  then show ?case by (cases s; cases xs) (auto simp: queue_list_def Empty_def)
next
  case (3 s xs t)
  then show ?case by (rule Push_queue_list)
next
  case (4 t s)
  show ?case by (rule payload_Push)
next
  case (5 s)
  then show ?case by (cases s) (simp add: queue_list_def PopFront_def)
next
  case (6 s x xs)
  then show ?case using PopFront_queue_list by blast
next
  case (7 s)
  show ?case by (rule payload_PopFront)
qed

subsection \<open>Properties\<close>

text \<open>
  C31. The run queue is first in, first out: pushing distinct threads that are not queued yet and then
  popping returns the old contents followed by the pushed threads, in that order, leaves the queue
  empty and changes nothing of any thread but its links.
\<close>

theorem RunQueue_fifo:
  assumes "queue_list s xs" and "distinct ts" and "0 \<notin> set ts" and "set ts \<inter> set xs = {}"
  shows "fst (pop_many PopFront (length (xs @ ts)) (fold Push ts s)) = xs @ ts \<and>
    Empty (snd (pop_many PopFront (length (xs @ ts)) (fold Push ts s))) \<and>
    payload (snd (pop_many PopFront (length (xs @ ts)) (fold Push ts s))) = payload s"
  using rq.push_then_pop [OF assms] .

theorem RunQueue_fifo_witness:
  "fst (pop_many PopFront 3 (fold Push [0x1000, 0x3000, 0x2000] (\<lambda>_. new_Thread, new_RunQueue))) = [0x1000, 0x3000, 0x2000]"
proof -
  have "queue_list (\<lambda>_. new_Thread, new_RunQueue) []" by (simp add: queue_list_def new_RunQueue_def)
  from RunQueue_fifo [OF this, of "[0x1000, 0x3000, 0x2000]"] show ?thesis by (simp add: numeral_3_eq_3)
qed

text \<open>
  \<open>Push\<close> does not guard against a thread that is already queued: pushing the thread at the tail
  again makes it its own successor, and then \<open>PopFront\<close> on the queue that holds only that thread
  returns it and leaves it at the head forever.
\<close>

lemma Push_twice_cycle:
  assumes "queue_list s [t]"
  shows "Next (fst (Push t s) t) = t \<and> fst (PopFront (Push t s)) = t \<and> Head (snd (snd (PopFront (Push t s)))) = t"
  using assms by (cases s) (auto simp: queue_list_def Push_def PopFront_def Let_def)

lemma Push_twice_cycle_example:
  "fst (PopFront (Push 0x1000 (Push 0x1000 (\<lambda>_. new_Thread, new_RunQueue)))) = 0x1000"
proof -
  have "queue_list (\<lambda>_. new_Thread, new_RunQueue) []" by (simp add: queue_list_def new_RunQueue_def)
  from Push_queue_list [OF this, of "0x1000"] have "queue_list (Push 0x1000 (\<lambda>_. new_Thread, new_RunQueue)) [0x1000]"
    by simp
  from Push_twice_cycle [OF this] show ?thesis by blast
qed

end
