(* ===== verification/ContextSwitch.thy ===== *)
theory ContextSwitch
  imports PageAllocator ThreadQueue
begin

text \<open>
  Kernel stacks (\<open>Kernel/Core/Scheduler/KernelStack.cpp\<close>), the initial stack of a thread
  (\<open>Thread::PrepareInitialStack\<close>) and the assembly routine \<open>ArchSwitchContext\<close>
  (\<open>Kernel/Arch/x86_64/CPU/SwitchContext.S\<close>), on the byte-addressed memory. The registers are the
  callee-saved ones, the stack pointer and the instruction pointer; everything else is dead across
  a call. \<open>ArchSwitchContext\<close> runs from its entry (return address on the stack) to its \<open>ret\<close>,
  instruction by instruction, and returns the value it stores through \<open>oldRSPOut\<close>.
\<close>

subsection \<open>Kernel stacks\<close>

definition DEFAULT_STACK_SIZE :: u64 where
  "DEFAULT_STACK_SIZE = 16 * 1024"

definition KernelStack_Allocate :: "u64 \<Rightarrow> KernelStack \<Rightarrow> byte_array \<Rightarrow> bool \<times> KernelStack \<times> byte_array" where
  "KernelStack_Allocate bytes0 ks bm =
     (let bytes = (if bytes0 = 0 then DEFAULT_STACK_SIZE else bytes0);
          (mem, bm') = AllocatePage_size bytes bm
      in if mem = 0 then (False, ks, bm')
         else (True, ks\<lparr>m_Base := mem, m_Size := pages_for bytes * PAGE_SIZE\<rparr>, bm'))"

definition KernelStack_Free :: "KernelStack \<Rightarrow> byte_array \<Rightarrow> byte_array" where
  "KernelStack_Free ks bm = FreePage_size (m_Base ks) (m_Size ks) bm"

definition Top :: "KernelStack \<Rightarrow> u64" where
  "Top ks = m_Base ks + m_Size ks"

subsection \<open>Stack frames\<close>

definition stack_push :: "u64 \<Rightarrow> u64 \<times> memory \<Rightarrow> u64 \<times> memory" where
  "stack_push v = (\<lambda>(sp, m). (sp - 8, write64 m (sp - 8) v))"

definition PrepareInitialStack :: "u64 \<Rightarrow> Thread \<Rightarrow> memory \<Rightarrow> Thread \<times> memory" where
  "PrepareInitialStack trampoline t m =
     (let sp0 = Top (KStack t);
          (sp, m') = fold stack_push [0, trampoline, 0, 0, 0, 0, 0, 0] (sp0, m)
      in (t\<lparr>RSP := sp\<rparr>, m'))"

record cpu_regs =
  rsp :: u64
  rbp :: u64
  rbx :: u64
  r12 :: u64
  r13 :: u64
  r14 :: u64
  r15 :: u64
  rip :: u64

definition asm_push :: "(cpu_regs \<Rightarrow> u64) \<Rightarrow> cpu_regs \<times> memory \<Rightarrow> cpu_regs \<times> memory" where
  "asm_push reg = (\<lambda>(c, m). (c\<lparr>rsp := rsp c - 8\<rparr>, write64 m (rsp c - 8) (reg c)))"

definition asm_pop :: "((u64 \<Rightarrow> u64) \<Rightarrow> cpu_regs \<Rightarrow> cpu_regs) \<Rightarrow> cpu_regs \<times> memory \<Rightarrow> cpu_regs \<times> memory" where
  "asm_pop upd = (\<lambda>(c, m). ((upd (\<lambda>_. read64 m (rsp c)) c)\<lparr>rsp := rsp c + 8\<rparr>, m))"

definition asm_call :: "u64 \<Rightarrow> cpu_regs \<times> memory \<Rightarrow> cpu_regs \<times> memory" where
  "asm_call ret = asm_push (\<lambda>_. ret)"

definition ArchSwitchContext :: "u64 \<Rightarrow> cpu_regs \<times> memory \<Rightarrow> u64 \<times> cpu_regs \<times> memory" where
  "ArchSwitchContext newRSP s =
     (let (c1, m1) = fold asm_push [rbp, rbx, r12, r13, r14, r15] s;
          old = rsp c1;
          c2 = c1\<lparr>rsp := newRSP\<rparr>
      in (old, fold asm_pop [r15_update, r14_update, r13_update, r12_update, rbx_update, rbp_update, rip_update]
                (c2, m1)))"

subsection \<open>Words on the stack\<close>

text \<open>\<open>stack_words m sp ws\<close>: the 64-bit words from \<open>sp\<close> upwards.\<close>

definition stack_words :: "memory \<Rightarrow> u64 \<Rightarrow> u64 list \<Rightarrow> bool" where
  "stack_words m sp ws \<longleftrightarrow> (\<forall>i<length ws. read64 m (sp + 8 * of_nat i) = ws ! i)"

lemma words_apart:
  assumes "8 \<le> unat (b - a)" and "8 \<le> unat (a - b)"
  shows "ranges_apart a 8 b 8"
  unfolding ranges_apart_def
proof (intro allI impI notI)
  fix i j :: nat assume ij: "i < 8" "j < 8" and eq: "a + of_nat i = b + of_nat j"
  have u: "unat (of_nat k :: u64) = k" if "k < 8" for k using that by (intro unat_of_nat_nowrap) simp
  show False
  proof (cases "j \<le> i")
    case True
    then have "b - a = of_nat (i - j)" using eq by (simp add: of_nat_diff algebra_simps)
    with u [of "i - j"] ij assms(1) show False by simp
  next
    case False
    then have "a - b = of_nat (j - i)" using eq by (simp add: of_nat_diff algebra_simps)
    with u [of "j - i"] ij assms(2) show False by simp
  qed
qed

text \<open>Distinct slots of one stack (offsets below \<open>2 ^ 60\<close>) do not overlap.\<close>

lemma slots_apart:
  assumes "i < 1152921504606846976" "j < 1152921504606846976" "i \<noteq> j"
  shows "ranges_apart (sp + 8 * of_nat i) 8 (sp + 8 * of_nat j) 8"
proof (rule words_apart)
  have "8 \<le> unat (8 * of_nat b - 8 * of_nat a :: u64)"
    if "a < 1152921504606846976" "b < 1152921504606846976" "a \<noteq> b" for a b :: nat
  proof (cases "a \<le> b")
    case True
    then have "8 * of_nat b - 8 * of_nat a = (of_nat (8 * (b - a)) :: u64)" by (simp add: of_nat_diff algebra_simps)
    moreover have "unat (of_nat (8 * (b - a)) :: u64) = 8 * (b - a)" using that by (intro unat_of_nat_nowrap) simp
    ultimately show ?thesis using True that by simp
  next
    case False
    then have e: "8 * of_nat b - 8 * of_nat a = - (of_nat (8 * (a - b)) :: u64)" by (simp add: of_nat_diff algebra_simps)
    have "unat (- (of_nat (8 * (a - b)) :: u64)) = 18446744073709551616 - 8 * (a - b)"
      using False that by (intro unat_minus_of_nat) auto
    then show ?thesis unfolding e using that by simp
  qed
  from this [OF assms] this [OF assms(2,1)] assms(3)
  show "8 \<le> unat (sp + 8 * of_nat j - (sp + 8 * of_nat i))" "8 \<le> unat (sp + 8 * of_nat i - (sp + 8 * of_nat j))"
    by simp_all
qed

lemma stack_push_words:
  assumes "stack_words m sp ws" and "length ws < 1000"
  shows "stack_push v (sp, m) = (sp - 8, write64 m (sp - 8) v)" and "stack_words (write64 m (sp - 8) v) (sp - 8) (v # ws)"
proof -
  show "stack_push v (sp, m) = (sp - 8, write64 m (sp - 8) v)" by (simp add: stack_push_def)
  show "stack_words (write64 m (sp - 8) v) (sp - 8) (v # ws)"
    unfolding stack_words_def
  proof (intro allI impI)
    fix i assume i: "i < length (v # ws)"
    show "read64 (write64 m (sp - 8) v) (sp - 8 + 8 * of_nat i) = (v # ws) ! i"
    proof (cases i)
      case 0
      then show ?thesis by simp
    next
      case (Suc k)
      have "ranges_apart (sp - 8) 8 (sp - 8 + 8 * of_nat i) 8"
        using slots_apart [of 0 i "sp - 8"] Suc i assms(2) by simp
      moreover have "sp - 8 + 8 * of_nat i = sp + 8 * of_nat k" using Suc by (simp add: algebra_simps)
      ultimately show ?thesis using Suc i assms(1) by (simp add: stack_words_def)
    qed
  qed
qed

lemma fold_stack_push:
  assumes "stack_words m sp ws" and "length vs + length ws < 1000"
  shows "\<exists>m'. fold stack_push vs (sp, m) = (sp - 8 * of_nat (length vs), m') \<and>
     stack_words m' (sp - 8 * of_nat (length vs)) (rev vs @ ws)"
  using assms
proof (induction vs arbitrary: sp m ws)
  case (Cons v vs)
  from stack_push_words [OF Cons.prems(1), of v] Cons.prems(2)
  have "stack_words (write64 m (sp - 8) v) (sp - 8) (v # ws)" by simp
  from Cons.IH [OF this] Cons.prems(2) show ?case by (simp add: stack_push_def algebra_simps)
qed simp

lemma fold_stack_push_other:
  assumes "\<forall>i<8 * length vs. x \<noteq> sp - of_nat (8 * length vs) + of_nat i"
  shows "snd (fold stack_push vs (sp, m)) x = m x"
  using assms
proof (induction vs arbitrary: sp m)
  case (Cons v vs)
  have "write64 m (sp - 8) v x = m x"
    unfolding write64_def
  proof (rule write_bytes_other)
    fix k assume "k < length (le_bytes 8 v)"
    then have "8 * length vs + k < 8 * length (v # vs)" by simp
    with Cons.prems have "x \<noteq> sp - of_nat (8 * length (v # vs)) + of_nat (8 * length vs + k)" by blast
    then show "x \<noteq> sp - 8 + of_nat k" by (simp add: algebra_simps)
  qed
  moreover have "\<forall>i<8 * length vs. x \<noteq> sp - 8 - of_nat (8 * length vs) + of_nat i"
    using Cons.prems by (auto simp: algebra_simps)
  ultimately show ?case using Cons.IH [of "sp - 8"] by (simp add: stack_push_def)
qed simp

lemma stack_words_cong:
  assumes "stack_words m n ws" and "\<forall>k<8 * length ws. m' (n + of_nat k) = m (n + of_nat k)"
  shows "stack_words m' n ws"
  unfolding stack_words_def
proof (intro allI impI)
  fix i assume i: "i < length ws"
  have "read_bytes m' (n + 8 * of_nat i) 8 = read_bytes m (n + 8 * of_nat i) 8"
  proof (rule nth_equalityI)
    fix k assume "k < length (read_bytes m' (n + 8 * of_nat i) 8)"
    with i have k: "k < 8" "8 * i + k < 8 * length ws" by auto
    have "n + 8 * of_nat i + of_nat k = n + of_nat (8 * i + k)" by simp
    moreover have "m' (n + of_nat (8 * i + k)) = m (n + of_nat (8 * i + k))" using k(2) assms(2) by blast
    ultimately have "m' (n + 8 * of_nat i + of_nat k) = m (n + 8 * of_nat i + of_nat k)" by (simp only:)
    with k(1) show "read_bytes m' (n + 8 * of_nat i) 8 ! k = read_bytes m (n + 8 * of_nat i) 8 ! k" by simp
  qed simp
  with assms(1) i show "read64 m' (n + 8 * of_nat i) = ws ! i" by (simp add: stack_words_def read64_def)
qed

lemma stack_words_apart:
  assumes "stack_words m n ws"
    and "ranges_apart (sp - of_nat (8 * length vs)) (8 * length vs) n (8 * length ws)"
  shows "stack_words (snd (fold stack_push vs (sp, m))) n ws"
proof (rule stack_words_cong [OF assms(1)], intro allI impI fold_stack_push_other)
  fix k i assume "k < 8 * length ws" "i < 8 * length vs"
  with assms(2) have "sp - of_nat (8 * length vs) + of_nat i \<noteq> n + of_nat k"
    unfolding ranges_apart_def by blast
  then show "n + of_nat k \<noteq> sp - of_nat (8 * length vs) + of_nat i" by (rule not_sym)
qed

subsection \<open>Switching\<close>

definition saved_regs :: "cpu_regs \<Rightarrow> u64 list" where
  "saved_regs c = [rbp c, rbx c, r12 c, r13 c, r14 c, r15 c]"

lemma ArchSwitchContext_eq:
  "ArchSwitchContext n (c, m) =
     (let m1 = snd (fold stack_push (saved_regs c) (rsp c, m))
      in (rsp c - 48,
          \<lparr>rsp = n + 56, rbp = read64 m1 (n + 40), rbx = read64 m1 (n + 32), r12 = read64 m1 (n + 24),
           r13 = read64 m1 (n + 16), r14 = read64 m1 (n + 8), r15 = read64 m1 n, rip = read64 m1 (n + 48)\<rparr>,
          m1))"
  by (cases c) (simp add: ArchSwitchContext_def saved_regs_def asm_push_def asm_pop_def stack_push_def
      Let_def algebra_simps)

text \<open>
  The frame \<open>ArchSwitchContext\<close> expects at the new stack pointer, in the order it pops it.
\<close>

lemma ArchSwitchContext_loads:
  assumes "stack_words m n [w15, w14, w13, w12, wbx, wbp, ret]"
    and "ranges_apart (rsp c - 48) 48 n 56"
  shows "fst (snd (ArchSwitchContext n (c, m))) =
    \<lparr>rsp = n + 56, rbp = wbp, rbx = wbx, r12 = w12, r13 = w13, r14 = w14, r15 = w15, rip = ret\<rparr>"
proof -
  let ?m1 = "snd (fold stack_push (saved_regs c) (rsp c, m))"
  have "stack_words ?m1 n [w15, w14, w13, w12, wbx, wbp, ret]"
    using assms by (intro stack_words_apart) (simp_all add: saved_regs_def)
  then have w: "i < 7 \<Longrightarrow> read64 ?m1 (n + 8 * of_nat i) = [w15, w14, w13, w12, wbx, wbp, ret] ! i" for i
    by (simp add: stack_words_def)
  show ?thesis
    using w [of 0] w [of 1] w [of 2] w [of 3] w [of 4] w [of 5] w [of 6]
    by (simp add: ArchSwitchContext_eq Let_def)
qed

lemma ArchSwitchContext_saves:
  assumes "stack_words m (rsp c) [ret]"
  shows "fst (ArchSwitchContext n (c, m)) = rsp c - 48"
    and "stack_words (snd (snd (ArchSwitchContext n (c, m)))) (rsp c - 48) (rev (saved_regs c) @ [ret])"
proof -
  show "fst (ArchSwitchContext n (c, m)) = rsp c - 48" by (simp add: ArchSwitchContext_eq Let_def)
  from fold_stack_push [OF assms, of "saved_regs c"]
  show "stack_words (snd (snd (ArchSwitchContext n (c, m)))) (rsp c - 48) (rev (saved_regs c) @ [ret])"
    by (auto simp: ArchSwitchContext_eq Let_def saved_regs_def)
qed

lemma PrepareInitialStack_words:
  assumes "PrepareInitialStack tr t m = (t', m')"
  shows "RSP t' = Top (KStack t) - 64" and "stack_words m' (Top (KStack t) - 64) [0, 0, 0, 0, 0, 0, tr, 0]"
proof -
  have "stack_words m (Top (KStack t)) []" by (simp add: stack_words_def)
  from fold_stack_push [OF this, of "[0, tr, 0, 0, 0, 0, 0, 0]"] obtain m'' where
    f: "fold stack_push [0, tr, 0, 0, 0, 0, 0, 0] (Top (KStack t), m) = (Top (KStack t) - 64, m'')"
      "stack_words m'' (Top (KStack t) - 64) [0, 0, 0, 0, 0, 0, tr, 0]" by auto
  from assms have t': "t' = t\<lparr>RSP := Top (KStack t) - 64\<rparr>" "m' = m''"
    unfolding PrepareInitialStack_def Let_def f(1) by auto
  with f(2) show "RSP t' = Top (KStack t) - 64" and "stack_words m' (Top (KStack t) - 64) [0, 0, 0, 0, 0, 0, tr, 0]"
    by simp_all
qed

lemma stack_words_append: "stack_words m sp (xs @ ys) \<Longrightarrow> stack_words m sp xs"
  by (auto simp: stack_words_def nth_append)

lemma stack_words_nth: "stack_words m sp ws \<Longrightarrow> i < length ws \<Longrightarrow> read64 m (sp + 8 * of_nat i) = ws ! i"
  by (simp add: stack_words_def)

subsection \<open>Properties\<close>

text \<open>A thread with a four-page stack at \<open>0x10000\<close>, and a processor running on a stack below \<open>sp\<close>.\<close>

definition example_thread :: Thread where
  "example_thread = new_Thread\<lparr>KStack := \<lparr>m_Base = 0x10000, m_Size = 0x4000\<rparr>\<rparr>"

definition example_regs :: "u64 \<Rightarrow> cpu_regs" where
  "example_regs sp = \<lparr>rsp = sp, rbp = 1, rbx = 2, r12 = 3, r13 = 4, r14 = 5, r15 = 6, rip = 7\<rparr>"

text \<open>
  C32. A new thread starts where it should: switching to the stack that \<open>PrepareInitialStack\<close> built
  enters \<open>ThreadStartTrampoline\<close> with all callee-saved registers zero, the stack pointer eight bytes
  below the top of the thread's stack (the alignment the ABI requires at a function entry) and a zero
  return address there, provided the stack of the outgoing thread does not overlap the new frame.
\<close>

theorem new_thread_enters_trampoline:
  assumes "PrepareInitialStack tr t m = (t', m')"
    and "ranges_apart (rsp c - 48) 48 (RSP t') 56"
  shows "fst (snd (ArchSwitchContext (RSP t') (c, m'))) =
      \<lparr>rsp = Top (KStack t) - 8, rbp = 0, rbx = 0, r12 = 0, r13 = 0, r14 = 0, r15 = 0, rip = tr\<rparr> \<and>
    read64 m' (Top (KStack t) - 8) = 0 \<and>
    (16 dvd unat (Top (KStack t)) \<longrightarrow> unat (Top (KStack t) - 8) mod 16 = 8)"
proof (intro conjI impI)
  note w = PrepareInitialStack_words [OF assms(1)]
  have "stack_words m' (RSP t') ([0, 0, 0, 0, 0, 0, tr] @ [0])" using w by simp
  note f = stack_words_append [OF this]
  show "fst (snd (ArchSwitchContext (RSP t') (c, m'))) =
      \<lparr>rsp = Top (KStack t) - 8, rbp = 0, rbx = 0, r12 = 0, r13 = 0, r14 = 0, r15 = 0, rip = tr\<rparr>"
    using ArchSwitchContext_loads [OF f assms(2)] by (simp add: w(1))
  show "read64 m' (Top (KStack t) - 8) = 0" using stack_words_nth [OF w(2), of 7] by simp
  assume d: "16 dvd unat (Top (KStack t))"
  show "unat (Top (KStack t) - 8) mod 16 = 8"
  proof (cases "Top (KStack t) = 0")
    case True
    then show ?thesis by simp
  next
    case False
    then have "16 \<le> unat (Top (KStack t))" using d by (auto simp: word_unat_eq_iff dest: dvd_imp_le)
    then have "unat (Top (KStack t) - 8) = unat (Top (KStack t)) - 8"
      by (subst unat_sub) (auto simp: word_le_nat_alt)
    also have "\<dots> mod 16 = 8"
    proof -
      obtain k where "unat (Top (KStack t)) = 16 * Suc k"
        using d \<open>16 \<le> unat (Top (KStack t))\<close> by (metis dvdE mult_0_right not_numeral_le_zero not0_implies_Suc)
      then have "unat (Top (KStack t)) - 8 = 8 + 16 * k" by simp
      then show ?thesis by simp
    qed
    finally show ?thesis .
  qed
qed

theorem new_thread_enters_trampoline_witness:
  "rip (fst (snd (ArchSwitchContext (RSP (fst (PrepareInitialStack 0x4242 example_thread (\<lambda>_. 0))))
      (example_regs 0x9000, snd (PrepareInitialStack 0x4242 example_thread (\<lambda>_. 0)))))) = 0x4242"
proof -
  let ?p = "PrepareInitialStack 0x4242 example_thread (\<lambda>_. 0)"
  have "RSP (fst ?p) = 0x13FC0"
    using PrepareInitialStack_words(1) [OF prod.collapse [symmetric, of ?p]]
    by (simp add: Top_def example_thread_def)
  then have "ranges_apart (rsp (example_regs 0x9000) - 48) 48 (RSP (fst ?p)) 56"
    by (intro ranges_apartI) (simp_all add: example_regs_def)
  from new_thread_enters_trampoline [OF prod.collapse [symmetric] this] show ?thesis by simp
qed

text \<open>
  C14. A context switch loses nothing: a thread that was switched out with registers \<open>c\<close> and return
  address \<open>ret\<close> on its stack, and whose saved frame is unchanged in memory, continues at \<open>ret\<close> with the
  same callee-saved registers and its stack pointer behind the return address when some other context
  switches back to the stack pointer stored for it.
\<close>

theorem switch_roundtrip:
  assumes "ArchSwitchContext n (c, m) = (old, c1, m1)" and "read64 m (rsp c) = ret"
    and "\<forall>k<56. m2 (old + of_nat k) = m1 (old + of_nat k)"
    and "ranges_apart (rsp c2 - 48) 48 old 56"
  shows "fst (snd (ArchSwitchContext old (c2, m2))) = c\<lparr>rsp := rsp c + 8, rip := ret\<rparr>"
proof -
  have "stack_words m (rsp c) [ret]" using assms(2) by (simp add: stack_words_def)
  note s = ArchSwitchContext_saves [OF this, of n]
  have old: "old = rsp c - 48" using s(1) assms(1) by simp
  have "stack_words m1 old (rev (saved_regs c) @ [ret])" using s(2) assms(1) old by simp
  then have "stack_words m2 old (rev (saved_regs c) @ [ret])"
    by (rule stack_words_cong) (use assms(3) in \<open>simp add: saved_regs_def\<close>)
  then have "stack_words m2 old [r15 c, r14 c, r13 c, r12 c, rbx c, rbp c, ret]" by (simp add: saved_regs_def)
  from ArchSwitchContext_loads [OF this assms(4)] show ?thesis by (cases c) (simp add: old)
qed

theorem switch_roundtrip_witness:
  "\<exists>old c1 m1. ArchSwitchContext 0x5000 (example_regs 0x9000, (\<lambda>_. 0)) = (old, c1, m1) \<and>
     fst (snd (ArchSwitchContext old (example_regs 0x20000, m1))) = (example_regs 0x9000)\<lparr>rsp := 0x9008, rip := 0\<rparr>"
proof -
  obtain old c1 m1 where s: "ArchSwitchContext 0x5000 (example_regs 0x9000, (\<lambda>_. 0)) = (old, c1, m1)"
    by (metis prod.collapse)
  have r: "read64 (\<lambda>_. 0) (rsp (example_regs 0x9000)) = 0" by (simp add: read64_def read_bytes_def upt_conv_Cons)
  have "old = 0x8FD0"
    using ArchSwitchContext_saves(1) [of "\<lambda>_. 0" "example_regs 0x9000" 0 "0x5000"] s r
    by (simp add: stack_words_def example_regs_def)
  then have "ranges_apart (rsp (example_regs 0x20000) - 48) 48 old 56"
    by (intro ranges_apartI) (simp_all add: example_regs_def)
  from switch_roundtrip [OF s r _ this, of m1] s show ?thesis by (auto simp: example_regs_def)
qed

text \<open>
  A kernel stack from \<open>KernelStack::Allocate\<close> is page aligned, at least as large as requested (16 KiB
  for size 0), consists of pages that were free, and \<open>Free\<close> gives exactly these pages back.
\<close>

lemma KernelStack_roundtrip:
  assumes "bitmap_ok bm" and "unat bytes \<le> 68719476736"
    and "KernelStack_Allocate bytes ks bm = (True, ks', bm')"
  shows "(\<exists>q. m_Base ks' = page_addr q \<and> 0 < q \<and> {q..<q + unat (m_Size ks') div 4096} \<subseteq> free_pages bm) \<and>
    unat bytes \<le> unat (m_Size ks') \<and> 0 < m_Size ks' \<and> 4096 dvd unat (m_Size ks') \<and>
    bitmap_ok bm' \<and> free_pages (KernelStack_Free ks' bm') = free_pages bm"
proof -
  define b where "b = (if bytes = 0 then DEFAULT_STACK_SIZE else bytes)"
  have b: "0 < b" "unat b \<le> 68719476736" "unat bytes \<le> unat b"
    using assms(2) by (auto simp: b_def DEFAULT_STACK_SIZE_def word_gt_0)
  obtain a bm1 where a: "AllocatePage_size b bm = (a, bm1)" by (cases "AllocatePage_size b bm")
  have r: "a \<noteq> 0" "bm1 = bm'" "m_Base ks' = a" "m_Size ks' = pages_for b * PAGE_SIZE"
    using assms(3) a by (auto simp: KernelStack_Allocate_def b_def [symmetric] Let_def split: if_splits)
  define n where "n = unat (pages_for b)"
  have n: "n = (unat b + 4095) div 4096" by (simp add: n_def pages_for_eq)
  have sz: "unat (m_Size ks') = n * 4096"
    using b(2) unfolding r(4) n_def PAGE_SIZE_def by (subst unat_mult_nowrap) (simp_all add: pages_for_eq)
  have "\<exists>q. {q..<q + n} \<subseteq> free_pages bm"
    using AllocatePage_size_none [OF assms(1) b(1)] a r(1) by (auto simp: n_def)
  then obtain q0 where "{q0..<q0 + n} \<subseteq> free_pages bm" by blast
  from AllocatePage_size_some [OF assms(1) b(1) n_def this] a obtain q where
    q: "a = page_addr q" "0 < q" "{q..<q + n} \<subseteq> free_pages bm" by auto
  have "unat b \<le> n * 4096" unfolding n by simp
  moreover have "0 < n" using b(1) by (simp add: n word_less_nat_alt div_greater_zero_iff)
  moreover have "bitmap_ok bm' \<and> free_pages (FreePage_size a b bm') = free_pages bm"
    using early.alloc_size_free_size [OF assms(1) b(1) a r(1)] early.alloc_size_ok [OF assms(1) b(1) a] r(2) by auto
  moreover have "pages_for (m_Size ks') = pages_for b"
    using sz by (simp add: word_unat_eq_iff pages_for_eq n [symmetric])
  then have "FreePage_size (m_Base ks') (m_Size ks') bm' = FreePage_size a b bm'"
    by (simp add: FreePage_size_def r(3))
  ultimately show ?thesis
    using q r(3) sz b(3) by (auto simp: KernelStack_Free_def word_less_nat_alt)
qed

lemma KernelStack_roundtrip_example:
  "\<exists>ks bm. KernelStack_Allocate 5000 (KStack new_Thread) example_bitmap = (True, ks, bm) \<and>
     free_pages (KernelStack_Free ks bm) = {1, 2, 3, 4}"
proof -
  have "fst (KernelStack_Allocate 5000 (KStack new_Thread) example_bitmap)"
    by (simp add: KernelStack_Allocate_def alloc_eval example_bitmap_def)
  then obtain ks bm where k: "KernelStack_Allocate 5000 (KStack new_Thread) example_bitmap = (True, ks, bm)"
    by (metis prod.collapse)
  from KernelStack_roundtrip [OF example_bitmap_ok _ k] k show ?thesis by (auto simp: example_free_pages)
qed

end
