(* ===== verification/RefCount.thy ===== *)
theory RefCount
  imports HailPrelude
begin

text \<open>
  \<open>Kernel/Include/Object/RefCountedBase.hpp\<close> and \<open>Kernel/Include/Utility/RefPtr.hpp\<close>: intrusive
  reference counts and the smart pointer over them.

  The state holds the 64-bit counter of every object (by address), the objects on which
  \<open>delete this\<close> has run, and the \<open>RefPtr\<close> variables: \<open>slot i\<close> is the \<open>m_Ptr\<close> of the variable \<open>i\<close>, or \<open>None\<close>
  if no such variable is alive, so that the self-assignment test \<open>this != &v\<close> is the comparison of
  two indices. The constructors, assignments and the destructor are one function each; \<open>refptr_op\<close>
  lists them, so that a program's use of \<open>RefPtr\<close> is a list of operations. \<open>QueryInterface\<close> is modelled
  for the base class: \<open>iid\<close> is compared with \<open>IID_IKernelObject\<close>, and \<open>out\<close> is an optional result.

  The invariant \<open>ref_ok raw\<close> says that every counter is the number of variables that point to the object
  plus \<open>raw p\<close>, the references held outside of \<open>RefPtr\<close> (the initial one of \<open>m_RefCount{1}\<close> among them).
\<close>

subsection \<open>Counters and smart pointers\<close>

record ref_state =
  m_RefCount :: "u64 \<Rightarrow> u64"
  destroyed :: "u64 list"
  slot :: "nat \<Rightarrow> u64 option"

definition new_object :: "u64 \<Rightarrow> ref_state \<Rightarrow> ref_state" where
  "new_object p s = s\<lparr>m_RefCount := (m_RefCount s)(p := 1)\<rparr>"

definition AddRef :: "u64 \<Rightarrow> ref_state \<Rightarrow> u64 \<times> ref_state" where
  "AddRef p s = (m_RefCount s p + 1, s\<lparr>m_RefCount := (m_RefCount s)(p := m_RefCount s p + 1)\<rparr>)"

definition Release :: "u64 \<Rightarrow> ref_state \<Rightarrow> ref_state" where
  "Release p s =
     (let old = m_RefCount s p; s1 = s\<lparr>m_RefCount := (m_RefCount s)(p := old - 1)\<rparr>
      in if old = 1 then s1\<lparr>destroyed := destroyed s1 @ [p]\<rparr> else s1)"

datatype query_result = NoOut | Null | Object u64

definition QueryInterface :: "bool \<Rightarrow> bool \<Rightarrow> u64 \<Rightarrow> ref_state \<Rightarrow> bool \<times> query_result \<times> ref_state" where
  "QueryInterface out_given iid_is_IKernelObject this s =
     (if \<not> out_given then (False, NoOut, s)
      else if iid_is_IKernelObject then (True, Object this, snd (AddRef this s))
      else (False, Null, s))"

definition m_Ptr :: "ref_state \<Rightarrow> nat \<Rightarrow> u64" where
  "m_Ptr s i = (case slot s i of None \<Rightarrow> 0 | Some p \<Rightarrow> p)"

definition RefPtr_Get :: "ref_state \<Rightarrow> nat \<Rightarrow> u64" where
  "RefPtr_Get s i = m_Ptr s i"

definition RefPtr_bool :: "ref_state \<Rightarrow> nat \<Rightarrow> bool" where
  "RefPtr_bool s i \<longleftrightarrow> m_Ptr s i \<noteq> 0"

text \<open>\<open>operator*\<close> and \<open>operator->\<close>: \<open>None\<close> is the access through a null pointer.\<close>

definition RefPtr_deref :: "ref_state \<Rightarrow> nat \<Rightarrow> u64 option" where
  "RefPtr_deref s i = (if RefPtr_bool s i then Some (RefPtr_Get s i) else None)"

definition set_Ptr :: "nat \<Rightarrow> u64 \<Rightarrow> ref_state \<Rightarrow> ref_state" where
  "set_Ptr i p s = s\<lparr>slot := (slot s)(i := Some p)\<rparr>"

definition AddRef_if :: "u64 \<Rightarrow> ref_state \<Rightarrow> ref_state" where
  "AddRef_if p s = (if p \<noteq> 0 then snd (AddRef p s) else s)"

definition Release_if :: "u64 \<Rightarrow> ref_state \<Rightarrow> ref_state" where
  "Release_if p s = (if p \<noteq> 0 then Release p s else s)"

definition RefPtr_null :: "nat \<Rightarrow> ref_state \<Rightarrow> ref_state" where
  "RefPtr_null i s = set_Ptr i 0 s"

definition RefPtr_ptr :: "nat \<Rightarrow> u64 \<Rightarrow> ref_state \<Rightarrow> ref_state" where
  "RefPtr_ptr i p s = AddRef_if p (set_Ptr i p s)"

definition RefPtr_copy :: "nat \<Rightarrow> nat \<Rightarrow> ref_state \<Rightarrow> ref_state" where
  "RefPtr_copy i j s = AddRef_if (m_Ptr s j) (set_Ptr i (m_Ptr s j) s)"

definition RefPtr_move :: "nat \<Rightarrow> nat \<Rightarrow> ref_state \<Rightarrow> ref_state" where
  "RefPtr_move i j s = set_Ptr j 0 (set_Ptr i (m_Ptr s j) s)"

definition RefPtr_destroy :: "nat \<Rightarrow> ref_state \<Rightarrow> ref_state" where
  "RefPtr_destroy i s = (Release_if (m_Ptr s i) s)\<lparr>slot := (slot s)(i := None)\<rparr>"

definition RefPtr_assign_copy :: "nat \<Rightarrow> nat \<Rightarrow> ref_state \<Rightarrow> ref_state" where
  "RefPtr_assign_copy i j s =
     (if i \<noteq> j
      then let s1 = Release_if (m_Ptr s i) s; s2 = set_Ptr i (m_Ptr s1 j) s1 in AddRef_if (m_Ptr s2 i) s2
      else s)"

definition RefPtr_assign_move :: "nat \<Rightarrow> nat \<Rightarrow> ref_state \<Rightarrow> ref_state" where
  "RefPtr_assign_move i j s =
     (if i \<noteq> j
      then let s1 = Release_if (m_Ptr s i) s in set_Ptr j 0 (set_Ptr i (m_Ptr s1 j) s1)
      else s)"

datatype refptr_op =
    OpNull nat | OpPtr nat u64 | OpCopy nat nat | OpMove nat nat | OpDestroy nat
  | OpAssignCopy nat nat | OpAssignMove nat nat

fun run_op :: "refptr_op \<Rightarrow> ref_state \<Rightarrow> ref_state" where
  "run_op (OpNull i) s = RefPtr_null i s"
| "run_op (OpPtr i p) s = RefPtr_ptr i p s"
| "run_op (OpCopy i j) s = RefPtr_copy i j s"
| "run_op (OpMove i j) s = RefPtr_move i j s"
| "run_op (OpDestroy i) s = RefPtr_destroy i s"
| "run_op (OpAssignCopy i j) s = RefPtr_assign_copy i j s"
| "run_op (OpAssignMove i j) s = RefPtr_assign_move i j s"

subsection \<open>The invariant\<close>

definition SLOTS :: nat where
  "SLOTS = 4294967296"

definition holders :: "ref_state \<Rightarrow> u64 \<Rightarrow> nat" where
  "holders s p = card {i. i < SLOTS \<and> slot s i = Some p}"

definition refs :: "(u64 \<Rightarrow> nat) \<Rightarrow> ref_state \<Rightarrow> u64 \<Rightarrow> nat" where
  "refs raw s p = raw p + holders s p"

definition ref_ok :: "(u64 \<Rightarrow> nat) \<Rightarrow> ref_state \<Rightarrow> bool" where
  "ref_ok raw s \<longleftrightarrow>
     (\<forall>i. slot s i \<noteq> None \<longrightarrow> i < SLOTS) \<and>
     (\<forall>p. raw p < SLOTS) \<and>
     (\<forall>p. p \<noteq> 0 \<and> p \<notin> set (destroyed s) \<longrightarrow> unat (m_RefCount s p) = refs raw s p) \<and>
     (\<forall>p\<in>set (destroyed s). p \<noteq> 0 \<and> refs raw s p = 0)"

text \<open>
  What C++ itself guarantees of a use: a constructor runs on a variable that is not alive, everything
  else on variables that are, and a raw pointer is wrapped only while its object exists.
\<close>

fun op_ok :: "(u64 \<Rightarrow> nat) \<Rightarrow> refptr_op \<Rightarrow> ref_state \<Rightarrow> bool" where
  "op_ok raw (OpNull i) s \<longleftrightarrow> i < SLOTS \<and> slot s i = None"
| "op_ok raw (OpPtr i p) s \<longleftrightarrow> i < SLOTS \<and> slot s i = None \<and> (p = 0 \<or> 0 < refs raw s p)"
| "op_ok raw (OpCopy i j) s \<longleftrightarrow> i < SLOTS \<and> slot s i = None \<and> slot s j \<noteq> None"
| "op_ok raw (OpMove i j) s \<longleftrightarrow> i < SLOTS \<and> slot s i = None \<and> slot s j \<noteq> None"
| "op_ok raw (OpDestroy i) s \<longleftrightarrow> slot s i \<noteq> None"
| "op_ok raw (OpAssignCopy i j) s \<longleftrightarrow> slot s i \<noteq> None \<and> slot s j \<noteq> None"
| "op_ok raw (OpAssignMove i j) s \<longleftrightarrow> slot s i \<noteq> None \<and> slot s j \<noteq> None"

fun ops_ok :: "(u64 \<Rightarrow> nat) \<Rightarrow> refptr_op list \<Rightarrow> ref_state \<Rightarrow> bool" where
  "ops_ok raw [] s \<longleftrightarrow> True"
| "ops_ok raw (x # xs) s \<longleftrightarrow> op_ok raw x s \<and> ops_ok raw xs (run_op x s)"

lemma finite_holders [simp]: "finite {i. i < SLOTS \<and> P i}"
  by simp

lemma holders_le: "holders s p \<le> SLOTS"
proof -
  have "holders s p \<le> card {i. i < SLOTS}" unfolding holders_def by (rule card_mono) auto
  then show ?thesis by simp
qed

lemma holders_slot:
  assumes "slot s' = (slot s)(i := v)" and "i < SLOTS"
  shows "holders s' p + (if slot s i = Some p then 1 else 0) = holders s p + (if v = Some p then 1 else 0)"
proof -
  define A where "A = {k. k < SLOTS \<and> slot s k = Some p} - {i}"
  have A: "finite A" "i \<notin> A" by (auto simp: A_def)
  have "{k. k < SLOTS \<and> slot s k = Some p} = (if slot s i = Some p then insert i A else A)"
    using assms(2) by (auto simp: A_def)
  moreover have "{k. k < SLOTS \<and> slot s' k = Some p} = (if v = Some p then insert i A else A)"
    using assms by (auto simp: A_def)
  ultimately show ?thesis using A by (simp add: holders_def)
qed

lemma refs_less: "ref_ok raw s \<Longrightarrow> refs raw s p < 18446744073709551615"
  using holders_le [of s p] by (auto simp: ref_ok_def refs_def SLOTS_def dest!: spec [of _ p])

lemma holder_refs:
  assumes "ref_ok raw s" and "slot s i = Some p"
  shows "0 < refs raw s p" and "i < SLOTS"
proof -
  show i: "i < SLOTS" using assms by (auto simp: ref_ok_def)
  then have "i \<in> {k. k < SLOTS \<and> slot s k = Some p}" using assms by simp
  then show "0 < refs raw s p" by (auto simp: refs_def holders_def card_gt_0_iff)
qed

text \<open>A pointer that can be dereferenced leads to an object that has not been destroyed.\<close>

lemma RefPtr_deref_alive:
  assumes "ref_ok raw s" and "RefPtr_deref s i = Some p"
  shows "p \<noteq> 0" and "p \<notin> set (destroyed s)" and "unat (m_RefCount s p) = refs raw s p" and "0 < refs raw s p"
proof -
  have p: "slot s i = Some p" and "p \<noteq> 0"
    using assms(2) by (auto simp: RefPtr_deref_def RefPtr_bool_def RefPtr_Get_def m_Ptr_def split: if_splits option.splits)
  note r = holder_refs(1) [OF assms(1) p]
  show "p \<noteq> 0" "0 < refs raw s p" by fact+
  show "p \<notin> set (destroyed s)" using r assms(1) by (auto simp: ref_ok_def)
  then show "unat (m_RefCount s p) = refs raw s p" using \<open>p \<noteq> 0\<close> assms(1) by (simp add: ref_ok_def)
qed

subsection \<open>Gaining, losing and moving a reference\<close>

text \<open>\<open>vacant s i\<close>: writing over variable \<open>i\<close> drops no reference.\<close>

definition vacant :: "ref_state \<Rightarrow> nat \<Rightarrow> bool" where
  "vacant s i \<longleftrightarrow> slot s i = None \<or> slot s i = Some 0"

definition lose :: "nat \<Rightarrow> u64 option \<Rightarrow> ref_state \<Rightarrow> ref_state" where
  "lose i v s = (Release_if (m_Ptr s i) s)\<lparr>slot := (slot s)(i := v)\<rparr>"

lemma ref_fields [simp]:
  "slot (AddRef_if p s) = slot s" "slot (Release_if p s) = slot s" "slot (set_Ptr i p s) = (slot s)(i := Some p)"
  "m_RefCount (set_Ptr i p s) = m_RefCount s" "destroyed (set_Ptr i p s) = destroyed s"
  "destroyed (AddRef_if p s) = destroyed s"
  "m_RefCount (AddRef_if p s) q = (if q = p \<and> p \<noteq> 0 then m_RefCount s p + 1 else m_RefCount s q)"
  "m_RefCount (Release_if p s) q = (if q = p \<and> p \<noteq> 0 then m_RefCount s p - 1 else m_RefCount s q)"
  "destroyed (Release_if p s) = (if p \<noteq> 0 \<and> m_RefCount s p = 1 then destroyed s @ [p] else destroyed s)"
  by (auto simp: AddRef_if_def Release_if_def AddRef_def Release_def set_Ptr_def Let_def)

lemma gain_ok:
  assumes ok: "ref_ok raw s" and i: "i < SLOTS" "vacant s i" and p: "p = 0 \<or> 0 < refs raw s p"
  shows "ref_ok raw (AddRef_if p (set_Ptr i p s))"
    and "q \<noteq> 0 \<Longrightarrow> refs raw (AddRef_if p (set_Ptr i p s)) q = refs raw s q + (if q = p then 1 else 0)"
proof -
  let ?s = "AddRef_if p (set_Ptr i p s)"
  have h: "refs raw ?s q = refs raw s q + (if q = p then 1 else 0)" if "q \<noteq> 0" for q
    using holders_slot [of ?s s i "Some p" q] i that by (auto simp: refs_def vacant_def)
  have c: "unat (m_RefCount s p + 1) = Suc (refs raw s p)" if "p \<noteq> 0" "p \<notin> set (destroyed s)"
    using that ok refs_less [OF ok, of p] by (subst unat_add_nowrap) (auto simp: ref_ok_def)
  have "p \<notin> set (destroyed s)" using p ok by (auto simp: ref_ok_def)
  then show "ref_ok raw ?s" using ok i(1) h c by (auto simp: ref_ok_def)
  show "refs raw ?s q = refs raw s q + (if q = p then 1 else 0)" if "q \<noteq> 0" using h [OF that] .
qed

lemma lose_ok:
  assumes ok: "ref_ok raw s" and i: "slot s i = Some p" and v: "v = None \<or> v = Some 0"
  shows "ref_ok raw (lose i v s)"
    and "q \<noteq> 0 \<Longrightarrow> refs raw (lose i v s) q + (if q = p then 1 else 0) = refs raw s q"
    and "set (destroyed (lose i v s)) = set (destroyed s) \<union> (if p \<noteq> 0 \<and> refs raw s p = 1 then {p} else {})"
proof -
  let ?s = "lose i v s"
  note hr = holder_refs [OF ok i]
  have mp: "m_Ptr s i = p" using i by (simp add: m_Ptr_def)
  have sl: "slot ?s = (slot s)(i := v)" by (simp add: lose_def)
  have h: "refs raw ?s q + (if q = p then 1 else 0) = refs raw s q" if "q \<noteq> 0" for q
    using holders_slot [OF sl hr(2), of q] v that i by (auto simp: refs_def)
  have nd: "p \<notin> set (destroyed s)" using hr(1) ok by (auto simp: ref_ok_def)
  have c: "unat (m_RefCount s p) = refs raw s p" if "p \<noteq> 0" using that nd ok by (auto simp: ref_ok_def)
  have c1: "m_RefCount s p = 1 \<longleftrightarrow> refs raw s p = 1" if "p \<noteq> 0"
    using c [OF that] by (auto simp: word_unat_eq_iff)
  have cm: "unat (m_RefCount s p - 1) = refs raw s p - 1" if "p \<noteq> 0"
    using c [OF that] hr(1) by (subst unat_sub) (auto simp: word_le_nat_alt)
  show d: "set (destroyed ?s) = set (destroyed s) \<union> (if p \<noteq> 0 \<and> refs raw s p = 1 then {p} else {})"
    using c1 by (auto simp: lose_def mp)
  have "q \<noteq> 0 \<and> refs raw ?s q = 0" if "q \<in> set (destroyed ?s)" for q
    using that ok h [of q] unfolding d by (auto simp: ref_ok_def split: if_splits)
  moreover have "unat (m_RefCount ?s q) = refs raw ?s q" if "q \<noteq> 0" "q \<notin> set (destroyed ?s)" for q
    using that ok h [of q] cm d by (auto simp: ref_ok_def lose_def mp)
  moreover have "\<forall>k. slot ?s k \<noteq> None \<longrightarrow> k < SLOTS" using ok hr(2) by (auto simp: ref_ok_def sl)
  ultimately show "ref_ok raw ?s" using ok by (auto simp: ref_ok_def)
  show "refs raw ?s q + (if q = p then 1 else 0) = refs raw s q" if "q \<noteq> 0" using h [OF that] .
qed

lemma move_ok:
  assumes ok: "ref_ok raw s" and i: "i < SLOTS" "vacant s i" and j: "slot s j = Some p" "i \<noteq> j"
  shows "ref_ok raw (set_Ptr j 0 (set_Ptr i p s))"
    and "q \<noteq> 0 \<Longrightarrow> refs raw (set_Ptr j 0 (set_Ptr i p s)) q = refs raw s q"
proof -
  let ?t = "set_Ptr i p s" and ?s = "set_Ptr j 0 (set_Ptr i p s)"
  note hr = holder_refs [OF ok j(1)]
  have h: "refs raw ?s q = refs raw s q" if "q \<noteq> 0" for q
    using holders_slot [of ?t s i "Some p" q] holders_slot [of ?s ?t j "Some 0" q] i hr j that
    by (auto simp: refs_def vacant_def split: if_splits)
  show "ref_ok raw ?s" using ok i hr h by (auto simp: ref_ok_def)
  show "refs raw ?s q = refs raw s q" if "q \<noteq> 0" using h [OF that] .
qed

lemma op_as_steps:
  "RefPtr_null i s = AddRef_if 0 (set_Ptr i 0 s)"
  "RefPtr_destroy i s = lose i None s"
  "i \<noteq> j \<Longrightarrow> RefPtr_assign_copy i j s =
     AddRef_if (m_Ptr s j) (set_Ptr i (m_Ptr s j) (lose i (Some 0) s))"
  "i \<noteq> j \<Longrightarrow> RefPtr_assign_move i j s = set_Ptr j 0 (set_Ptr i (m_Ptr s j) (lose i (Some 0) s))"
  by (simp_all add: RefPtr_null_def AddRef_if_def RefPtr_destroy_def lose_def RefPtr_assign_copy_def
      RefPtr_assign_move_def set_Ptr_def Release_if_def Release_def AddRef_def m_Ptr_def Let_def)

lemma slot_lose [simp]: "slot (lose i v s) = (slot s)(i := v)"
  by (simp add: lose_def)

text \<open>The objects whose last reference disappears between two states.\<close>

definition dropped :: "(u64 \<Rightarrow> nat) \<Rightarrow> ref_state \<Rightarrow> ref_state \<Rightarrow> u64 set" where
  "dropped raw s s' = {p. p \<noteq> 0 \<and> 0 < refs raw s p \<and> refs raw s' p = 0}"

definition step_ok :: "(u64 \<Rightarrow> nat) \<Rightarrow> ref_state \<Rightarrow> ref_state \<Rightarrow> bool" where
  "step_ok raw s s' \<longleftrightarrow> ref_ok raw s' \<and> set (destroyed s') = set (destroyed s) \<union> dropped raw s s'"

lemma gain_step:
  assumes "ref_ok raw s" and "i < SLOTS" "vacant s i" and "p = 0 \<or> 0 < refs raw s p"
  shows "step_ok raw s (AddRef_if p (set_Ptr i p s))"
proof -
  have "dropped raw s (AddRef_if p (set_Ptr i p s)) = {}"
    using gain_ok(2) [OF assms] by (auto simp: dropped_def)
  then show ?thesis using gain_ok(1) [OF assms] by (simp add: step_ok_def)
qed

lemma move_step:
  assumes "ref_ok raw s" and "i < SLOTS" "vacant s i" and "slot s j = Some p" "i \<noteq> j"
  shows "step_ok raw s (set_Ptr j 0 (set_Ptr i p s))"
proof -
  have "dropped raw s (set_Ptr j 0 (set_Ptr i p s)) = {}"
    using move_ok(2) [OF assms] by (auto simp: dropped_def)
  then show ?thesis using move_ok(1) [OF assms] by (simp add: step_ok_def)
qed

lemma lose_step:
  assumes "ref_ok raw s" and "slot s i = Some p" and "v = None \<or> v = Some 0"
  shows "step_ok raw s (lose i v s)"
proof -
  have "q \<in> dropped raw s (lose i v s) \<longleftrightarrow> q = p \<and> p \<noteq> 0 \<and> refs raw s p = 1" for q
    using lose_ok(2) [OF assms, of q] holder_refs(1) [OF assms(1,2)]
    by (cases "q = p") (auto simp: dropped_def)
  then have "dropped raw s (lose i v s) = (if p \<noteq> 0 \<and> refs raw s p = 1 then {p} else {})"
    by (auto simp: set_eq_iff)
  then show ?thesis using lose_ok(1,3) [OF assms] by (simp add: step_ok_def)
qed

lemma step_ok_trans:
  assumes "step_ok raw s t" and "step_ok raw t u" and "dropped raw t u = {}"
    and "\<forall>p. p \<noteq> 0 \<and> refs raw t p = 0 \<longrightarrow> refs raw u p = 0"
  shows "step_ok raw s u"
proof -
  have "dropped raw s u = dropped raw s t"
    using assms(3,4) by (auto simp: dropped_def)
  then show ?thesis using assms(1-3) by (simp add: step_ok_def)
qed

text \<open>Every operation keeps the invariant, and destroys exactly the objects whose last reference it drops.\<close>

text \<open>The assignments: the old reference is lost and the new one gained or moved, unless source and target are the same variable.\<close>

lemma assign_copy_step:
  assumes ok: "ref_ok raw s" and p: "slot s i = Some p" and q: "slot s j = Some q"
  shows "step_ok raw s (RefPtr_assign_copy i j s)"
proof (cases "i = j")
  case True
  with ok show ?thesis by (auto simp: RefPtr_assign_copy_def step_ok_def dropped_def)
next
  case False
  let ?t = "lose i (Some 0) s"
  have t: "ref_ok raw ?t" "slot ?t j = Some q" "vacant ?t i" "i < SLOTS"
    using lose_ok(1) [OF ok p] False q holder_refs(2) [OF ok p] by (auto simp: vacant_def)
  have q': "q = 0 \<or> 0 < refs raw ?t q" using holder_refs(1) [OF t(1,2)] by simp
  have "step_ok raw s (AddRef_if q (set_Ptr i q ?t))"
  proof (rule step_ok_trans [OF lose_step [OF ok p]])
    show "step_ok raw ?t (AddRef_if q (set_Ptr i q ?t))" by (rule gain_step [OF t(1,4,3) q'])
    show "dropped raw ?t (AddRef_if q (set_Ptr i q ?t)) = {}"
      using gain_ok(2) [OF t(1,4,3) q'] by (auto simp: dropped_def)
    show "\<forall>p. p \<noteq> 0 \<and> refs raw ?t p = 0 \<longrightarrow> refs raw (AddRef_if q (set_Ptr i q ?t)) p = 0"
      using gain_ok(2) [OF t(1,4,3) q'] q' by auto
  qed simp
  with False q show ?thesis by (simp add: op_as_steps m_Ptr_def)
qed

lemma assign_move_step:
  assumes ok: "ref_ok raw s" and p: "slot s i = Some p" and q: "slot s j = Some q"
  shows "step_ok raw s (RefPtr_assign_move i j s)"
proof (cases "i = j")
  case True
  with ok show ?thesis by (auto simp: RefPtr_assign_move_def step_ok_def dropped_def)
next
  case False
  let ?t = "lose i (Some 0) s" and ?u = "set_Ptr j 0 (set_Ptr i q (lose i (Some 0) s))"
  have t: "ref_ok raw ?t" "slot ?t j = Some q" "vacant ?t i" "i < SLOTS"
    using lose_ok(1) [OF ok p] False q holder_refs(2) [OF ok p] by (auto simp: vacant_def)
  note mv = move_ok(2) [OF t(1,4,3,2) False]
  have "step_ok raw s ?u"
  proof (rule step_ok_trans [OF lose_step [OF ok p]])
    show "step_ok raw ?t ?u" by (rule move_step [OF t(1,4,3,2) False])
  qed (use mv in \<open>auto simp: dropped_def\<close>)
  with False q show ?thesis by (simp add: op_as_steps m_Ptr_def)
qed

lemma run_op_step:
  assumes ok: "ref_ok raw s" and op: "op_ok raw x s"
  shows "step_ok raw s (run_op x s)"
proof (cases x)
  case (OpNull i)
  with gain_step [OF ok, of i 0] op show ?thesis by (simp add: op_as_steps vacant_def)
next
  case (OpPtr i p)
  with gain_step [OF ok, of i p] op show ?thesis by (simp add: RefPtr_ptr_def vacant_def)
next
  case (OpCopy i j)
  with op obtain p where p: "slot s j = Some p" by auto
  with OpCopy gain_step [OF ok, of i p] holder_refs [OF ok p] op show ?thesis
    by (simp add: RefPtr_copy_def vacant_def m_Ptr_def)
next
  case (OpMove i j)
  with op obtain p where p: "slot s j = Some p" by auto
  then have "i \<noteq> j" using op OpMove by auto
  with OpMove move_step [OF ok _ _ p, of i] op p show ?thesis
    by (simp add: RefPtr_move_def vacant_def m_Ptr_def)
next
  case (OpDestroy i)
  with op obtain p where p: "slot s i = Some p" by auto
  with OpDestroy lose_step [OF ok p, of None] show ?thesis by (simp add: op_as_steps)
next
  case (OpAssignCopy i j)
  with assign_copy_step [OF ok] op show ?thesis by auto
next
  case (OpAssignMove i j)
  with assign_move_step [OF ok] op show ?thesis by auto
qed

lemma run_ops_ok:
  "ref_ok raw s \<Longrightarrow> ops_ok raw xs s \<Longrightarrow> ref_ok raw (fold run_op xs s)"
  by (induction xs arbitrary: s) (auto dest: run_op_step simp: step_ok_def)

subsection \<open>Properties\<close>

text \<open>
  C15. Reference counting is exact: whatever sequence of \<open>RefPtr\<close> operations a program performs (within
  the rules of the language), afterwards every live object's counter is the number of variables that
  point to it plus the references held outside, and no variable points to a destroyed object.
\<close>

theorem RefPtr_sequence_invariant:
  assumes "ref_ok raw s" and "ops_ok raw xs s"
  shows "(\<forall>p. p \<noteq> 0 \<and> p \<notin> set (destroyed (fold run_op xs s)) \<longrightarrow>
            unat (m_RefCount (fold run_op xs s) p) = raw p + holders (fold run_op xs s) p) \<and>
         (\<forall>i p. slot (fold run_op xs s) i = Some p \<longrightarrow> p \<notin> set (destroyed (fold run_op xs s)))"
proof -
  note ok = run_ops_ok [OF assms]
  have "p \<notin> set (destroyed (fold run_op xs s))" if "slot (fold run_op xs s) i = Some p" for i p
    using holder_refs(1) [OF ok that] ok by (auto simp: ref_ok_def)
  with ok show ?thesis by (auto simp: ref_ok_def refs_def)
qed

text \<open>
  An operation runs \<open>delete this\<close> exactly on the objects whose last reference it drops.
\<close>

lemma RefPtr_destroys_last:
  assumes "ref_ok raw s" and "op_ok raw x s"
  shows "set (destroyed (run_op x s)) = set (destroyed s) \<union>
    {p. p \<noteq> 0 \<and> 0 < raw p + holders s p \<and> raw p + holders (run_op x s) p = 0}"
  using run_op_step [OF assms] by (simp add: step_ok_def dropped_def refs_def)

text \<open>
  The pattern \<open>RefPtr(new X)\<close> leaks: the counter of a fresh object already is 1 and the constructor
  raises it to 2, so that no later sequence of \<open>RefPtr\<close> operations, not even the destruction of every
  variable, ever destroys the object.
\<close>

lemma RefPtr_of_new_leaks:
  assumes "ref_ok raw s" and "raw p = 1" and "m_RefCount s p = 1"
    and "ops_ok raw (OpPtr i p # xs) s"
  shows "p \<notin> set (destroyed (fold run_op (OpPtr i p # xs) s))"
proof -
  have "ref_ok raw (fold run_op (OpPtr i p # xs) s)" by (rule run_ops_ok [OF assms(1,4)])
  then show ?thesis using assms(2) by (auto simp: ref_ok_def refs_def)
qed

text \<open>One fresh object at \<open>0x1000\<close> and no variables.\<close>

definition example_refs :: ref_state where
  "example_refs = new_object 0x1000 \<lparr>m_RefCount = (\<lambda>_. 0), destroyed = [], slot = (\<lambda>_. None)\<rparr>"

definition example_raw :: "u64 \<Rightarrow> nat" where
  "example_raw p = (if p = 0x1000 then 1 else 0)"

definition example_ops :: "refptr_op list" where
  "example_ops = [OpPtr 0 0x1000, OpCopy 1 0, OpMove 2 1, OpDestroy 0, OpAssignCopy 1 2, OpDestroy 1, OpDestroy 2]"

lemma example_refs_ok: "ref_ok example_raw example_refs"
  by (simp add: ref_ok_def example_refs_def new_object_def example_raw_def refs_def holders_def SLOTS_def)

lemma example_ops_ok: "ops_ok example_raw example_ops example_refs"
  by (simp add: example_ops_def SLOTS_def example_refs_def new_object_def RefPtr_ptr_def RefPtr_copy_def
      RefPtr_move_def RefPtr_destroy_def RefPtr_assign_copy_def m_Ptr_def refs_def example_raw_def Let_def)

theorem RefPtr_sequence_invariant_witness:
  "unat (m_RefCount (fold run_op example_ops example_refs) 0x1000) =
     1 + holders (fold run_op example_ops example_refs) 0x1000 \<or>
   0x1000 \<in> set (destroyed (fold run_op example_ops example_refs))"
  using RefPtr_sequence_invariant [OF example_refs_ok example_ops_ok] by (auto simp: example_raw_def)

lemma RefPtr_destroys_last_example:
  "set (destroyed (run_op (OpPtr 0 0x1000) example_refs)) \<subseteq> set (destroyed example_refs)"
proof -
  have "op_ok example_raw (OpPtr 0 0x1000) example_refs"
    using example_ops_ok by (simp add: example_ops_def)
  from RefPtr_destroys_last [OF example_refs_ok this] show ?thesis
    by (auto simp: example_raw_def holders_def example_refs_def new_object_def split: if_splits)
qed

lemma RefPtr_of_new_leaks_example:
  "0x1000 \<notin> set (destroyed (fold run_op example_ops example_refs))"
proof -
  have "m_RefCount example_refs 0x1000 = 1" "example_raw 0x1000 = 1"
    by (simp_all add: example_refs_def new_object_def example_raw_def)
  with RefPtr_of_new_leaks [OF example_refs_ok] example_ops_ok show ?thesis
    unfolding example_ops_def by blast
qed

end
