(* ===== verification/Scheduler.thy ===== *)
theory Scheduler
  imports NewDelete ContextSwitch RefCount
begin

text \<open>
  \<open>Kernel/Core/Scheduler/Scheduler.cpp\<close> and \<open>Thread.cpp\<close>: thread creation, the cooperative scheduler and
  sleeping, together with \<open>struct PerCPU\<close> (\<open>Kernel/Arch/x86_64/CPU/PerCPU.hpp\<close>). One state record holds
  what these functions share: the heap, the thread objects and their reference counts, the globals of
  the file, the per-CPU block and the registers.

  What the linker decides (the addresses of functions and strings, \<open>sizeof(Thread)\<close> and the return
  address of the call inside \<open>SwitchTo\<close>) is the argument \<open>img\<close>. Each function runs up to the point where
  control leaves it: \<open>Yield\<close> ends with the registers of the thread that runs next. Panics and calls
  through null pointers are error values.

  \<open>sched_ok s xs\<close> is the invariant, with \<open>xs\<close> the ready list. The abstract scheduler is \<open>spec_yield\<close> on the
  pair of current thread and ready list; \<open>Yield_refines\<close> is the refinement. \<open>sched_step\<close> is the step
  relation of the whole scheduler.
\<close>

subsection \<open>State\<close>

record PerCPU =
  LAPICID :: u32
  PerCPU_CPUIndex :: u32
  PreemptDepth :: u32
  TickCount :: u64
  CurrentThread :: u64

record image =
  sizeof_Thread :: u64
  addr_ThreadStartTrampoline :: u64
  addr_IdleMain :: u64
  str_Bootstrap :: u64
  str_idle :: u64
  ret_SwitchTo :: u64

record sched_state =
  heap :: heap_state
  gAllocator :: u64
  threads :: thread_store
  objs :: ref_state
  gRunQueue :: RunQueue
  gBootstapThread :: u64
  gIdleThread :: u64
  gNeedReschedule :: bool
  cpu :: PerCPU
  regs :: cpu_regs

type_synonym 'a kernel_result = "kernel_error + 'a"

definition Current :: "sched_state \<Rightarrow> u64" where
  "Current s = CurrentThread (cpu s)"

definition set_thread :: "u64 \<Rightarrow> (Thread \<Rightarrow> Thread) \<Rightarrow> sched_state \<Rightarrow> sched_state" where
  "set_thread t f s = s\<lparr>threads := (threads s)(t := f (threads s t))\<rparr>"

subsection \<open>Creating threads\<close>

definition CreateKernel ::
  "image \<Rightarrow> u64 \<Rightarrow> u64 \<Rightarrow> u64 \<Rightarrow> u64 \<Rightarrow> sched_state \<Rightarrow> (u64 \<times> sched_state) kernel_result"
where
  "CreateKernel img name entry arg stackSize s =
     (case operator_new (sizeof_Thread img) (heap s) of
        Inl e \<Rightarrow> Inl e
      | Inr (t, h1) \<Rightarrow>
          let s1 = s\<lparr>heap := h1, threads := (threads s)(t := new_Thread), objs := new_object t (objs s)\<rparr>;
              s2 = s1\<lparr>objs := snd (AddRef t (objs s1))\<rparr>;
              s3 = set_thread t (\<lambda>x. x\<lparr>Name := name, Entry := entry, Arg := arg,
                                       CPUIndex := PerCPU_CPUIndex (cpu s)\<rparr>) s2
          in if gAllocator s3 = 0 then Inl NullDereference
             else
               let (allocated, ks, bm) = KernelStack_Allocate stackSize (KStack (threads s3 t)) (hs_bitmap (heap s3));
                   s4 = s3\<lparr>heap := (heap s3)\<lparr>hs_bitmap := bm\<rparr>\<rparr>
               in if \<not> allocated then Inr (0, s4\<lparr>objs := Release t (objs s4)\<rparr>)
                  else
                    let s5 = set_thread t (\<lambda>x. x\<lparr>KStack := ks\<rparr>) s4;
                        (x, m) = PrepareInitialStack (addr_ThreadStartTrampoline img) (threads s5 t) (hs_mem (heap s5));
                        s6 = set_thread t (\<lambda>_. x) (s5\<lparr>heap := (heap s5)\<lparr>hs_mem := m\<rparr>\<rparr>)
                    in Inr (t, set_thread t (\<lambda>x. x\<lparr>State := Ready\<rparr>) s6))"

subsection \<open>The scheduler\<close>

definition sched_Init :: "image \<Rightarrow> sched_state \<Rightarrow> sched_state kernel_result" where
  "sched_Init img s =
     (case operator_new (sizeof_Thread img) (heap s) of
        Inl e \<Rightarrow> Inl e
      | Inr (b, h1) \<Rightarrow>
          let s1 = s\<lparr>heap := h1, threads := (threads s)(b := new_Thread), objs := new_object b (objs s),
                     gBootstapThread := b\<rparr>;
              s2 = set_thread b (\<lambda>x. x\<lparr>Name := str_Bootstrap img, State := Running,
                                       CPUIndex := PerCPU_CPUIndex (cpu s)\<rparr>) s1;
              s3 = s2\<lparr>cpu := (cpu s2)\<lparr>CurrentThread := b\<rparr>\<rparr>
          in case CreateKernel img (str_idle img) (addr_IdleMain img) 0 0 s3 of
               Inl e \<Rightarrow> Inl e
             | Inr (idle, s4) \<Rightarrow>
                 let s5 = s4\<lparr>gIdleThread := idle\<rparr>
                 in Inr (if idle \<noteq> 0 then s5\<lparr>objs := Release idle (objs s5)\<rparr> else s5))"

definition EnqueueReady :: "u64 \<Rightarrow> sched_state \<Rightarrow> sched_state" where
  "EnqueueReady t s =
     (let s1 = set_thread t (\<lambda>x. x\<lparr>State := Ready\<rparr>) s;
          (th, q) = Push t (threads s1, gRunQueue s1)
      in s1\<lparr>threads := th, gRunQueue := q\<rparr>)"

definition DequeueNext :: "sched_state \<Rightarrow> u64 \<times> sched_state" where
  "DequeueNext s =
     (let (nxt, th, q) = PopFront (threads s, gRunQueue s);
          s1 = s\<lparr>threads := th, gRunQueue := q\<rparr>
      in (if nxt = 0 then gIdleThread s1 else nxt, s1))"

definition SwitchTo :: "image \<Rightarrow> u64 \<Rightarrow> sched_state \<Rightarrow> sched_state kernel_result" where
  "SwitchTo img nxt s =
     (let curr = Current s
      in if nxt = curr then Inr s
         else if nxt = 0 \<or> curr = 0 then Inl NullDereference
         else
           let s1 = set_thread nxt (\<lambda>x. x\<lparr>State := Running\<rparr>) s;
               s2 = s1\<lparr>cpu := (cpu s1)\<lparr>CurrentThread := nxt\<rparr>\<rparr>;
               (old, c, m) = ArchSwitchContext (RSP (threads s2 nxt))
                               (asm_call (ret_SwitchTo img) (regs s2, hs_mem (heap s2)));
               s3 = set_thread curr (\<lambda>x. x\<lparr>RSP := old\<rparr>) s2
           in Inr (s3\<lparr>regs := c, heap := (heap s3)\<lparr>hs_mem := m\<rparr>\<rparr>))"

definition OnTimerTick :: "sched_state \<Rightarrow> sched_state" where
  "OnTimerTick s = s\<lparr>gNeedReschedule := True\<rparr>"

definition Yield :: "image \<Rightarrow> sched_state \<Rightarrow> sched_state kernel_result" where
  "Yield img s =
     (let curr = Current s;
          others = (curr \<noteq> gIdleThread s \<and> curr \<noteq> gBootstapThread s)
      in if others \<and> curr = 0 then Inl NullDereference
         else
           let s1 = (if others \<and> State (threads s curr) = Running then EnqueueReady curr s else s);
               (nxt, s2) = DequeueNext s1
           in SwitchTo img nxt s2)"

definition Start :: "image \<Rightarrow> sched_state \<Rightarrow> sched_state kernel_result" where
  "Start img s = Yield img s"

definition CreateAndEnqueue ::
  "image \<Rightarrow> u64 \<Rightarrow> u64 \<Rightarrow> u64 \<Rightarrow> u64 \<Rightarrow> sched_state \<Rightarrow> (u64 \<times> sched_state) kernel_result"
where
  "CreateAndEnqueue img name entry arg stackSize s =
     (case CreateKernel img name entry arg stackSize s of
        Inl e \<Rightarrow> Inl e
      | Inr (t, s1) \<Rightarrow>
          let s2 = (if t \<noteq> 0 then EnqueueReady t s1 else s1)
          in Inr (t, if t \<noteq> 0 then s2\<lparr>objs := Release t (objs s2)\<rparr> else s2))"

subsection \<open>Starting, ending and sleeping\<close>

text \<open>
  \<open>ThreadStartTrampoline\<close> up to its call of the entry function (result: entry and argument), and
  \<open>ThreadExit\<close> up to the switch; the code behind its \<open>Yield\<close> halts the processor.
\<close>

definition ThreadStartTrampoline :: "sched_state \<Rightarrow> (u64 \<times> u64) \<times> sched_state" where
  "ThreadStartTrampoline s =
     (let self = Current s; s1 = set_thread self (\<lambda>x. x\<lparr>State := Running\<rparr>) s
      in ((Entry (threads s1 self), Arg (threads s1 self)), s1))"

definition ThreadExit :: "image \<Rightarrow> sched_state \<Rightarrow> sched_state kernel_result" where
  "ThreadExit img s = Yield img (set_thread (Current s) (\<lambda>x. x\<lparr>State := Dead\<rparr>) s)"

definition NowTick :: "sched_state \<Rightarrow> u64" where
  "NowTick s = TickCount (cpu s)"

text \<open>
  The loop of \<open>SleepUntilTick\<close>. Between the switch inside \<open>Yield\<close> and its return other threads and
  interrupt handlers run; \<open>resume k\<close> is their effect before iteration \<open>k + 1\<close>. \<open>None\<close> is a loop that never ends.
\<close>

partial_function (option) SleepUntilTick_loop ::
  "image \<Rightarrow> (nat \<Rightarrow> sched_state \<Rightarrow> sched_state) \<Rightarrow> u64 \<Rightarrow> nat \<Rightarrow> sched_state \<Rightarrow> sched_state kernel_result option"
where
  "SleepUntilTick_loop img resume targetTick k s =
     (if NowTick s < targetTick
      then case Yield img s of
             Inl e \<Rightarrow> Some (Inl e)
           | Inr s1 \<Rightarrow> SleepUntilTick_loop img resume targetTick (Suc k) (resume k s1)
      else Some (Inr s))"

definition SleepUntilTick ::
  "image \<Rightarrow> (nat \<Rightarrow> sched_state \<Rightarrow> sched_state) \<Rightarrow> u64 \<Rightarrow> sched_state \<Rightarrow> sched_state kernel_result option"
where
  "SleepUntilTick img resume targetTick s = SleepUntilTick_loop img resume targetTick 0 s"

definition SleepMs ::
  "image \<Rightarrow> (nat \<Rightarrow> sched_state \<Rightarrow> sched_state) \<Rightarrow> u64 \<Rightarrow> sched_state \<Rightarrow> sched_state kernel_result option"
where
  "SleepMs img resume ms s = (let target = NowTick s + ms in SleepUntilTick img resume target s)"

subsection \<open>Invariant and abstract scheduler\<close>

definition ordinary :: "sched_state \<Rightarrow> u64 \<Rightarrow> bool" where
  "ordinary s t \<longleftrightarrow> t \<noteq> gIdleThread s \<and> t \<noteq> gBootstapThread s"

definition sched_ok :: "sched_state \<Rightarrow> u64 list \<Rightarrow> bool" where
  "sched_ok s xs \<longleftrightarrow>
     queue_list (threads s, gRunQueue s) xs \<and>
     gIdleThread s \<noteq> 0 \<and> gBootstapThread s \<noteq> 0 \<and> Current s \<noteq> 0 \<and>
     gIdleThread s \<notin> set xs \<and> gBootstapThread s \<notin> set xs \<and> Current s \<notin> set xs \<and>
     (\<forall>t\<in>set xs. State (threads s t) = Ready)"

text \<open>The specification: who runs next and what remains ready.\<close>

definition spec_yield :: "u64 \<Rightarrow> bool \<Rightarrow> u64 \<times> u64 list \<Rightarrow> u64 \<times> u64 list" where
  "spec_yield idle requeue = (\<lambda>(c, xs).
     let ys = (if requeue then xs @ [c] else xs)
     in (case ys of [] \<Rightarrow> (idle, []) | y # ys' \<Rightarrow> (y, ys')))"

definition requeues :: "sched_state \<Rightarrow> bool" where
  "requeues s \<longleftrightarrow> ordinary s (Current s) \<and> State (threads s (Current s)) = Running"

subsection \<open>Refinement\<close>

lemma queue_list_links:
  assumes "queue_list (th, q) xs" and "\<And>t. Next (th' t) = Next (th t)" and "\<And>t. Prev (th' t) = Prev (th t)"
  shows "queue_list (th', q) xs"
  using assms by (simp add: queue_list_def)

lemma set_thread_fields [simp]:
  "gRunQueue (set_thread t f s) = gRunQueue s" "gIdleThread (set_thread t f s) = gIdleThread s"
  "gBootstapThread (set_thread t f s) = gBootstapThread s" "cpu (set_thread t f s) = cpu s"
  "regs (set_thread t f s) = regs s" "heap (set_thread t f s) = heap s" "objs (set_thread t f s) = objs s"
  "gAllocator (set_thread t f s) = gAllocator s" "gNeedReschedule (set_thread t f s) = gNeedReschedule s"
  "threads (set_thread t f s) = (threads s)(t := f (threads s t))"
  by (simp_all add: set_thread_def)

text \<open>What queue operations leave alone: everything but the links and the queue.\<close>

definition same_globals :: "sched_state \<Rightarrow> sched_state \<Rightarrow> bool" where
  "same_globals s s' \<longleftrightarrow> gIdleThread s' = gIdleThread s \<and> gBootstapThread s' = gBootstapThread s \<and>
     gAllocator s' = gAllocator s \<and> objs s' = objs s"

lemma EnqueueReady_props:
  assumes q: "queue_list (threads s, gRunQueue s) xs" and t: "t \<noteq> 0" "t \<notin> set xs"
  shows "queue_list (threads (EnqueueReady t s), gRunQueue (EnqueueReady t s)) (xs @ [t])"
    and "State (threads (EnqueueReady t s) x) = (if x = t then Ready else State (threads s x))"
    and "RSP (threads (EnqueueReady t s) x) = RSP (threads s x)"
    and "same_globals s (EnqueueReady t s)" and "Current (EnqueueReady t s) = Current s"
    and "cpu (EnqueueReady t s) = cpu s" and "heap (EnqueueReady t s) = heap s"
    and "Entry (threads (EnqueueReady t s) x) = Entry (threads s x)"
    and "Arg (threads (EnqueueReady t s) x) = Arg (threads s x)"
proof -
  let ?s1 = "set_thread t (\<lambda>x. x\<lparr>State := Ready\<rparr>) s"
  have q1: "queue_list (threads ?s1, gRunQueue ?s1) xs"
    using queue_list_links [OF q, of "threads ?s1"] by simp
  note pl = payload_fields [OF rq.push_rest, of t "(threads ?s1, gRunQueue ?s1)"]
  have e: "EnqueueReady t s = ?s1\<lparr>threads := fst (Push t (threads ?s1, gRunQueue ?s1)),
      gRunQueue := snd (Push t (threads ?s1, gRunQueue ?s1))\<rparr>"
    by (simp add: EnqueueReady_def Let_def split: prod.splits)
  show "queue_list (threads (EnqueueReady t s), gRunQueue (EnqueueReady t s)) (xs @ [t])"
    using rq.push_contents [OF q1 t] by (simp add: e)
  show "State (threads (EnqueueReady t s) x) = (if x = t then Ready else State (threads s x))"
    "RSP (threads (EnqueueReady t s) x) = RSP (threads s x)"
    "Entry (threads (EnqueueReady t s) x) = Entry (threads s x)"
    "Arg (threads (EnqueueReady t s) x) = Arg (threads s x)"
    using pl by (simp_all add: e)
  show "same_globals s (EnqueueReady t s)" "Current (EnqueueReady t s) = Current s"
    "cpu (EnqueueReady t s) = cpu s" "heap (EnqueueReady t s) = heap s"
    by (simp_all add: e same_globals_def Current_def)
qed

lemma DequeueNext_props:
  assumes q: "queue_list (threads s, gRunQueue s) xs"
  shows "fst (DequeueNext s) = (case xs of [] \<Rightarrow> gIdleThread s | x # _ \<Rightarrow> x)"
    and "queue_list (threads (snd (DequeueNext s)), gRunQueue (snd (DequeueNext s))) (tl xs)"
    and "State (threads (snd (DequeueNext s)) x) = State (threads s x)"
    and "RSP (threads (snd (DequeueNext s)) x) = RSP (threads s x)"
    and "same_globals s (snd (DequeueNext s))" and "cpu (snd (DequeueNext s)) = cpu s"
    and "heap (snd (DequeueNext s)) = heap s" and "regs (snd (DequeueNext s)) = regs s"
proof -
  let ?r = "PopFront (threads s, gRunQueue s)"
  note pl = payload_fields [OF rq.pop_rest, of "(threads s, gRunQueue s)"]
  have e: "DequeueNext s = (if fst ?r = 0 then gIdleThread s else fst ?r,
      s\<lparr>threads := fst (snd ?r), gRunQueue := snd (snd ?r)\<rparr>)"
    by (simp add: DequeueNext_def Let_def split: prod.splits)
  have "0 \<notin> set xs" using rq.contents_wf [OF q] by simp
  then show "fst (DequeueNext s) = (case xs of [] \<Rightarrow> gIdleThread s | x # _ \<Rightarrow> x)"
    using q rq.pop_nil [of "(threads s, gRunQueue s)"] rq.pop_cons [of "(threads s, gRunQueue s)"]
    by (cases xs) (auto simp: e)
  show "queue_list (threads (snd (DequeueNext s)), gRunQueue (snd (DequeueNext s))) (tl xs)"
    using q rq.pop_nil [of "(threads s, gRunQueue s)"] rq.pop_cons [of "(threads s, gRunQueue s)"]
    by (cases xs) (auto simp: e)
  show "State (threads (snd (DequeueNext s)) x) = State (threads s x)"
    "RSP (threads (snd (DequeueNext s)) x) = RSP (threads s x)"
    using pl by (simp_all add: e)
  show "same_globals s (snd (DequeueNext s))" "cpu (snd (DequeueNext s)) = cpu s"
    "heap (snd (DequeueNext s)) = heap s" "regs (snd (DequeueNext s)) = regs s"
    by (simp_all add: e same_globals_def)
qed

lemma SwitchTo_props:
  assumes "nxt \<noteq> 0" and "Current s \<noteq> 0" and "queue_list (threads s, gRunQueue s) xs"
  obtains s' where "SwitchTo img nxt s = Inr s'" and "Current s' = nxt"
    and "queue_list (threads s', gRunQueue s') xs" and "same_globals s s'"
    and "\<And>x. State (threads s' x) = (if x = nxt \<and> nxt \<noteq> Current s then Running else State (threads s x))"
    and "TickCount (cpu s') = TickCount (cpu s)" and "hs_bitmap (heap s') = hs_bitmap (heap s)"
    and "gEarlyAlloc (heap s') = gEarlyAlloc (heap s)"
proof (cases "nxt = Current s")
  case True
  with assms(3) show thesis by (intro that [of s]) (simp_all add: SwitchTo_def same_globals_def)
next
  case False
  obtain old c m where r: "ArchSwitchContext (RSP (threads s nxt)) (asm_call (ret_SwitchTo img) (regs s, hs_mem (heap s))) = (old, c, m)"
    by (metis prod.collapse)
  define s' where "s' = (set_thread (Current s) (\<lambda>x. x\<lparr>RSP := old\<rparr>)
      ((set_thread nxt (\<lambda>x. x\<lparr>State := Running\<rparr>) s)\<lparr>cpu := (cpu s)\<lparr>CurrentThread := nxt\<rparr>\<rparr>))
      \<lparr>regs := c, heap := (heap s)\<lparr>hs_mem := m\<rparr>\<rparr>"
  have "SwitchTo img nxt s = Inr s'"
    using False assms(1,2) r by (simp add: SwitchTo_def Let_def s'_def)
  moreover have "queue_list (threads s', gRunQueue s') xs"
    using queue_list_links [OF assms(3), of "threads s'"] by (simp add: s'_def)
  ultimately show thesis
    using False by (intro that [of s']) (simp_all add: s'_def Current_def same_globals_def)
qed

text \<open>
  \<open>Yield\<close> implements the specification and keeps the invariant. The state of the thread that runs next
  becomes \<open>Running\<close> only if it is a different thread; that of the yielding thread becomes \<open>Ready\<close> if it
  is put back into the queue.
\<close>

lemma Yield_refines:
  assumes ok: "sched_ok s xs"
  obtains s' ys where "Yield img s = Inr s'"
    and "spec_yield (gIdleThread s) (requeues s) (Current s, xs) = (Current s', ys)"
    and "sched_ok s' ys" and "same_globals s s'"
    and "\<And>x. State (threads s' x) =
           (if x = Current s' \<and> Current s' \<noteq> Current s then Running
            else if x = Current s \<and> requeues s then Ready else State (threads s x))"
    and "TickCount (cpu s') = TickCount (cpu s)" and "hs_bitmap (heap s') = hs_bitmap (heap s)"
    and "gEarlyAlloc (heap s') = gEarlyAlloc (heap s)"
proof -
  define c where "c = Current s"
  define s1 where "s1 = (if requeues s then EnqueueReady c s else s)"
  define zs where "zs = (if requeues s then xs @ [c] else xs)"
  have o: "queue_list (threads s, gRunQueue s) xs" "gIdleThread s \<noteq> 0" "gBootstapThread s \<noteq> 0" "c \<noteq> 0"
    "gIdleThread s \<notin> set xs" "gBootstapThread s \<notin> set xs" "c \<notin> set xs" "\<forall>t\<in>set xs. State (threads s t) = Ready"
    using ok by (auto simp: sched_ok_def c_def)
  note E = EnqueueReady_props [OF o(1,4,7)]
  have s1: "queue_list (threads s1, gRunQueue s1) zs" "same_globals s s1" "cpu s1 = cpu s" "heap s1 = heap s"
    "\<And>x. State (threads s1 x) = (if x = c \<and> requeues s then Ready else State (threads s x))"
    using E o(1) by (auto simp: s1_def zs_def same_globals_def)
  define s2 nxt where "s2 = snd (DequeueNext s1)" and "nxt = fst (DequeueNext s1)"
  note D = DequeueNext_props [OF s1(1), folded s2_def nxt_def]
  have nxt: "nxt = (case zs of [] \<Rightarrow> gIdleThread s | x # _ \<Rightarrow> x)" using D(1) s1(2)
    by (simp add: same_globals_def split: list.splits)
  have zs: "distinct zs" "0 \<notin> set zs" using rq.contents_wf [OF s1(1)] by auto
  have "nxt \<noteq> 0" using o(2) zs by (cases zs) (auto simp: nxt)
  moreover have "Current s2 = c" using D(6) s1(3) by (simp add: Current_def c_def)
  ultimately obtain s' where s': "SwitchTo img nxt s2 = Inr s'" "Current s' = nxt"
    "queue_list (threads s', gRunQueue s') (tl zs)" "same_globals s2 s'"
    "\<And>x. State (threads s' x) = (if x = nxt \<and> nxt \<noteq> c then Running else State (threads s2 x))"
    "TickCount (cpu s') = TickCount (cpu s2)" "hs_bitmap (heap s') = hs_bitmap (heap s2)"
    "gEarlyAlloc (heap s') = gEarlyAlloc (heap s2)"
    using o(4) D(2) by (metis SwitchTo_props)
  have "Yield img s = Inr s'"
    using o(4) s'(1) unfolding Yield_def Let_def s2_def nxt_def s1_def requeues_def ordinary_def c_def
    by (simp add: case_prod_beta)
  moreover have "spec_yield (gIdleThread s) (requeues s) (c, xs) = (nxt, tl zs)"
    by (auto simp: spec_yield_def zs_def [symmetric] nxt split: list.splits)
  moreover have sg: "same_globals s s'" using s1(2) D(5) s'(4) by (simp add: same_globals_def)
  moreover have St: "State (threads s' x) = (if x = nxt \<and> nxt \<noteq> c then Running
      else if x = c \<and> requeues s then Ready else State (threads s x))" for x
    using s'(5) D(3) s1(5) by simp
  moreover have "sched_ok s' (tl zs)"
  proof -
    have tl: "set (tl zs) \<subseteq> set xs \<union> (if requeues s then {c} else {})"
      by (cases xs) (auto simp: zs_def)
    have idle: "gIdleThread s \<notin> set (tl zs)" "gBootstapThread s \<notin> set (tl zs)"
      using tl o(5,6) by (auto simp: requeues_def ordinary_def c_def split: if_splits)
    moreover have "nxt \<notin> set (tl zs)" using zs idle by (cases zs) (auto simp: nxt)
    moreover from this have "\<forall>t\<in>set (tl zs). State (threads s' t) = Ready"
      using tl o(8) by (auto simp: St split: if_splits)
    ultimately show ?thesis
      using s'(2,3) sg o(2,3) \<open>nxt \<noteq> 0\<close> by (simp add: sched_ok_def same_globals_def)
  qed
  ultimately show thesis
    using that s'(2,6-8) D(6,7) s1(3,4) by (simp add: c_def)
qed

subsection \<open>Turns\<close>

text \<open>
  \<open>n\<close> yields in a row. Before each of them the running thread does some work of its own: \<open>work k\<close> may
  change registers, memory, the tick counter and the heap, but not the scheduler's data.
\<close>

definition keeps_sched :: "(nat \<Rightarrow> sched_state \<Rightarrow> sched_state) \<Rightarrow> bool" where
  "keeps_sched work \<longleftrightarrow> (\<forall>k s. threads (work k s) = threads s \<and> gRunQueue (work k s) = gRunQueue s \<and>
     gIdleThread (work k s) = gIdleThread s \<and> gBootstapThread (work k s) = gBootstapThread s \<and>
     Current (work k s) = Current s)"

primrec turns :: "image \<Rightarrow> (nat \<Rightarrow> sched_state \<Rightarrow> sched_state) \<Rightarrow> nat \<Rightarrow> sched_state \<Rightarrow> sched_state kernel_result" where
  "turns img work 0 s = Inr s"
| "turns img work (Suc n) s =
     (case turns img work n s of Inl e \<Rightarrow> Inl e | Inr s1 \<Rightarrow> Yield img (work n s1))"

lemma keeps_sched_ok: "keeps_sched work \<Longrightarrow> sched_ok (work k s) xs \<longleftrightarrow> sched_ok s xs"
  by (simp add: keeps_sched_def sched_ok_def)

lemma keeps_requeues: "keeps_sched work \<Longrightarrow> requeues (work k s) \<longleftrightarrow> requeues s"
  by (simp add: keeps_sched_def requeues_def ordinary_def)

lemma turns_rotate:
  assumes work: "keeps_sched work" and ok: "sched_ok s xs" and xs: "xs \<noteq> []"
    and run: "requeues s" and ord: "\<forall>t\<in>set xs. ordinary s t"
  shows "\<exists>s'. turns img work n s = Inr s' \<and> sched_ok s' (tl (rotate n (Current s # xs))) \<and>
    Current s' = hd (rotate n (Current s # xs)) \<and> requeues s' \<and>
    gIdleThread s' = gIdleThread s \<and> gBootstapThread s' = gBootstapThread s"
proof (induction n)
  case 0
  with ok run show ?case by simp
next
  case (Suc n)
  define L where "L = rotate n (Current s # xs)"
  from Suc obtain s1 where s1: "turns img work n s = Inr s1" "sched_ok s1 (tl L)" "Current s1 = hd L"
    "requeues s1" "gIdleThread s1 = gIdleThread s" "gBootstapThread s1 = gBootstapThread s" by (auto simp: L_def)
  have len: "length L = Suc (length xs)" by (simp add: L_def)
  obtain a b L' where L: "L = a # b # L'" using len xs by (cases L; cases "tl L") auto
  have set: "set L = insert (Current s) (set xs)" by (simp add: L_def)
  have w: "sched_ok (work n s1) (b # L')" "requeues (work n s1)" "Current (work n s1) = a"
    "gIdleThread (work n s1) = gIdleThread s" "gBootstapThread (work n s1) = gBootstapThread s"
    using s1 work L by (auto simp: keeps_sched_ok keeps_requeues) (auto simp: keeps_sched_def)
  from Yield_refines [OF w(1), of img] obtain s2 ys where
    y: "Yield img (work n s1) = Inr s2" "spec_yield (gIdleThread s) True (a, b # L') = (Current s2, ys)"
      "sched_ok s2 ys" "same_globals (work n s1) s2"
      "State (threads s2 (Current s2)) = (if Current s2 \<noteq> a then Running else Ready)"
    using w by (metis (full_types))
  have e: "Current s2 = b" "ys = L' @ [a]" using y(2) by (auto simp: spec_yield_def)
  have "a \<noteq> b" using w(1,3) by (auto simp: sched_ok_def)
  moreover have "b \<in> insert (Current s) (set xs)" using L by (simp flip: set)
  then have "ordinary s b" using ord run by (auto simp: requeues_def)
  ultimately have "requeues s2" using y(4,5) w(4,5) e by (simp add: requeues_def ordinary_def same_globals_def)
  moreover have "rotate (Suc n) (Current s # xs) = b # L' @ [a]" using L by (simp add: L_def)
  ultimately show ?case using y e s1(1) w(4,5) by (simp add: same_globals_def)
qed

lemma idle_stays:
  assumes "keeps_sched work" and "sched_ok s []" and "Current s = gIdleThread s"
  shows "\<exists>s'. turns img work n s = Inr s' \<and> sched_ok s' [] \<and> Current s' = gIdleThread s \<and>
    gIdleThread s' = gIdleThread s"
proof (induction n)
  case 0
  with assms show ?case by simp
next
  case (Suc n)
  then obtain s1 where s1: "turns img work n s = Inr s1" "sched_ok s1 []" "Current s1 = gIdleThread s"
    "gIdleThread s1 = gIdleThread s" by blast
  have w: "sched_ok (work n s1) []" "\<not> requeues (work n s1)" "gIdleThread (work n s1) = gIdleThread s"
    using s1 assms(1) by (auto simp: keeps_sched_ok keeps_requeues requeues_def ordinary_def) (auto simp: keeps_sched_def)
  from Yield_refines [OF w(1), of img] obtain s2 ys where
    "Yield img (work n s1) = Inr s2" "spec_yield (gIdleThread s) False (Current (work n s1), []) = (Current s2, ys)"
    "sched_ok s2 ys" "same_globals (work n s1) s2" using w by (metis (full_types))
  then show ?case using s1(1) w(3) by (auto simp: spec_yield_def same_globals_def)
qed

subsection \<open>Thread creation\<close>

definition image_ok :: "image \<Rightarrow> bool" where
  "image_ok img \<longleftrightarrow> 0 < sizeof_Thread img \<and> sizeof_Thread img \<le> 4088"

text \<open>
  Memory the scheduler relies on: a working allocator, and every thread it knows in a page of its own
  that is in use.
\<close>

definition in_use :: "sched_state \<Rightarrow> u64 \<Rightarrow> bool" where
  "in_use s t \<longleftrightarrow> (\<exists>p<TOTAL_PAGES. t = page_addr p \<and> p \<notin> free_pages (hs_bitmap (heap s)))"

definition sched_mem :: "sched_state \<Rightarrow> u64 list \<Rightarrow> bool" where
  "sched_mem s xs \<longleftrightarrow> heap_ok (heap s) \<and> gAllocator s \<noteq> 0 \<and>
     (\<forall>t\<in>{gIdleThread s, gBootstapThread s, Current s} \<union> set xs. in_use s t)"

lemma KernelStack_Allocate_frame:
  assumes "bitmap_ok bm" and "KernelStack_Allocate bytes ks bm = (r, ks', bm')"
  shows "bitmap_ok bm'" and "free_pages bm' \<subseteq> free_pages bm"
proof -
  define b where "b = (if bytes = 0 then DEFAULT_STACK_SIZE else bytes)"
  have b: "0 < b" by (auto simp: b_def DEFAULT_STACK_SIZE_def word_gt_0)
  obtain a where a: "AllocatePage_size b bm = (a, bm')"
    using assms(2) by (auto simp: KernelStack_Allocate_def b_def [symmetric] Let_def split: prod.splits if_splits)
  show "bitmap_ok bm'" using early.alloc_size_ok [OF assms(1) b a] .
  show "free_pages bm' \<subseteq> free_pages bm"
  proof (cases "\<exists>q. {q..<q + unat (pages_for b)} \<subseteq> free_pages bm")
    case True
    with early.alloc_size_some [OF assms(1) b] a show ?thesis by fastforce
  next
    case False
    with early.alloc_size_none [OF assms(1) b] a show ?thesis by simp
  qed
qed

text \<open>The memory of a new thread object.\<close>

lemma new_thread_page:
  assumes "image_ok img" and "heap_ok h" and "operator_new (sizeof_Thread img) h = Inr (p, h1)"
  obtains q where "p = page_addr q" "p \<noteq> 0" "q < TOTAL_PAGES" "q \<in> free_pages (hs_bitmap h)" "q \<notin> free_pages (hs_bitmap h1)"
    "free_pages (hs_bitmap h1) \<subseteq> free_pages (hs_bitmap h)" "heap_ok h1" "gEarlyAlloc h1 = gEarlyAlloc h"
proof -
  have "unat (sizeof_Thread img + 8) = unat (sizeof_Thread img) + 8"
    using assms(1) by (subst unat_add_nowrap) (auto simp: image_ok_def word_le_nat_alt)
  then have nz: "sizeof_Thread img + sizeof_AllocatedMemoryInfo \<noteq> 0" by (auto simp: sizeof_AllocatedMemoryInfo_def)
  obtain q where q: "p = page_addr q" "0 < q" "q + new_pages (sizeof_Thread img) \<le> TOTAL_PAGES"
    "{q..<q + new_pages (sizeof_Thread img)} \<subseteq> free_pages (hs_bitmap h)"
    "hs_bitmap h1 = set_run (hs_bitmap h) q (new_pages (sizeof_Thread img)) True" "gEarlyAlloc h1 = gEarlyAlloc h"
    by (rule operator_new_Inr [OF assms(2) nz assms(3)]) simp
  have pos: "0 < new_pages (sizeof_Thread img)"
    using nz by (simp add: new_pages_def div_greater_zero_iff unat_gt_0 Suc_le_eq)
  then have qt: "q < TOTAL_PAGES" using q(3) by simp
  moreover have "heap_ok h1" using assms(2) q(3,6) by (auto simp: heap_ok_def q(5) intro: bitmap_ok_set_run)
  moreover have "q \<in> free_pages (hs_bitmap h)" "q \<notin> free_pages (hs_bitmap h1)" "free_pages (hs_bitmap h1) \<subseteq> free_pages (hs_bitmap h)"
    using q(4) pos by (auto simp: q(5) free_pages_set_run)
  moreover have "p \<noteq> 0" using q(1,2) qt by simp
  ultimately show thesis using that q(1,6) by blast
qed

text \<open>The two ways in which \<open>CreateKernel\<close> returns, without and with a stack.\<close>

lemma CreateKernel_result:
  assumes "gAllocator s \<noteq> 0" and "CreateKernel img name entry arg stackSize s = Inr (t, s')"
  obtains p h1 r ks bm where "operator_new (sizeof_Thread img) (heap s) = Inr (p, h1)"
    "KernelStack_Allocate stackSize (KStack new_Thread) (hs_bitmap h1) = (r, ks, bm)"
    "hs_bitmap (heap s') = bm" "gEarlyAlloc (heap s') = gEarlyAlloc h1" "\<forall>x. x \<noteq> p \<longrightarrow> threads s' x = threads s x"
    "gRunQueue s' = gRunQueue s" "cpu s' = cpu s" "gIdleThread s' = gIdleThread s" "gBootstapThread s' = gBootstapThread s"
    "gAllocator s' = gAllocator s" "t = (if r then p else 0)"
    "objs s' = (if r then snd (AddRef p (new_object p (objs s))) else Release p (snd (AddRef p (new_object p (objs s)))))"
    "r \<longrightarrow> threads s' p = new_Thread\<lparr>Name := name, Entry := entry, Arg := arg, CPUIndex := PerCPU_CPUIndex (cpu s), KStack := ks, RSP := Top ks - 64, State := Ready\<rparr>"
proof -
  define x0 where "x0 = new_Thread\<lparr>Name := name, Entry := entry, Arg := arg, CPUIndex := PerCPU_CPUIndex (cpu s)\<rparr>"
  obtain p h1 where new: "operator_new (sizeof_Thread img) (heap s) = Inr (p, h1)"
    using assms(2) by (auto simp: CreateKernel_def split: sum.splits)
  obtain r ks bm where ks: "KernelStack_Allocate stackSize (KStack new_Thread) (hs_bitmap h1) = (r, ks, bm)" by (metis prod.collapse)
  have k0: "KStack x0 = KStack new_Thread" by (simp add: x0_def)
  obtain x m where x: "PrepareInitialStack (addr_ThreadStartTrampoline img) (x0\<lparr>KStack := ks\<rparr>) (hs_mem h1) = (x, m)" by (metis prod.collapse)
  then have xe: "x = x0\<lparr>KStack := ks, RSP := Top ks - 64\<rparr>"
    using PrepareInitialStack_words(1) [OF x] by (auto simp: PrepareInitialStack_def Let_def split: prod.splits)
  note res = assms(2) [unfolded CreateKernel_def Let_def, simplified new x0_def [symmetric]]
  show thesis
    by (rule that [OF new ks]; use res assms(1) x xe in
        \<open>cases r; force simp: CreateKernel_def new Let_def x0_def [symmetric] k0 ks split: if_splits\<close>)
qed

lemma CreateKernel_props:
  assumes img: "image_ok img" and hp: "heap_ok (heap s)" "gAllocator s \<noteq> 0"
    and res: "CreateKernel img name entry arg stackSize s = Inr (t, s')"
  obtains q where "q \<in> free_pages (hs_bitmap (heap s))" and "q \<notin> free_pages (hs_bitmap (heap s'))"
    and "free_pages (hs_bitmap (heap s')) \<subseteq> free_pages (hs_bitmap (heap s))" and "heap_ok (heap s')"
    and "\<And>x. x \<noteq> page_addr q \<Longrightarrow> threads s' x = threads s x"
    and "t = 0 \<or> t = page_addr q" and "gRunQueue s' = gRunQueue s" and "cpu s' = cpu s"
    and "gIdleThread s' = gIdleThread s" and "gBootstapThread s' = gBootstapThread s" and "gAllocator s' = gAllocator s"
    and "t = 0 \<Longrightarrow> m_RefCount (objs s') (page_addr q) = 1 \<and> destroyed (objs s') = destroyed (objs s)"
    and "t \<noteq> 0 \<Longrightarrow> State (threads s' t) = Ready \<and> Entry (threads s' t) = entry \<and> Arg (threads s' t) = arg \<and>
           RSP (threads s' t) = Top (KStack (threads s' t)) - 64 \<and> m_RefCount (objs s') t = 2 \<and>
           destroyed (objs s') = destroyed (objs s)"
proof -
  obtain p h1 r ks bm where c: "operator_new (sizeof_Thread img) (heap s) = Inr (p, h1)"
    "KernelStack_Allocate stackSize (KStack new_Thread) (hs_bitmap h1) = (r, ks, bm)"
    "hs_bitmap (heap s') = bm" "gEarlyAlloc (heap s') = gEarlyAlloc h1" "\<forall>x. x \<noteq> p \<longrightarrow> threads s' x = threads s x"
    "gRunQueue s' = gRunQueue s" "cpu s' = cpu s" "gIdleThread s' = gIdleThread s" "gBootstapThread s' = gBootstapThread s"
    "gAllocator s' = gAllocator s" "t = (if r then p else 0)"
    "objs s' = (if r then snd (AddRef p (new_object p (objs s))) else Release p (snd (AddRef p (new_object p (objs s)))))"
    "r \<longrightarrow> threads s' p = new_Thread\<lparr>Name := name, Entry := entry, Arg := arg, CPUIndex := PerCPU_CPUIndex (cpu s), KStack := ks, RSP := Top ks - 64, State := Ready\<rparr>"
    by (rule CreateKernel_result [OF hp(2) res])
  obtain q where q: "p = page_addr q" "p \<noteq> 0" "q \<in> free_pages (hs_bitmap (heap s))" "q \<notin> free_pages (hs_bitmap h1)"
    "free_pages (hs_bitmap h1) \<subseteq> free_pages (hs_bitmap (heap s))" "heap_ok h1" by (rule new_thread_page [OF img hp(1) c(1)])
  have "bitmap_ok (hs_bitmap h1)" using q(6) by (simp add: heap_ok_def)
  note fr = KernelStack_Allocate_frame [OF this c(2)]
  show thesis
  proof (rule that [of q])
    show "q \<notin> free_pages (hs_bitmap (heap s'))" "free_pages (hs_bitmap (heap s')) \<subseteq> free_pages (hs_bitmap (heap s))" "heap_ok (heap s')"
      using q(3-6) fr by (auto simp: c(3,4) heap_ok_def)
    show "m_RefCount (objs s') (page_addr q) = 1 \<and> destroyed (objs s') = destroyed (objs s)" if "t = 0"
      using c(11,12) q(1,2) that by (auto simp: new_object_def AddRef_def Release_def split: if_splits)
    show "State (threads s' t) = Ready \<and> Entry (threads s' t) = entry \<and> Arg (threads s' t) = arg \<and>
           RSP (threads s' t) = Top (KStack (threads s' t)) - 64 \<and> m_RefCount (objs s') t = 2 \<and>
           destroyed (objs s') = destroyed (objs s)" if "t \<noteq> 0"
      using c(11-13) that by (auto simp: new_object_def AddRef_def split: if_splits)
  qed (use c(5-11) q(1,3) in auto)
qed

lemma in_use_mono: "in_use s t \<Longrightarrow> free_pages (hs_bitmap (heap s')) \<subseteq> free_pages (hs_bitmap (heap s)) \<Longrightarrow> in_use s' t"
  by (auto simp: in_use_def)

lemma in_use_fresh:
  assumes "in_use s t" and "q \<in> free_pages (hs_bitmap (heap s))"
  shows "t \<noteq> page_addr q"
proof
  assume "t = page_addr q"
  then obtain p where p: "p < TOTAL_PAGES" "page_addr q = page_addr p" "p \<notin> free_pages (hs_bitmap (heap s))"
    using assms(1) by (auto simp: in_use_def)
  have "q < TOTAL_PAGES" using assms(2) by (simp add: free_pages_def page_free_def)
  with p assms(2) show False by (simp add: page_addr_inj)
qed

lemma CreateAndEnqueue_inv:
  assumes img: "image_ok img" and ok: "sched_ok s xs" and mem: "sched_mem s xs"
    and res: "CreateAndEnqueue img name entry arg stackSize s = Inr (t, s')"
  shows "sched_ok s' (if t = 0 then xs else xs @ [t]) \<and> sched_mem s' (if t = 0 then xs else xs @ [t]) \<and>
    Current s' = Current s \<and> (t \<noteq> 0 \<longrightarrow> t \<notin> set xs \<and> t \<noteq> Current s \<and> Entry (threads s' t) = entry \<and>
      Arg (threads s' t) = arg \<and> m_RefCount (objs s') t = 1)"
proof -
  have hp: "heap_ok (heap s)" "gAllocator s \<noteq> 0" using mem by (auto simp: sched_mem_def)
  obtain s1 where s1: "CreateKernel img name entry arg stackSize s = Inr (t, s1)"
    and s': "s' = (if t \<noteq> 0 then (EnqueueReady t s1)\<lparr>objs := Release t (objs (EnqueueReady t s1))\<rparr> else s1)"
    using res by (auto simp: CreateAndEnqueue_def Let_def split: sum.splits if_splits)
  obtain q where q: "q \<in> free_pages (hs_bitmap (heap s))"
    "q \<notin> free_pages (hs_bitmap (heap s1))" "free_pages (hs_bitmap (heap s1)) \<subseteq> free_pages (hs_bitmap (heap s))"
    "heap_ok (heap s1)" "\<And>x. x \<noteq> page_addr q \<Longrightarrow> threads s1 x = threads s x" "t = 0 \<or> t = page_addr q"
    "gRunQueue s1 = gRunQueue s" "cpu s1 = cpu s" "gIdleThread s1 = gIdleThread s"
    "gBootstapThread s1 = gBootstapThread s" "gAllocator s1 = gAllocator s"
    and new: "t \<noteq> 0 \<Longrightarrow> State (threads s1 t) = Ready \<and> Entry (threads s1 t) = entry \<and> Arg (threads s1 t) = arg \<and>
           RSP (threads s1 t) = Top (KStack (threads s1 t)) - 64 \<and> m_RefCount (objs s1) t = 2 \<and>
           destroyed (objs s1) = destroyed (objs s)"
    by (rule CreateKernel_props [OF img hp s1]) (rule that)
  have fresh: "x \<noteq> page_addr q" if "x \<in> {gIdleThread s, gBootstapThread s, Current s} \<union> set xs" for x
    using in_use_fresh [OF _ q(1), of x] mem that by (auto simp: sched_mem_def)
  have C: "Current s1 = Current s" by (simp add: Current_def q(8))
  have th: "threads s1 x = threads s x" if "x \<in> {gIdleThread s, gBootstapThread s, Current s} \<union> set xs" for x
    using q(5) fresh [OF that] by blast
  have ql: "queue_list (threads s1, gRunQueue s1) xs"
    using ok th by (auto simp: sched_ok_def queue_list_def q(7))
  have ok1: "sched_ok s1 xs" using ok ql th C by (auto simp: sched_ok_def q(9,10))
  have use1: "in_use s1 x" if "x \<in> {gIdleThread s, gBootstapThread s, Current s} \<union> set xs" for x
    using mem that in_use_mono [OF _ q(3)] by (auto simp: sched_mem_def)
  show ?thesis
  proof (cases "t = 0")
    case True
    then show ?thesis using s' ok1 use1 q(4,9-11) hp C by (auto simp: sched_mem_def)
  next
    case False
    then have t: "t = page_addr q" "t \<notin> set xs" using q(6) fresh by auto
    note E = EnqueueReady_props [OF ql False t(2)]
    have E2: "Entry (threads (EnqueueReady t s1) t) = entry" "Arg (threads (EnqueueReady t s1) t) = arg"
      using new [OF False] E(8,9) by simp_all
    have sg: "objs (EnqueueReady t s1) = objs s1" "gIdleThread (EnqueueReady t s1) = gIdleThread s"
      "gBootstapThread (EnqueueReady t s1) = gBootstapThread s" "gAllocator (EnqueueReady t s1) = gAllocator s"
      using E(4) q(9-11) by (auto simp: same_globals_def)
    have "q < TOTAL_PAGES" using q(1) by (simp add: free_pages_def page_free_def)
    then have "in_use s1 t" using q(2) t(1) by (auto simp: in_use_def)
    with use1 have "\<forall>x\<in>{gIdleThread s, gBootstapThread s, Current s} \<union> set (xs @ [t]). in_use s' x"
      using False E(7) by (auto simp: s' in_use_def)
    moreover have "sched_ok s' (xs @ [t])"
      using ok1 E(1,2,5) False t fresh C sg by (auto simp: sched_ok_def s' Current_def q(9,10))
    moreover have "m_RefCount (objs s') t = 1"
      using new [OF False] False by (simp add: s' sg Release_def Let_def)
    moreover have "Current s' = Current s" "gIdleThread s' = gIdleThread s" "gBootstapThread s' = gBootstapThread s"
      using False E(5) C sg by (simp_all add: s' Current_def)
    ultimately show ?thesis
      using False q(4) E(7) E2 t fresh hp sg by (auto simp: sched_mem_def s')
  qed
qed

subsection \<open>The step relation\<close>

text \<open>
  Everything that can happen to the scheduler once it is initialised: the running thread yields, exits,
  starts running or creates a thread; the timer ticks; any code changes registers and memory.
\<close>

inductive sched_step :: "image \<Rightarrow> sched_state \<Rightarrow> sched_state \<Rightarrow> bool" for img where
  yield: "Yield img s = Inr s' \<Longrightarrow> sched_step img s s'"
| exit: "ThreadExit img s = Inr s' \<Longrightarrow> sched_step img s s'"
| create: "CreateAndEnqueue img name entry arg sz s = Inr (t, s') \<Longrightarrow> sched_step img s s'"
| trampoline: "sched_step img s (snd (ThreadStartTrampoline s))"
| tick: "sched_step img s (OnTimerTick (s\<lparr>cpu := (cpu s)\<lparr>TickCount := TickCount (cpu s) + 1\<rparr>\<rparr>))"
| work: "sched_step img s (s\<lparr>regs := r, heap := (heap s)\<lparr>hs_mem := m\<rparr>\<rparr>)"

inductive_cases sched_stepE: "sched_step img s s'"

definition sched_inv :: "sched_state \<Rightarrow> bool" where
  "sched_inv s \<longleftrightarrow> (\<exists>xs. sched_ok s xs \<and> sched_mem s xs)"

lemma spec_yield_members:
  "spec_yield idle b (c, xs) = (c', ys) \<Longrightarrow> insert c' (set ys) \<subseteq> {idle, c} \<union> set xs"
  by (cases xs; cases b) (auto simp: spec_yield_def)

lemma Yield_inv:
  assumes "sched_ok s xs" and "sched_mem s xs" and "Yield img s = Inr s'"
  shows "sched_inv s'"
proof -
  from Yield_refines [OF assms(1), of img] obtain ys where
    y: "spec_yield (gIdleThread s) (requeues s) (Current s, xs) = (Current s', ys)" "sched_ok s' ys" "same_globals s s'"
      "hs_bitmap (heap s') = hs_bitmap (heap s)" "gEarlyAlloc (heap s') = gEarlyAlloc (heap s)"
    using assms(3) by (metis Inr_inject)
  have "in_use s' x" if "x \<in> {gIdleThread s, gBootstapThread s, Current s} \<union> set xs" for x
    using assms(2) that y(4) by (auto simp: sched_mem_def in_use_def)
  with spec_yield_members [OF y(1)] y(3-5) assms(2) have "sched_mem s' ys"
    by (auto simp: sched_mem_def heap_ok_def same_globals_def)
  with y(2) show ?thesis by (auto simp: sched_inv_def)
qed

lemma set_State_ok:
  "sched_ok s xs \<Longrightarrow> sched_ok (set_thread (Current s) (\<lambda>x. x\<lparr>State := v\<rparr>) s) xs"
  by (auto simp: sched_ok_def Current_def intro: queue_list_links)

lemma sched_step_inv: "sched_step img s s' \<Longrightarrow> image_ok img \<Longrightarrow> sched_inv s \<Longrightarrow> sched_inv s'"
proof (induction rule: sched_step.induct)
  case (yield s s')
  then show ?case using Yield_inv by (auto simp: sched_inv_def [of s])
next
  case (exit s s')
  then obtain xs where "sched_ok s xs" "sched_mem s xs" by (auto simp: sched_inv_def)
  moreover from this have "sched_mem (set_thread (Current s) (\<lambda>x. x\<lparr>State := Dead\<rparr>) s) xs"
    by (auto simp: sched_mem_def in_use_def Current_def)
  ultimately show ?case using exit(1) Yield_inv set_State_ok by (metis ThreadExit_def)
next
  case (create name entry arg sz s t s')
  then show ?case using CreateAndEnqueue_inv by (meson sched_inv_def)
next
  case (trampoline s)
  then obtain xs where "sched_ok s xs" "sched_mem s xs" by (auto simp: sched_inv_def)
  moreover from this have "sched_mem (set_thread (Current s) (\<lambda>x. x\<lparr>State := Running\<rparr>) s) xs"
    by (auto simp: sched_mem_def in_use_def Current_def)
  ultimately show ?case using set_State_ok by (auto simp: ThreadStartTrampoline_def Let_def sched_inv_def)
next
  case (tick s)
  then show ?case
    by (auto simp: sched_inv_def sched_ok_def sched_mem_def in_use_def OnTimerTick_def Current_def)
next
  case (work s r m)
  then show ?case
    by (auto simp: sched_inv_def sched_ok_def sched_mem_def in_use_def heap_ok_def Current_def)
qed

subsection \<open>Initialisation and sleeping\<close>

lemma Init_inv:
  assumes img: "image_ok img" and hp: "heap_ok (heap s)" "gAllocator s \<noteq> 0"
    and q0: "gRunQueue s = new_RunQueue"
    and res: "sched_Init img s = Inr s'" and idle: "gIdleThread s' \<noteq> 0"
  shows "sched_ok s' []" and "sched_mem s' []" and "Current s' = gBootstapThread s'"
    and "gIdleThread s' \<noteq> gBootstapThread s'" and "State (threads s' (gIdleThread s')) = Ready"
    and "State (threads s' (Current s')) = Running"
proof -
  obtain b h1 where new: "operator_new (sizeof_Thread img) (heap s) = Inr (b, h1)"
    using res by (auto simp: sched_Init_def split: sum.splits)
  obtain q where q: "b = page_addr q" and b0: "b \<noteq> 0" and qt: "q < TOTAL_PAGES" "q \<notin> free_pages (hs_bitmap h1)" and h1: "heap_ok h1"
    by (rule new_thread_page [OF img hp(1) new])
  define s3 where "s3 = (set_thread b (\<lambda>x. x\<lparr>Name := str_Bootstrap img, State := Running, CPUIndex := PerCPU_CPUIndex (cpu s)\<rparr>)
      (s\<lparr>heap := h1, threads := (threads s)(b := new_Thread), objs := new_object b (objs s), gBootstapThread := b\<rparr>))
      \<lparr>cpu := (cpu s)\<lparr>CurrentThread := b\<rparr>\<rparr>"
  obtain t s4 where ck: "CreateKernel img (str_idle img) (addr_IdleMain img) 0 0 s3 = Inr (t, s4)"
    and s': "s' = (if t \<noteq> 0 then s4\<lparr>gIdleThread := t, objs := Release t (objs s4)\<rparr> else s4\<lparr>gIdleThread := t\<rparr>)"
    using res by (auto simp: sched_Init_def new Let_def s3_def split: sum.splits if_splits)
  have t0: "t \<noteq> 0" using idle s' by (auto split: if_splits)
  have hs3: "heap_ok (heap s3)" "gAllocator s3 \<noteq> 0" using h1 hp(2) by (simp_all add: s3_def)
  obtain p where p: "p \<in> free_pages (hs_bitmap (heap s3))" "p \<notin> free_pages (hs_bitmap (heap s4))"
    "free_pages (hs_bitmap (heap s4)) \<subseteq> free_pages (hs_bitmap (heap s3))" "heap_ok (heap s4)"
    "\<And>x. x \<noteq> page_addr p \<Longrightarrow> threads s4 x = threads s3 x" "t = page_addr p" "gRunQueue s4 = gRunQueue s3" "cpu s4 = cpu s3"
    "gBootstapThread s4 = gBootstapThread s3" "gAllocator s4 = gAllocator s3" "State (threads s4 t) = Ready"
    by (rule CreateKernel_props [OF img hs3 ck]) (use t0 that in simp)
  have pt: "p < TOTAL_PAGES" using p(1) by (simp add: free_pages_def page_free_def)
  have pq: "p \<noteq> q" using p(1) qt(2) by (auto simp: s3_def)
  then have tb: "t \<noteq> b" using pt qt(1) by (simp add: p(6) q page_addr_inj)
  have ids: "gIdleThread s' = t" "gBootstapThread s' = b" "Current s' = b" "gAllocator s' = gAllocator s"
    "heap s' = heap s4" "threads s' = threads s4" "gRunQueue s' = new_RunQueue"
    using t0 p(7-10) q0 by (simp_all add: s' s3_def Current_def)
  show "sched_ok s' []" using t0 b0 by (simp add: sched_ok_def ids queue_list_def new_RunQueue_def)
  have "in_use s' t" "in_use s' b"
    using p(2,3,6) pt qt by (auto simp: in_use_def ids q s3_def)
  then show "sched_mem s' []" using p(4) hp(2) by (simp add: sched_mem_def ids)
  show "Current s' = gBootstapThread s'" "gIdleThread s' \<noteq> gBootstapThread s'" using tb by (simp_all add: ids)
  show "State (threads s' (gIdleThread s')) = Ready" using p(11) by (simp add: ids)
  have "threads s4 b = threads s3 b" using p(5,6) tb by metis
  then show "State (threads s' (Current s')) = Running" by (simp add: ids s3_def)
qed

text \<open>What a sleeping thread needs of the rest of the system: the scheduler stays sound and the timer ticks.\<close>

definition ticking :: "u64 \<Rightarrow> (nat \<Rightarrow> sched_state \<Rightarrow> sched_state) \<Rightarrow> bool" where
  "ticking target resume \<longleftrightarrow> (\<forall>k s. (\<exists>xs. sched_ok s xs) \<longrightarrow>
     (\<exists>xs. sched_ok (resume k s) xs) \<and> (NowTick s < target \<longrightarrow> NowTick s < NowTick (resume k s)))"

lemma SleepUntilTick_loop_returns:
  assumes tk: "ticking target resume" and ok: "sched_ok s xs"
  shows "\<exists>s' ys. SleepUntilTick_loop img resume target k s = Some (Inr s') \<and> sched_ok s' ys \<and> target \<le> NowTick s'"
  using ok
proof (induction "unat target - unat (NowTick s)" arbitrary: k s xs rule: less_induct)
  case less
  show ?case
  proof (cases "NowTick s < target")
    case False
    with less.prems show ?thesis by (subst SleepUntilTick_loop.simps) auto
  next
    case True
    from Yield_refines [OF less.prems, of img] obtain s1 ys where
      y: "Yield img s = Inr s1" "sched_ok s1 ys" "TickCount (cpu s1) = TickCount (cpu s)" by metis
    have n: "NowTick s1 = NowTick s" using y(3) by (simp add: NowTick_def)
    obtain zs where z: "sched_ok (resume k s1) zs" "NowTick s < NowTick (resume k s1)"
      using tk y(2) True n unfolding ticking_def by metis
    have "unat target - unat (NowTick (resume k s1)) < unat target - unat (NowTick s)"
      using z(2) True by (simp add: word_less_nat_alt diff_less_mono2)
    from less.hyps [OF this z(1)] True y(1) show ?thesis by (subst SleepUntilTick_loop.simps) simp
  qed
qed

subsection \<open>Properties\<close>

text \<open>
  A scheduler for concrete instances: idle at \<open>0x6000\<close>, bootstrap at \<open>0x7000\<close>, the running thread at
  \<open>0x8000\<close> and the given ready list.
\<close>

definition example_store :: thread_store where
  "example_store t = new_Thread\<lparr>State := if t = 0x8000 then Running else Ready\<rparr>"

definition example_image :: image where
  "example_image = \<lparr>sizeof_Thread = 144, addr_ThreadStartTrampoline = 0x100000, addr_IdleMain = 0x100100,
     str_Bootstrap = 0x180000, str_idle = 0x180010, ret_SwitchTo = 0x100200\<rparr>"

definition example_sched :: "u64 list \<Rightarrow> sched_state" where
  "example_sched ts = (let (th, q) = fold Push ts (example_store, new_RunQueue) in
     \<lparr>heap = example_heap, gAllocator = 0x200000, threads = th,
      objs = \<lparr>m_RefCount = (\<lambda>_. 1), destroyed = [], slot = (\<lambda>_. None)\<rparr>,
      gRunQueue = q, gBootstapThread = 0x7000, gIdleThread = 0x6000, gNeedReschedule = False,
      cpu = \<lparr>LAPICID = 0, PerCPU_CPUIndex = 0, PreemptDepth = 0, TickCount = 0, CurrentThread = 0x8000\<rparr>,
      regs = example_regs 0x90000\<rparr>)"

lemma example_sched_ok:
  assumes "distinct ts" and "set ts \<inter> {0, 0x6000, 0x7000, 0x8000} = {}"
  shows "sched_ok (example_sched ts) ts" and "requeues (example_sched ts)"
    and "Current (example_sched ts) = 0x8000" and "gIdleThread (example_sched ts) = 0x6000"
    and "gBootstapThread (example_sched ts) = 0x7000"
proof -
  let ?r = "fold Push ts (example_store, new_RunQueue)"
  have "queue_list (example_store, new_RunQueue) []" by (simp add: queue_list_def new_RunQueue_def)
  then have r: "queue_list ?r ts" "payload ?r = payload (example_store, new_RunQueue)"
    using rq.push_all [of "(example_store, new_RunQueue)" "[]" ts] assms by auto
  have th: "threads (example_sched ts) = fst ?r" "gRunQueue (example_sched ts) = snd ?r"
    by (simp_all add: example_sched_def case_prod_beta)
  have st: "State (fst ?r t) = (if t = 0x8000 then Running else Ready)" for t
    using payload_fields(1) [OF r(2), of t] by (simp add: example_store_def)
  show c: "Current (example_sched ts) = 0x8000" "gIdleThread (example_sched ts) = 0x6000"
    "gBootstapThread (example_sched ts) = 0x7000" by (simp_all add: example_sched_def Current_def case_prod_beta)
  show "sched_ok (example_sched ts) ts" using assms r(1) by (auto simp: sched_ok_def c th st)
  show "requeues (example_sched ts)" by (simp add: requeues_def ordinary_def c th st)
qed

lemma example_image_ok: "image_ok example_image"
  by (simp add: image_ok_def example_image_def)

text \<open>
  C6. \<open>Yield\<close> implements the abstract scheduler: in every state in which the invariant holds it succeeds,
  the thread that runs next and the new ready list are those of the specification (the yielding thread
  goes to the end of the list if it is an ordinary running thread, the front of the list runs next, idle
  if there is none), and the invariant holds again.
\<close>

theorem Yield_implements_spec:
  assumes "sched_ok s xs"
  shows "\<exists>s' ys. Yield img s = Inr s' \<and>
    spec_yield (gIdleThread s) (requeues s) (Current s, xs) = (Current s', ys) \<and> sched_ok s' ys"
  using Yield_refines [OF assms] by metis

theorem Yield_implements_spec_witness:
  "\<exists>s'. Yield example_image (example_sched [0x9000]) = Inr s' \<and> Current s' = 0x9000 \<and> sched_ok s' [0x8000]"
proof -
  note e = example_sched_ok [of "[0x9000]", simplified]
  from Yield_implements_spec [OF e(1), of example_image] show ?thesis
    by (auto simp: e spec_yield_def)
qed

text \<open>
  C20. Round robin: with at least one other ready thread, all of them ordinary, the order in which
  threads run is the rotation of the list of the current thread and the ready list; so each of \<open>n\<close>
  threads runs once in every \<open>n\<close> turns, whatever the threads do between their yields.
\<close>

theorem Yield_round_robin:
  assumes "keeps_sched work" and "sched_ok s xs" and "xs \<noteq> []"
    and "requeues s" and "\<forall>t\<in>set xs. ordinary s t"
  shows "\<exists>s'. turns img work n s = Inr s' \<and> Current s' = hd (rotate n (Current s # xs)) \<and>
    sched_ok s' (tl (rotate n (Current s # xs)))"
  using turns_rotate [OF assms] by blast

theorem Yield_round_robin_witness:
  "\<exists>s'. turns example_image (\<lambda>_ s. s) 3 (example_sched [0x9000, 0xA000]) = Inr s' \<and> Current s' = 0x8000 \<and>
     sched_ok s' [0x9000, 0xA000]"
proof -
  note e = example_sched_ok [of "[0x9000, 0xA000]", simplified]
  have k: "keeps_sched (\<lambda>_ s. s)" by (simp add: keeps_sched_def)
  have o: "\<forall>t\<in>set [0x9000, 0xA000]. ordinary (example_sched [0x9000, 0xA000]) t" by (simp add: ordinary_def e)
  have r: "rotate 3 [0x8000, 0x9000, 0xA000] = [0x8000, 0x9000, 0xA000 :: u64]" by (simp add: numeral_3_eq_3)
  from Yield_round_robin [OF k e(1) _ e(2) o, of example_image 3] show ?thesis by (simp add: e r)
qed

text \<open>
  A thread that yields while it is the only ordinary one is lost: its first \<open>Yield\<close> marks it ready and
  switches back to itself without marking it running; its second \<open>Yield\<close> therefore does not put it back into
  the queue, the idle thread runs, and it runs forever: no further turn ever runs another thread.
\<close>

lemma Yield_loses_lone_thread:
  assumes "keeps_sched work" and "sched_ok s []" and "requeues s"
  shows "(\<exists>s1. turns img work 1 s = Inr s1 \<and> Current s1 = Current s \<and> State (threads s1 (Current s)) = Ready) \<and>
    (\<forall>n\<ge>2. \<exists>s'. turns img work n s = Inr s' \<and> Current s' = gIdleThread s \<and> sched_ok s' [])"
proof -
  have c: "Current s \<noteq> gIdleThread s" using assms(3) by (simp add: requeues_def ordinary_def)
  have w: "sched_ok (work 0 s) []" "requeues (work 0 s)" "Current (work 0 s) = Current s" "gIdleThread (work 0 s) = gIdleThread s"
    using assms by (auto simp: keeps_sched_ok keeps_requeues) (auto simp: keeps_sched_def)
  from Yield_refines [OF w(1), of img] obtain s1 ys where
    y: "Yield img (work 0 s) = Inr s1" "spec_yield (gIdleThread s) True (Current s, []) = (Current s1, ys)"
      "sched_ok s1 ys" "same_globals (work 0 s) s1"
      "State (threads s1 (Current s)) = (if Current s = Current s1 \<and> Current s1 \<noteq> Current s then Running else Ready)"
    using w by (metis (full_types))
  have e: "Current s1 = Current s" "ys = []" using y(2) by (auto simp: spec_yield_def)
  have first: "turns img work 1 s = Inr s1" "State (threads s1 (Current s)) = Ready" using y(1,5) e by simp_all
  have w1: "sched_ok (work 1 s1) []" "\<not> requeues (work 1 s1)" "gIdleThread (work 1 s1) = gIdleThread s"
    using assms(1) y(3,4) e w(4) first(2)
    by (auto simp: keeps_sched_ok keeps_requeues requeues_def same_globals_def) (auto simp: keeps_sched_def)
  from Yield_refines [OF w1(1), of img] obtain s2 zs where
    z: "Yield img (work 1 s1) = Inr s2" "spec_yield (gIdleThread s) False (Current (work 1 s1), []) = (Current s2, zs)"
      "sched_ok s2 zs" "same_globals (work 1 s1) s2" using w1 by (metis (full_types))
  have e2: "Current s2 = gIdleThread s" "zs = []" using z(2) by (auto simp: spec_yield_def)
  have two: "turns img work 2 s = Inr s2" using first(1) z(1) by (simp add: numeral_2_eq_2)
  have shift: "turns img work (n + 2) s = turns img (\<lambda>k. work (k + 2)) n s2" for n
    by (induction n) (use two in \<open>simp_all add: numeral_2_eq_2 split: sum.splits\<close>)
  have keep: "keeps_sched (\<lambda>k. work (k + 2))" using assms(1) by (simp add: keeps_sched_def)
  have "\<exists>s'. turns img work n s = Inr s' \<and> Current s' = gIdleThread s \<and> sched_ok s' []" if "2 \<le> n" for n
  proof -
    have "sched_ok s2 []" "Current s2 = gIdleThread s2" using z(3,4) e2 w1(3) by (auto simp: same_globals_def)
    from idle_stays [OF keep this, of img "n - 2"] obtain s' where
      "turns img (\<lambda>k. work (k + 2)) (n - 2) s2 = Inr s'" "sched_ok s' []" "Current s' = gIdleThread s2" by blast
    moreover have "turns img work n s = turns img (\<lambda>k. work (k + 2)) (n - 2) s2" 
    proof -
      have "n - 2 + 2 = n" using that by simp
      with shift [of "n - 2"] show ?thesis by (simp only:)
    qed
    moreover have "gIdleThread s2 = gIdleThread s" using z(4) w1(3) by (simp add: same_globals_def)
    ultimately show ?thesis by simp
  qed
  with first e show ?thesis by auto
qed

lemma Yield_loses_lone_thread_example:
  "\<exists>s'. turns example_image (\<lambda>_ s. s) 2 (example_sched []) = Inr s' \<and> Current s' = 0x6000"
proof -
  note e = example_sched_ok [of "[]", simplified]
  have "keeps_sched (\<lambda>_ s. s)" by (simp add: keeps_sched_def)
  from Yield_loses_lone_thread [OF this e(1,2), of example_image] show ?thesis by (auto simp: e)
qed

text \<open>
  C7. The scheduler's invariant holds in every reachable state: whatever sequence of yields, exits,
  thread creations, first entries, timer ticks and ordinary code runs after a state that satisfies it,
  the ready queue is a well-formed list of distinct ready threads, the running thread, the idle thread
  and the bootstrap thread are never queued, and every thread the scheduler knows lies in a page that
  the allocator regards as used.
\<close>

theorem scheduler_invariant:
  assumes "image_ok img" and "sched_inv s" and "(sched_step img)\<^sup>*\<^sup>* s s'"
  shows "\<exists>xs. sched_ok s' xs \<and> sched_mem s' xs"
proof -
  from assms(3,2) have "sched_inv s'"
    by (induction rule: rtranclp_induct) (auto intro: sched_step_inv [OF _ assms(1)])
  then show ?thesis by (simp add: sched_inv_def)
qed

lemma example_sched_mem:
  assumes "distinct ts" and "set ts \<subseteq> {0x9000, 0xA000}"
  shows "sched_mem (example_sched ts) ts"
proof -
  have d: "set ts \<inter> {0, 0x6000, 0x7000, 0x8000} = {}" using assms(2) by auto
  note e = example_sched_ok [OF assms(1) d]
  have h: "heap (example_sched ts) = example_heap" "gAllocator (example_sched ts) = 0x200000"
    by (simp_all add: example_sched_def case_prod_beta)
  have u: "in_use (example_sched ts) (page_addr p)" if "p \<in> {6, 7, 8, 9, 10}" for p
    unfolding in_use_def h using that by (intro exI [of _ p]) (auto simp: example_heap_def example_free_pages page_consts)
  have "page_addr 6 = 0x6000" "page_addr 7 = 0x7000" "page_addr 8 = 0x8000" "page_addr 9 = 0x9000" "page_addr 10 = 0xA000"
    by (simp_all add: page_addr_def)
  with u [of 6] u [of 7] u [of 8] u [of 9] u [of 10] assms(2) show ?thesis
    using example_heap_ok by (auto simp: sched_mem_def e h)
qed

theorem scheduler_invariant_witness:
  "\<exists>xs. sched_ok (snd (ThreadStartTrampoline (example_sched [0x9000]))) xs \<and>
        sched_mem (snd (ThreadStartTrampoline (example_sched [0x9000]))) xs"
proof -
  have "sched_inv (example_sched [0x9000])"
    using example_sched_ok(1) [of "[0x9000]"] example_sched_mem [of "[0x9000]"] by (auto simp: sched_inv_def)
  moreover have "(sched_step example_image)\<^sup>*\<^sup>* (example_sched [0x9000]) (snd (ThreadStartTrampoline (example_sched [0x9000])))"
    by (rule r_into_rtranclp) (rule sched_step.trampoline)
  ultimately show ?thesis by (rule scheduler_invariant [OF example_image_ok])
qed

text \<open>
  \<open>Init\<close> establishes the invariant, with an empty ready queue and the bootstrap thread running,
  whenever it returns with an idle thread.
\<close>

lemma Init_establishes:
  assumes "image_ok img" and "heap_ok (heap s)" and "gAllocator s \<noteq> 0" and "gRunQueue s = new_RunQueue"
    and "sched_Init img s = Inr s'" and "gIdleThread s' \<noteq> 0"
  shows "sched_ok s' [] \<and> sched_mem s' [] \<and> Current s' = gBootstapThread s' \<and>
    State (threads s' (Current s')) = Running \<and> State (threads s' (gIdleThread s')) = Ready"
  using Init_inv [OF assms] by blast

text \<open>A machine with the pages 1 to 7 free, before \<open>Init\<close>.\<close>

definition example_boot :: "u8 \<Rightarrow> sched_state" where
  "example_boot b = (example_sched [])\<lparr>heap := example_heap\<lparr>hs_bitmap := example_bitmap(0 := b)\<rparr>\<rparr>"

lemma example_boot_new:
  assumes "gEarlyAlloc h \<noteq> 0"
  shows "hs_bitmap h = example_bitmap(0 := 0x01) \<Longrightarrow> \<exists>h'. operator_new 144 h = Inr (0x1000, h') \<and>
      hs_bitmap h' = example_bitmap(0 := 0x03) \<and> gEarlyAlloc h' \<noteq> 0"
    and "hs_bitmap h = example_bitmap(0 := 0x03) \<Longrightarrow> \<exists>h'. operator_new 144 h = Inr (0x2000, h') \<and>
      hs_bitmap h' = example_bitmap(0 := 0x07) \<and> gEarlyAlloc h' \<noteq> 0"
  using assms
  by (simp_all add: operator_new_def Let_def example_bitmap_def sizeof_AllocatedMemoryInfo_def alloc_eval SetBit_def)

lemma example_boot_stack: "fst (KernelStack_Allocate 0 ks (example_bitmap(0 := 0x07)))"
  by (simp add: KernelStack_Allocate_def DEFAULT_STACK_SIZE_def example_bitmap_def alloc_eval)

lemma example_Init: "\<exists>s'. sched_Init example_image (example_boot 0x01) = Inr s' \<and> gIdleThread s' = 0x2000"
proof -
  have h: "gEarlyAlloc (heap (example_boot 0x01)) \<noteq> 0" "hs_bitmap (heap (example_boot 0x01)) = example_bitmap(0 := 0x01)"
    "gAllocator (example_boot 0x01) \<noteq> 0" "sizeof_Thread example_image = 144"
    by (simp_all add: example_boot_def example_heap_def example_sched_def case_prod_beta example_image_def)
  obtain h1 where h1: "operator_new 144 (heap (example_boot 0x01)) = Inr (0x1000, h1)"
    "hs_bitmap h1 = example_bitmap(0 := 0x03)" "gEarlyAlloc h1 \<noteq> 0" using example_boot_new(1) [OF h(1,2)] by blast
  obtain h2 where h2: "operator_new 144 h1 = Inr (0x2000, h2)"
    "hs_bitmap h2 = example_bitmap(0 := 0x07)" using example_boot_new(2) [OF h1(3,2)] by blast
  have st: "\<exists>ks' bm. KernelStack_Allocate 0 ks (example_bitmap(0 := 0x07)) = (True, ks', bm)" for ks
    using example_boot_stack [of ks] by (metis prod.collapse)
  obtain ks bm where k: "KernelStack_Allocate 0 (KStack new_Thread) (example_bitmap(0 := 0x07)) = (True, ks, bm)"
    using st by blast
  show ?thesis
    by (simp add: sched_Init_def CreateKernel_def h h1(1) h2 k Let_def case_prod_beta)
qed

lemma Init_establishes_example:
  "\<exists>s'. sched_Init example_image (example_boot 0x01) = Inr s' \<and> sched_ok s' [] \<and> Current s' = gBootstapThread s'"
proof -
  obtain s' where s': "sched_Init example_image (example_boot 0x01) = Inr s'" "gIdleThread s' = 0x2000"
    using example_Init by blast
  have "\<not> page_free (example_bitmap(0 := 0x01)) 0" "(example_bitmap(0 := 0x01)) BITMAP_BYTES = 0xFF"
    by (simp_all add: page_free_def bit_at_def Bit_iff CHAR_BIT_def example_bitmap_def BITMAP_BYTES_def)
  then have "heap_ok (heap (example_boot 0x01))"
    by (simp add: heap_ok_def bitmap_ok_def example_boot_def example_heap_def)
  moreover have "gAllocator (example_boot 0x01) \<noteq> 0" "gRunQueue (example_boot 0x01) = new_RunQueue"
    by (simp_all add: example_boot_def example_sched_def)
  ultimately show ?thesis
    using Init_establishes [OF example_image_ok _ _ _ s'(1)] s' by auto
qed

text \<open>
  \<open>CreateAndEnqueue\<close> that returns a thread appends exactly that thread to the ready list: it is a new
  object different from every known thread, carries the given entry function and argument, and holds
  one reference; the running thread does not change. If it returns null, the ready list is as before.
\<close>

lemma CreateAndEnqueue_correct:
  assumes "image_ok img" and "sched_ok s xs" and "sched_mem s xs"
    and "CreateAndEnqueue img name entry arg stackSize s = Inr (t, s')"
  shows "sched_ok s' (if t = 0 then xs else xs @ [t]) \<and> sched_mem s' (if t = 0 then xs else xs @ [t]) \<and>
    Current s' = Current s \<and> (t \<noteq> 0 \<longrightarrow> t \<notin> set xs \<and> t \<noteq> Current s \<and> Entry (threads s' t) = entry \<and>
      Arg (threads s' t) = arg \<and> m_RefCount (objs s') t = 1)"
  using CreateAndEnqueue_inv [OF assms] .

lemma CreateAndEnqueue_correct_example:
  "\<exists>t s'. CreateAndEnqueue example_image 0 0x42 0 5000 (example_sched [0x9000]) = Inr (t, s') \<and>
     sched_ok s' (if t = 0 then [0x9000] else [0x9000, t])"
proof -
  have h: "heap (example_sched [0x9000]) = example_heap" "gAllocator (example_sched [0x9000]) \<noteq> 0"
    "sizeof_Thread example_image = 144"
    by (simp_all add: example_sched_def case_prod_beta example_image_def)
  have "\<exists>r. operator_new 144 example_heap = Inr r"
    by (simp add: operator_new_def Let_def example_heap_def example_bitmap_def sizeof_AllocatedMemoryInfo_def alloc_eval)
  then have "\<exists>t s'. CreateAndEnqueue example_image 0 0x42 0 5000 (example_sched [0x9000]) = Inr (t, s')"
    using h by (auto simp: CreateAndEnqueue_def CreateKernel_def Let_def case_prod_beta)
  then obtain t s' where r: "CreateAndEnqueue example_image 0 0x42 0 5000 (example_sched [0x9000]) = Inr (t, s')" by blast
  have "sched_ok (example_sched [0x9000]) [0x9000]" "sched_mem (example_sched [0x9000]) [0x9000]"
    by (rule example_sched_ok example_sched_mem; simp)+
  from CreateAndEnqueue_correct [OF example_image_ok this r] r show ?thesis by (auto split: if_splits)
qed



end
