(* ===== verification/Interrupts.thy ===== *)
theory Interrupts
  imports LocalApic Scheduler
begin

text \<open>
  Interrupt dispatch: \<open>Kernel/Arch/x86_64/CPU/Interrupt/InterruptDispatch.cpp\<close>, the legacy controller and
  timer (\<open>PIC/PIC.hpp\<close>, \<open>Timers/PIT.hpp\<close>), the handlers of \<open>Kernel/Arch/x86_64/Interrupts/\<close> and
  \<open>APIC/APICController.cpp\<close>.

  The state extends that of the local APIC driver with the tables of the dispatcher, the scheduler state
  that the timer handler changes and the calls made on the bootstrap console. A function pointer is a
  value of a datatype with one constructor for each function of that type in the sources, or \<open>None\<close>. No
  event logger exists in the sources; a logger is an argument. A handler returns, halts the processor or
  fails, which is the type \<open>outcome\<close>.
\<close>

unbundle bit_operations_syntax

subsection \<open>The legacy interrupt controller and timer\<close>

definition EOIMaster :: "('r, unit) hw" where
  "EOIMaster = Out8 0x20 0x20"

definition EOISlave :: "('r, unit) hw" where
  "EOISlave = do { Out8 0xA0 0x20; Out8 0x20 0x20 }"

definition IsMasterVector :: "u8 \<Rightarrow> bool" where
  "IsMasterVector vec \<longleftrightarrow> vec \<ge> 0x20 \<and> vec \<le> 0x27"

definition IsSlaveVector :: "u8 \<Rightarrow> bool" where
  "IsSlaveVector vec \<longleftrightarrow> vec \<ge> 0x28 \<and> vec \<le> 0x2F"

definition PIC_MASTER_DATA :: u16 where "PIC_MASTER_DATA = 0x21"
definition PIC_SLAVE_DATA :: u16 where "PIC_SLAVE_DATA = 0xA1"

definition Unmask :: "hardware \<Rightarrow> u8 \<Rightarrow> ('r, unit) hw" where
  "Unmask hw irq0 = do {
     let (port, irq) = (if irq0 < 8 then (PIC_MASTER_DATA, irq0) else (PIC_SLAVE_DATA, irq0 - 8));
     v \<leftarrow> In8 hw port;
     let val = (ucast ((ucast v :: u32) AND NOT (push_bit (unat irq) 1)) :: u8);
     Out8 port val
   }"

definition Mask :: "hardware \<Rightarrow> u8 \<Rightarrow> ('r, unit) hw" where
  "Mask hw irq0 = do {
     let (port, irq) = (if irq0 < 8 then (PIC_MASTER_DATA, irq0) else (PIC_SLAVE_DATA, irq0 - 8));
     v \<leftarrow> In8 hw port;
     let val = (ucast ((ucast v :: u32) OR push_bit (unat irq) 1) :: u8);
     Out8 port val
   }"

text \<open>A division by zero is \<open>None\<close>.\<close>

definition InitPIT :: "hardware \<Rightarrow> u32 \<Rightarrow> ('r, unit) hw option" where
  "InitPIT hw targetHz =
     (if targetHz = 0 then None
      else Some (do {
        let dv = (ucast (1193182 div targetHz) :: u16);
        Out8 0x43 0x34;
        Out8 0x40 (ucast (dv AND 0xFF));
        Out8 0x40 (ucast (drop_bit 8 dv AND 0xFF));
        Unmask hw 0
      }))"

subsection \<open>State of the dispatcher\<close>

record InterruptFrame =
  RIP :: u64
  CS :: u64
  RFLAGS :: u64
  frame_RSP :: u64
  SS :: u64

record InterruptEvent =
  Vector :: u8
  HasErrorCode :: bool
  ErrorCode :: u64
  Frame :: InterruptFrame
  Count :: u64

datatype handler_fn = Fn_OnTimer | Fn_OnIRQ0 | Fn_HandlerUD | Fn_HandlerGP | Fn_HandlerPF | Fn_HandlerDF
datatype eoi_fn = Fn_EndOfInterrupt
datatype logger_fn = Fn_Logger nat

datatype con_call = ConPutChar char | ConPutString string | ConFlush | ConReset

record intr_state = lapic_state +
  gHandlers :: "u8 \<Rightarrow> handler_fn option"
  gVectorCounts :: "u8 \<Rightarrow> u64"
  gEOI :: "eoi_fn option"
  gLogger :: "logger_fn option"
  sched :: sched_state
  irq0_ctr :: u64
  console :: "con_call list"
  apic_isInitialized :: bool

datatype outcome = Returned intr_state | Halted intr_state | Failed kernel_error

record intr_env =
  env_hw :: hardware
  env_cr3 :: u64
  env_sizeof_RedundantOutput :: u64
  env_logger :: "logger_fn \<Rightarrow> InterruptEvent \<Rightarrow> intr_state \<Rightarrow> intr_state"

definition exec :: "('s, 'a) state \<Rightarrow> 's \<Rightarrow> 's" where
  "exec m s = snd (run_state m s)"

subsection \<open>The console of the handlers\<close>

text \<open>
  \<open>GetBootstrapConsole\<close> makes a new output device on the heap at every call and returns it in a reference
  pointer; leaving the scope releases that reference.
\<close>

definition NewBootstrapConsole :: "intr_env \<Rightarrow> intr_state \<Rightarrow> kernel_error + u64 \<times> intr_state" where
  "NewBootstrapConsole env s =
     (case operator_new (env_sizeof_RedundantOutput env) (heap (sched s)) of
        Inl e \<Rightarrow> Inl e
      | Inr (p, h) \<Rightarrow> Inr (p, s\<lparr>sched := (sched s)\<lparr>heap := h, objs := snd (AddRef p (new_object p (objs (sched s))))\<rparr>\<rparr>))"

definition ReleaseConsole :: "u64 \<Rightarrow> intr_state \<Rightarrow> intr_state" where
  "ReleaseConsole p s = s\<lparr>sched := (sched s)\<lparr>objs := Release p (objs (sched s))\<rparr>\<rparr>"

definition con_calls :: "con_call list \<Rightarrow> intr_state \<Rightarrow> intr_state" where
  "con_calls cs s = s\<lparr>console := console s @ cs\<rparr>"

abbreviation line_of :: "string \<Rightarrow> con_call" where
  "line_of str \<equiv> ConPutString (CHR 0x0A # str)"

abbreviation hex_of :: "u64 \<Rightarrow> con_call" where
  "hex_of v \<equiv> ConPutString (ULongToHexString v)"

subsection \<open>The handlers\<close>

definition OnTimer :: "intr_env \<Rightarrow> intr_state \<Rightarrow> outcome" where
  "OnTimer env s =
     (let c = cpu (sched s);
          s1 = s\<lparr>sched := (sched s)\<lparr>cpu := c\<lparr>TickCount := TickCount c + 1\<rparr>\<rparr>\<rparr>;
          s2 = s1\<lparr>sched := OnTimerTick (sched s1)\<rparr>
      in Returned (exec (EndOfInterrupt (env_hw env)) s2))"

definition OnIRQ0 :: "intr_env \<Rightarrow> intr_state \<Rightarrow> outcome" where
  "OnIRQ0 env s =
     (let s1 = s\<lparr>irq0_ctr := irq0_ctr s + 1\<rparr>
      in if irq0_ctr s1 AND 1023 = 0
         then case NewBootstrapConsole env s1 of
                Inl e \<Rightarrow> Failed e
              | Inr (p, s2) \<Rightarrow>
                  let s3 = (if p \<noteq> 0 then con_calls [ConPutString (''[IOAPIC-IRQ0]'' @ [CHR 0x0A])] s2 else s2)
                  in Returned (exec (EndOfInterrupt (env_hw env)) (ReleaseConsole p s3))
         else Returned (exec (EndOfInterrupt (env_hw env)) s1))"

definition DumpException :: "intr_env \<Rightarrow> InterruptFrame \<Rightarrow> string \<Rightarrow> bool \<Rightarrow> u64 \<Rightarrow> intr_state \<Rightarrow> kernel_error + intr_state" where
  "DumpException env f name hasError errorCode s =
     (case NewBootstrapConsole env s of
        Inl e \<Rightarrow> Inl e
      | Inr (con, s1) \<Rightarrow>
          if con = 0 then Inl NullDereference
          else
            let s2 = con_calls
                  [ConReset, ConPutString (''===== x86-64 Processor Exception ====='' @ [CHR 0x0A]),
                   ConPutString name,
                   line_of ''RIP   :'', hex_of (RIP f), line_of ''RSP   :'', hex_of (frame_RSP f),
                   line_of ''CS    :'', hex_of (CS f), line_of ''SS    :'', hex_of (SS f),
                   line_of ''RFLAGS:'', hex_of (RFLAGS f)] s1;
                s3 = (if hasError then con_calls [ConPutString ''ERR   :'', hex_of errorCode] s2 else s2);
                cr2 = env_cr3 env;
                s4 = (if cr2 \<noteq> 0 then con_calls [ConPutString ''CR2   :'', hex_of cr2] s3 else s3)
            in Inr (ReleaseConsole con s4))"

definition exception_handler :: "intr_env \<Rightarrow> string \<Rightarrow> InterruptFrame \<Rightarrow> bool \<Rightarrow> u64 \<Rightarrow> intr_state \<Rightarrow> outcome" where
  "exception_handler env name frame hasError errorCode s =
     (case DumpException env frame name hasError errorCode s of Inl e \<Rightarrow> Failed e | Inr s1 \<Rightarrow> Halted s1)"

definition HandlerUD :: "intr_env \<Rightarrow> InterruptFrame \<Rightarrow> bool \<Rightarrow> u64 \<Rightarrow> intr_state \<Rightarrow> outcome" where
  "HandlerUD env = exception_handler env ''#UD''"

definition HandlerGP :: "intr_env \<Rightarrow> InterruptFrame \<Rightarrow> bool \<Rightarrow> u64 \<Rightarrow> intr_state \<Rightarrow> outcome" where
  "HandlerGP env = exception_handler env ''#GP''"

definition HandlerPF :: "intr_env \<Rightarrow> InterruptFrame \<Rightarrow> bool \<Rightarrow> u64 \<Rightarrow> intr_state \<Rightarrow> outcome" where
  "HandlerPF env = exception_handler env ''#PF''"

definition HandlerDF :: "intr_env \<Rightarrow> InterruptFrame \<Rightarrow> bool \<Rightarrow> u64 \<Rightarrow> intr_state \<Rightarrow> outcome" where
  "HandlerDF env = exception_handler env ''#DF''"

text \<open>The call through a handler pointer.\<close>

fun call_handler :: "intr_env \<Rightarrow> handler_fn \<Rightarrow> InterruptFrame \<Rightarrow> bool \<Rightarrow> u64 \<Rightarrow> intr_state \<Rightarrow> outcome" where
  "call_handler env Fn_OnTimer f hasError err s = OnTimer env s"
| "call_handler env Fn_OnIRQ0 f hasError err s = OnIRQ0 env s"
| "call_handler env Fn_HandlerUD f hasError err s = HandlerUD env f hasError err s"
| "call_handler env Fn_HandlerGP f hasError err s = HandlerGP env f hasError err s"
| "call_handler env Fn_HandlerPF f hasError err s = HandlerPF env f hasError err s"
| "call_handler env Fn_HandlerDF f hasError err s = HandlerDF env f hasError err s"

subsection \<open>The dispatcher\<close>

definition NeedsEOI :: "u8 \<Rightarrow> bool" where
  "NeedsEOI vec =
     (if vec = VEC_SPURIOUS then False
      else if vec = VEC_TIMER \<or> vec = VEC_ERROR then True
      else vec \<ge> IRQ_BASE \<and> vec \<le> 0xFE)"

definition DefaultEOI :: "hardware \<Rightarrow> ('r, unit) hw" where
  "DefaultEOI hw = do {
     msr \<leftarrow> MSR_Read hw 0x1B;
     let b = msr AND 0xFFFFF000;
     mmio_write (b + 0xB0) 0
   }"

definition EmitEOI :: "hardware \<Rightarrow> u8 \<Rightarrow> intr_state \<Rightarrow> intr_state" where
  "EmitEOI hw vec s =
     (case gEOI s of Some Fn_EndOfInterrupt \<Rightarrow> exec (EndOfInterrupt hw) s | None \<Rightarrow> exec (DefaultEOI hw) s)"

definition InitInterruptDispatch :: "intr_state \<Rightarrow> intr_state" where
  "InitInterruptDispatch s = s\<lparr>gHandlers := \<lambda>_. None, gVectorCounts := \<lambda>_. 0, gLogger := None, gEOI := None\<rparr>"

definition SetEOIEmitter :: "eoi_fn option \<Rightarrow> intr_state \<Rightarrow> intr_state" where
  "SetEOIEmitter fn s = s\<lparr>gEOI := fn\<rparr>"

definition SetInterruptEventLogger :: "logger_fn option \<Rightarrow> intr_state \<Rightarrow> intr_state" where
  "SetInterruptEventLogger fn s = s\<lparr>gLogger := fn\<rparr>"

definition RegisterInterruptHandler :: "u8 \<Rightarrow> handler_fn option \<Rightarrow> intr_state \<Rightarrow> bool \<times> intr_state" where
  "RegisterInterruptHandler vector fn s =
     (if fn = None then (False, s) else (True, s\<lparr>gHandlers := (gHandlers s)(vector := fn)\<rparr>))"

definition UnregisterInterruptHandler :: "u8 \<Rightarrow> handler_fn option \<Rightarrow> intr_state \<Rightarrow> bool \<times> intr_state" where
  "UnregisterInterruptHandler vector fn s =
     (if gHandlers s vector \<noteq> fn then (False, s) else (True, s\<lparr>gHandlers := (gHandlers s)(vector := None)\<rparr>))"

definition GetVectorCount :: "u8 \<Rightarrow> intr_state \<Rightarrow> u64" where
  "GetVectorCount vector s = gVectorCounts s vector"

definition ResetVectorCounts :: "intr_state \<Rightarrow> intr_state" where
  "ResetVectorCounts s = s\<lparr>gVectorCounts := \<lambda>_. 0\<rparr>"

text \<open>The acknowledgement at the end of \<open>Dispatch\<close>.\<close>

definition dispatch_eoi :: "hardware \<Rightarrow> u8 \<Rightarrow> intr_state \<Rightarrow> intr_state" where
  "dispatch_eoi hw vec s =
     (if NeedsEOI vec
      then
        let s1 = (if vec = VEC_PIT_IRQ then exec EOIMaster s
                  else if IsSlaveVector vec then exec EOISlave s
                  else if IsMasterVector vec then exec EOIMaster s
                  else s)
        in EmitEOI hw vec s1
      else s)"

definition Dispatch :: "intr_env \<Rightarrow> u8 \<Rightarrow> InterruptFrame \<Rightarrow> bool \<Rightarrow> u64 \<Rightarrow> intr_state \<Rightarrow> outcome" where
  "Dispatch env vec frame hasError error s =
     (let count = gVectorCounts s vec + 1;
          s1 = s\<lparr>gVectorCounts := (gVectorCounts s)(vec := count)\<rparr>;
          s2 = (case gLogger s1 of
                  Some l \<Rightarrow>
                    if count = 1
                    then env_logger env l \<lparr>Vector = vec, HasErrorCode = hasError, ErrorCode = error, Frame = frame, Count = count\<rparr> s1
                    else s1
                | None \<Rightarrow> s1)
      in case gHandlers s2 vec of
           None \<Rightarrow> Returned (dispatch_eoi (env_hw env) vec s2)
         | Some fn \<Rightarrow>
             case call_handler env fn frame hasError error s2 of
               Returned s3 \<Rightarrow> Returned (dispatch_eoi (env_hw env) vec s3)
             | r \<Rightarrow> r)"

definition DispatchNoError :: "intr_env \<Rightarrow> u8 \<Rightarrow> InterruptFrame \<Rightarrow> intr_state \<Rightarrow> outcome" where
  "DispatchNoError env vector frame s = Dispatch env vector frame False 0 s"

definition DispatchError :: "intr_env \<Rightarrow> u8 \<Rightarrow> InterruptFrame \<Rightarrow> u64 \<Rightarrow> intr_state \<Rightarrow> outcome" where
  "DispatchError env vector frame errorCode s = Dispatch env vector frame True errorCode s"

text \<open>
  The 256 entry points, as the macros \<open>DEF_NOERR\<close> and \<open>DEF_ERR\<close> define them and as the header declares them. An entry
  point made with \<open>DEF_ERR\<close> takes the error code that the processor pushes.
\<close>

datatype entry_point = DEF_NOERR u8 | DEF_ERR u8

definition exception_entries :: "entry_point list" where
  "exception_entries =
    [DEF_NOERR 0, DEF_NOERR 1, DEF_NOERR 2, DEF_NOERR 3, DEF_NOERR 4, DEF_NOERR 5, DEF_NOERR 6, DEF_NOERR 7,
     DEF_ERR 8, DEF_NOERR 9, DEF_ERR 10, DEF_ERR 11, DEF_ERR 12, DEF_ERR 13, DEF_ERR 14, DEF_NOERR 15, DEF_NOERR
     16, DEF_ERR 17, DEF_NOERR 18, DEF_NOERR 19, DEF_NOERR 20, DEF_NOERR 21, DEF_NOERR 22, DEF_NOERR 23, DEF_NOERR
     24, DEF_NOERR 25, DEF_NOERR 26, DEF_NOERR 27, DEF_NOERR 28, DEF_NOERR 29, DEF_ERR 30, DEF_NOERR 31]"

definition irq_entries_low :: "entry_point list" where
  "irq_entries_low = map (\<lambda>n. DEF_NOERR (of_nat n)) [32..<144]"

definition irq_entries_high :: "entry_point list" where
  "irq_entries_high = map (\<lambda>n. DEF_NOERR (of_nat n)) [144..<256]"

definition entry_points :: "entry_point list" where
  "entry_points = exception_entries @ irq_entries_low @ irq_entries_high"

definition declared_noerr :: "entry_point list" where
  "declared_noerr =
    [DEF_NOERR 0, DEF_NOERR 1, DEF_NOERR 2, DEF_NOERR 3, DEF_NOERR 4, DEF_NOERR 5, DEF_NOERR 6, DEF_NOERR 7,
     DEF_NOERR 9, DEF_NOERR 15, DEF_NOERR 16, DEF_NOERR 18, DEF_NOERR 19, DEF_NOERR 20, DEF_NOERR 21, DEF_NOERR 22,
     DEF_NOERR 23, DEF_NOERR 24, DEF_NOERR 25, DEF_NOERR 26, DEF_NOERR 27, DEF_NOERR 28, DEF_NOERR 29, DEF_NOERR 31]"

definition declared_err :: "entry_point list" where
  "declared_err =
    [DEF_ERR 8, DEF_ERR 10, DEF_ERR 11, DEF_ERR 12, DEF_ERR 13, DEF_ERR 14, DEF_ERR 17, DEF_ERR 30]"

definition DECL_HANDLER_low :: "entry_point list" where
  "DECL_HANDLER_low = map (\<lambda>n. DEF_NOERR (of_nat n)) [32..<144]"

definition DECL_HANDLER_high :: "entry_point list" where
  "DECL_HANDLER_high = map (\<lambda>n. DEF_NOERR (of_nat n)) [144..<256]"

fun entry_vector :: "entry_point \<Rightarrow> u8" where
  "entry_vector (DEF_NOERR n) = n"
| "entry_vector (DEF_ERR n) = n"

definition DEF_ERR_vectors :: "u8 list" where
  "DEF_ERR_vectors = List.map_filter (\<lambda>e. case e of DEF_ERR n \<Rightarrow> Some n | DEF_NOERR n \<Rightarrow> None) entry_points"

lemma DEF_ERR_vectors_eq: "DEF_ERR_vectors = [8, 10, 11, 12, 13, 14, 17, 30]"
proof -
  have none: "List.map_filter (\<lambda>e. case e of DEF_ERR n \<Rightarrow> Some n | DEF_NOERR n \<Rightarrow> None) (map (\<lambda>n. DEF_NOERR (of_nat n)) xs) = []"
    for xs by (induction xs) (simp_all add: List.map_filter_simps)
  have "DEF_ERR_vectors = List.map_filter (\<lambda>e. case e of DEF_ERR n \<Rightarrow> Some n | DEF_NOERR n \<Rightarrow> None) exception_entries @
      List.map_filter (\<lambda>e. case e of DEF_ERR n \<Rightarrow> Some n | DEF_NOERR n \<Rightarrow> None) irq_entries_low @
      List.map_filter (\<lambda>e. case e of DEF_ERR n \<Rightarrow> Some n | DEF_NOERR n \<Rightarrow> None) irq_entries_high"
    by (simp add: DEF_ERR_vectors_def entry_points_def List.map_filter_def)
  then show ?thesis by (simp add: irq_entries_low_def irq_entries_high_def none exception_entries_def List.map_filter_simps)
qed

text \<open>Every vector has exactly one entry point, and the header declares exactly those that are defined.\<close>

lemma entry_points_complete: "map entry_vector entry_points = map of_nat [0..<256]"
proof -
  have "[0..<256] = [0..<32] @ [32..<144] @ [144..<256 :: nat]" by (simp add: upt_add_eq_append [of 0 32 112, simplified, symmetric] upt_add_eq_append [of 0 144 112, simplified])
  moreover have "map entry_vector exception_entries = map of_nat [0..<32]" by (simp add: exception_entries_def upt_rec)
  ultimately show ?thesis by (simp add: entry_points_def irq_entries_low_def irq_entries_high_def comp_def)
qed

lemma declarations_match:
  "set (declared_noerr @ declared_err @ DECL_HANDLER_low @ DECL_HANDLER_high) = set entry_points"
proof -
  have "set declared_noerr \<union> set declared_err = set exception_entries"
  proof (rule equalityI)
    show "set declared_noerr \<union> set declared_err \<subseteq> set exception_entries"
      by (simp add: declared_noerr_def declared_err_def exception_entries_def)
    show "set exception_entries \<subseteq> set declared_noerr \<union> set declared_err"
      by (simp add: declared_noerr_def declared_err_def exception_entries_def)
  qed
  then show ?thesis
    by (simp add: entry_points_def DECL_HANDLER_low_def DECL_HANDLER_high_def irq_entries_low_def irq_entries_high_def Un_assoc [symmetric] del: set_upt)
qed

definition Handler :: "intr_env \<Rightarrow> u8 \<Rightarrow> InterruptFrame \<Rightarrow> u64 \<Rightarrow> intr_state \<Rightarrow> outcome" where
  "Handler env n frame ec s =
     (if n \<in> set DEF_ERR_vectors then DispatchError env n frame ec s else DispatchNoError env n frame s)"

subsection \<open>Initialisation of the handlers and the controller object\<close>

definition InitTimerHandler :: "u8 \<Rightarrow> intr_state \<Rightarrow> intr_state" where
  "InitTimerHandler vec s = snd (RegisterInterruptHandler vec (Some Fn_OnTimer) s)"

definition InitIRQ0Handler :: "u8 \<Rightarrow> intr_state \<Rightarrow> intr_state" where
  "InitIRQ0Handler vec s = snd (RegisterInterruptHandler vec (Some Fn_OnIRQ0) s)"

definition InitCoreExceptionHandlers :: "intr_state \<Rightarrow> intr_state" where
  "InitCoreExceptionHandlers s =
     (let s1 = snd (RegisterInterruptHandler 6 (Some Fn_HandlerUD) s);
          s2 = snd (RegisterInterruptHandler 8 (Some Fn_HandlerDF) s1);
          s3 = snd (RegisterInterruptHandler 13 (Some Fn_HandlerGP) s2)
      in snd (RegisterInterruptHandler 14 (Some Fn_HandlerPF) s3))"

definition APICController :: "hardware \<Rightarrow> intr_state \<Rightarrow> intr_state" where
  "APICController hw s =
     (let s1 = (if \<not> apic_isInitialized s then (exec (InitAPIC hw) s)\<lparr>apic_isInitialized := True\<rparr> else s)
      in SetEOIEmitter (Some Fn_EndOfInterrupt) s1)"

definition APICController_Enable :: "hardware \<Rightarrow> u8 \<Rightarrow> intr_state \<Rightarrow> intr_state" where
  "APICController_Enable hw vector s = (if vector = VEC_TIMER then exec (MaskTimer hw False) s else s)"

definition APICController_Disable :: "hardware \<Rightarrow> u8 \<Rightarrow> intr_state \<Rightarrow> intr_state" where
  "APICController_Disable hw vector s = (if vector = VEC_TIMER then exec (MaskTimer hw True) s else s)"

definition APICController_EOI :: "hardware \<Rightarrow> u8 \<Rightarrow> intr_state \<Rightarrow> intr_state" where
  "APICController_EOI hw vector s = exec (EndOfInterrupt hw) s"

subsection \<open>Effects\<close>

lemma exec_EndOfInterrupt:
  "exec (EndOfInterrupt hw) s =
     (if gLAPICMMIO s \<noteq> 0
      then s\<lparr>trace := trace s @ [EvMmioWrite (gLAPICMMIO s + 0xB0) 0, EvMmioRead (gLAPICMMIO s + 0x20)
               (hw_mmio hw (trace s @ [EvMmioWrite (gLAPICMMIO s + 0xB0) 0]) (gLAPICMMIO s + 0x20))]\<rparr>
      else s)"
  by (simp add: exec_def EndOfInterrupt_def hw_run LAPICMMIOWrite_def LAPICMMIORead_def lapic_regs)

lemma exec_DefaultEOI:
  "exec (DefaultEOI hw) s = s\<lparr>trace := trace s @ [EvRdMsr 0x1B (hw_rdmsr hw (trace s) 0x1B),
     EvMmioWrite ((hw_rdmsr hw (trace s) 0x1B AND 0xFFFFF000) + 0xB0) 0]\<rparr>"
  by (simp add: exec_def DefaultEOI_def hw_run Let_def)

lemma exec_PIC:
  "exec EOIMaster s = s\<lparr>trace := trace s @ [EvOut8 0x20 0x20]\<rparr>"
  "exec EOISlave s = s\<lparr>trace := trace s @ [EvOut8 0xA0 0x20, EvOut8 0x20 0x20]\<rparr>"
  by (simp_all add: exec_def EOIMaster_def EOISlave_def hw_run)

text \<open>
  The emitter reaches the local APIC at \<open>b\<close>: the driver's base is \<open>b\<close>, and when no emitter is set, the
  base address register agrees with it.
\<close>

definition eoi_reaches :: "hardware \<Rightarrow> u64 \<Rightarrow> intr_state \<Rightarrow> bool" where
  "eoi_reaches hw b s \<longleftrightarrow> b \<noteq> 0 \<and> gLAPICMMIO s = b \<and> (gEOI s = None \<longrightarrow> (\<forall>tr. hw_rdmsr hw tr 0x1B AND 0xFFFFF000 = b))"

definition pic_acks :: "u8 \<Rightarrow> io_event list" where
  "pic_acks vec =
     (if vec = 0x62 \<or> 0x20 \<le> vec \<and> vec \<le> 0x27 then [EvOut8 0x20 0x20]
      else if 0x28 \<le> vec \<and> vec \<le> 0x2F then [EvOut8 0xA0 0x20, EvOut8 0x20 0x20] else [])"

definition port_writes :: "io_event list \<Rightarrow> io_event list" where
  "port_writes tr = filter (\<lambda>e. case e of EvOut8 _ _ \<Rightarrow> True | _ \<Rightarrow> False) tr"

lemma NeedsEOI_iff: "NeedsEOI vec \<longleftrightarrow> 0x20 \<le> vec \<and> vec \<noteq> 0xFF"
proof -
  have "unat vec < 256" by (rule order_less_le_trans [OF unsigned_less]) simp
  then have "unat vec \<le> 254 \<longleftrightarrow> unat vec \<noteq> 255" by arith
  then have "vec \<le> 0xFE \<longleftrightarrow> vec \<noteq> 0xFF" by (simp add: word_le_nat_alt word_unat_eq_iff)
  then show ?thesis
    by (auto simp: NeedsEOI_def VEC_SPURIOUS_def VEC_TIMER_def VEC_ERROR_def IRQ_BASE_def)
qed

lemma EmitEOI_effect:
  assumes "eoi_reaches hw b s"
  obtains tr where "EmitEOI hw vec s = s\<lparr>trace := trace s @ tr\<rparr>" "mmio_writes tr = [(b + 0xB0, 0)]" "port_writes tr = []"
proof (cases "gEOI s")
  case None
  then show ?thesis using assms that by (simp add: EmitEOI_def eoi_reaches_def exec_DefaultEOI port_writes_def)
next
  case (Some g)
  then show ?thesis
    using assms that by (cases g) (simp add: EmitEOI_def eoi_reaches_def exec_EndOfInterrupt port_writes_def)
qed

lemma pic_ack_step:
  "(if vec = VEC_PIT_IRQ then exec EOIMaster s else if IsSlaveVector vec then exec EOISlave s
    else if IsMasterVector vec then exec EOIMaster s else s) = s\<lparr>trace := trace s @ pic_acks vec\<rparr>"
  by (auto simp: exec_PIC pic_acks_def VEC_PIT_IRQ_def IsSlaveVector_def IsMasterVector_def word_le_nat_alt)

lemma pic_acks_simps [simp]: "mmio_writes (pic_acks vec) = []" "port_writes (pic_acks vec) = pic_acks vec"
  by (simp_all add: pic_acks_def port_writes_def)

lemma port_writes_append [simp]: "port_writes (tr @ tr') = port_writes tr @ port_writes tr'"
  by (simp add: port_writes_def)

lemma dispatch_eoi_effect:
  assumes "eoi_reaches hw b s"
  obtains tr where "dispatch_eoi hw vec s = s\<lparr>trace := trace s @ tr\<rparr>"
    "mmio_writes tr = (if NeedsEOI vec then [(b + 0xB0, 0)] else [])"
    "port_writes tr = (if NeedsEOI vec then pic_acks vec else [])"
proof (cases "NeedsEOI vec")
  case False
  then show ?thesis using that [of "[]"] by (simp add: dispatch_eoi_def port_writes_def)
next
  case True
  let ?s1 = "s\<lparr>trace := trace s @ pic_acks vec\<rparr>"
  have "eoi_reaches hw b ?s1" using assms by (simp add: eoi_reaches_def)
  then obtain tr where tr: "EmitEOI hw vec ?s1 = ?s1\<lparr>trace := trace ?s1 @ tr\<rparr>"
      "mmio_writes tr = [(b + 0xB0, 0)]" "port_writes tr = []" by (rule EmitEOI_effect)
  show ?thesis
    using that [of "pic_acks vec @ tr"] tr True by (simp add: dispatch_eoi_def pic_ack_step)
qed

lemma dispatch_eoi_fields [simp]:
  "gVectorCounts (dispatch_eoi hw vec s) = gVectorCounts s" "gLogger (dispatch_eoi hw vec s) = gLogger s"
  "gHandlers (dispatch_eoi hw vec s) = gHandlers s" "sched (dispatch_eoi hw vec s) = sched s"
  by (simp_all add: dispatch_eoi_def pic_ack_step EmitEOI_def Let_def exec_EndOfInterrupt exec_DefaultEOI
      split: option.splits eoi_fn.splits)

lemma OnTimer_fields:
  "OnTimer env s = Returned s' \<Longrightarrow> gVectorCounts s' = gVectorCounts s \<and> gLogger s' = gLogger s \<and> gHandlers s' = gHandlers s"
  by (auto simp: OnTimer_def Let_def exec_EndOfInterrupt split: if_splits)

lemma OnIRQ0_fields:
  "OnIRQ0 env s = Returned s' \<Longrightarrow> gVectorCounts s' = gVectorCounts s \<and> gLogger s' = gLogger s \<and> gHandlers s' = gHandlers s"
  by (auto simp: OnIRQ0_def Let_def exec_EndOfInterrupt NewBootstrapConsole_def ReleaseConsole_def con_calls_def
      split: if_splits sum.splits prod.splits)

lemmas exception_handlers = HandlerUD_def HandlerGP_def HandlerPF_def HandlerDF_def

lemma exception_handler_never_returns: "exception_handler env name f he ec s \<noteq> Returned s'"
  by (simp add: exception_handler_def split: sum.splits)

lemma call_handler_fields:
  assumes "call_handler env fn f he ec s = Returned s'"
  shows "gVectorCounts s' = gVectorCounts s \<and> gLogger s' = gLogger s \<and> gHandlers s' = gHandlers s"
  using assms OnTimer_fields OnIRQ0_fields
  by (cases fn) (simp_all add: exception_handlers exception_handler_never_returns)

lemma Dispatch_no_logger:
  assumes "gLogger s = None" and "s1 = s\<lparr>gVectorCounts := (gVectorCounts s)(vec := gVectorCounts s vec + 1)\<rparr>"
  shows "Dispatch env vec f he ec s =
    (case gHandlers s vec of None \<Rightarrow> Returned (dispatch_eoi (env_hw env) vec s1)
     | Some fn \<Rightarrow> (case call_handler env fn f he ec s1 of Returned s3 \<Rightarrow> Returned (dispatch_eoi (env_hw env) vec s3) | r \<Rightarrow> r))"
  unfolding assms(2) Dispatch_def using assms(1) by (cases "gHandlers s vec") (simp_all add: Let_def)

lemma Dispatch_counts:
  assumes "gLogger s = None" and "Dispatch env vec f he ec s = Returned s'"
  shows "gVectorCounts s' = (gVectorCounts s)(vec := gVectorCounts s vec + 1) \<and> gLogger s' = None"
  using assms(2) call_handler_fields assms(1)
  by (fastforce simp: Dispatch_no_logger [OF assms(1) refl] split: option.splits outcome.splits)

lemma Handler_counts:
  assumes "gLogger s = None" and "Handler env vec f ec s = Returned s'"
  shows "gVectorCounts s' = (gVectorCounts s)(vec := gVectorCounts s vec + 1) \<and> gLogger s' = None"
  using assms Dispatch_counts by (auto simp: Handler_def DispatchError_def DispatchNoError_def split: if_splits)

subsection \<open>The handler table as an interface\<close>

locale handler_table =
  fixes lookup :: "'s \<Rightarrow> u8 \<Rightarrow> 'h option"
    and reg :: "u8 \<Rightarrow> 'h option \<Rightarrow> 's \<Rightarrow> bool \<times> 's"
    and unreg :: "u8 \<Rightarrow> 'h option \<Rightarrow> 's \<Rightarrow> bool \<times> 's"
  assumes reg_some: "reg v (Some h) s = (b, s') \<Longrightarrow> b \<and> lookup s' = (lookup s)(v := Some h)"
    and reg_none: "reg v None s = (False, s)"
    and unreg_same: "lookup s v = g \<Longrightarrow> unreg v g s = (b, s') \<Longrightarrow> b \<and> lookup s' = (lookup s)(v := None)"
    and unreg_other: "lookup s v \<noteq> g \<Longrightarrow> unreg v g s = (False, s)"
begin

primrec register_all :: "(u8 \<times> 'h) list \<Rightarrow> 's \<Rightarrow> 's" where
  "register_all [] s = s"
| "register_all (p # ps) s = register_all ps (snd (reg (fst p) (Some (snd p)) s))"

lemma register_all_lookup: "lookup (register_all ps s) = lookup s ++ map_of (rev ps)"
proof (induction ps arbitrary: s)
  case (Cons p ps)
  obtain b s' where r: "reg (fst p) (Some (snd p)) s = (b, s')" by (cases "reg (fst p) (Some (snd p)) s")
  then have "lookup s' = (lookup s)(fst p \<mapsto> snd p)" using reg_some by blast
  with r show ?case by (simp add: Cons.IH map_add_def fun_eq_iff split: option.splits)
qed simp

lemma register_unregister:
  assumes "reg v (Some h) s = (b, s1)" and "unreg v (Some h) s1 = (b', s2)"
  shows "b' \<and> lookup s2 = (lookup s)(v := None)"
proof -
  have l: "lookup s1 = (lookup s)(v := Some h)" using reg_some [OF assms(1)] by blast
  then show ?thesis using unreg_same [OF _ assms(2)] by simp
qed

end

interpretation ht: handler_table gHandlers RegisterInterruptHandler UnregisterInterruptHandler
  by unfold_locales (auto simp: RegisterInterruptHandler_def UnregisterInterruptHandler_def)

lemma InitCoreExceptionHandlers_table:
  "gHandlers (InitCoreExceptionHandlers s) =
     gHandlers s ++ [14 \<mapsto> Fn_HandlerPF, 13 \<mapsto> Fn_HandlerGP, 8 \<mapsto> Fn_HandlerDF, 6 \<mapsto> Fn_HandlerUD]"
proof -
  have e: "InitCoreExceptionHandlers s =
      ht.register_all [(6, Fn_HandlerUD), (8, Fn_HandlerDF), (13, Fn_HandlerGP), (14, Fn_HandlerPF)] s"
    by (simp add: InitCoreExceptionHandlers_def Let_def)
  show ?thesis unfolding e ht.register_all_lookup by (simp add: fun_eq_iff map_add_def)
qed

subsection \<open>Sequences of interrupts\<close>

record interrupt =
  int_vector :: u8
  int_frame :: InterruptFrame
  int_error :: u64

fun run_interrupts :: "intr_env \<Rightarrow> interrupt list \<Rightarrow> intr_state \<Rightarrow> outcome" where
  "run_interrupts env [] s = Returned s"
| "run_interrupts env (i # is) s =
     (case Handler env (int_vector i) (int_frame i) (int_error i) s of
        Returned s1 \<Rightarrow> run_interrupts env is s1
      | r \<Rightarrow> r)"

text \<open>The dispatcher as boot leaves it, on the machine of the APIC driver's examples.\<close>

definition sample_env :: intr_env where
  "sample_env = \<lparr>env_hw = sample_hw, env_cr3 = 0x3000, env_sizeof_RedundantOutput = 32, env_logger = \<lambda>_ _ s. s\<rparr>"

definition sample_boot :: intr_state where
  "sample_boot = InitTimerHandler VEC_TIMER (InitInterruptDispatch
     \<lparr>trace = [], gLAPICMMIO = 0xFEE00000, gLAPICReady = True, gHandlers = \<lambda>_. None, gVectorCounts = \<lambda>_. 0,
      gEOI = Some Fn_EndOfInterrupt, gLogger = None, sched = example_sched [0x9000], irq0_ctr = 0, console = [],
      apic_isInitialized = True\<rparr>)"

definition sample_intr :: intr_state where
  "sample_intr = InitCoreExceptionHandlers sample_boot"

definition sample_frame :: InterruptFrame where
  "sample_frame = \<lparr>RIP = 0x100000, CS = 8, RFLAGS = 0x202, frame_RSP = 0x9000, SS = 0x10\<rparr>"

lemma sample_intr_facts:
  "eoi_reaches (env_hw sample_env) 0xFEE00000 sample_intr" "gLogger sample_intr = None"
  "gHandlers sample_intr 0x21 = None" "gHandlers sample_intr VEC_TIMER = Some Fn_OnTimer"
  by (simp_all add: sample_intr_def sample_boot_def sample_env_def sample_hw_def eoi_reaches_def InitCoreExceptionHandlers_def Let_def
      RegisterInterruptHandler_def InitInterruptDispatch_def InitTimerHandler_def VEC_TIMER_def)

subsection \<open>Properties\<close>

text \<open>
  C18. Acknowledging: a vector without a handler is counted, and \<open>Dispatch\<close> writes the EOI register of the
  local APIC exactly once for the vectors 0x20 to 0xFE and never for the exceptions and the spurious
  vector. The legacy controllers are acknowledged for their own vectors only, the master after the slave.
  Nothing of the state but the counter and the access trace changes. It holds whether or not an emitter
  is set, so it covers the boot order, in which \<open>InitInterruptDispatch\<close> clears the emitter that the
  constructor of \<open>APICController\<close> has set.
\<close>

theorem Dispatch_acknowledges:
  assumes "eoi_reaches (env_hw env) b s" and "gLogger s = None" and "gHandlers s vec = None"
  shows "\<exists>tr. Dispatch env vec f he ec s =
      Returned (s\<lparr>gVectorCounts := (gVectorCounts s)(vec := gVectorCounts s vec + 1), trace := trace s @ tr\<rparr>) \<and>
    mmio_writes tr = (if 0x20 \<le> vec \<and> vec \<noteq> 0xFF then [(b + 0xB0, 0)] else []) \<and>
    port_writes tr = (if 0x20 \<le> vec \<and> vec \<noteq> 0xFF then pic_acks vec else [])"
proof -
  let ?s1 = "s\<lparr>gVectorCounts := (gVectorCounts s)(vec := gVectorCounts s vec + 1)\<rparr>"
  have "eoi_reaches (env_hw env) b ?s1" using assms(1) by (simp add: eoi_reaches_def)
  then obtain tr where "dispatch_eoi (env_hw env) vec ?s1 = ?s1\<lparr>trace := trace ?s1 @ tr\<rparr>"
      "mmio_writes tr = (if NeedsEOI vec then [(b + 0xB0, 0)] else [])"
      "port_writes tr = (if NeedsEOI vec then pic_acks vec else [])" by (rule dispatch_eoi_effect)
  then show ?thesis
    using assms(2,3) by (intro exI [of _ tr]) (simp add: Dispatch_no_logger [OF _ refl] NeedsEOI_iff)
qed

theorem Dispatch_acknowledges_witness:
  "\<exists>tr s'. Dispatch sample_env 0x21 sample_frame False 0 sample_intr = Returned s' \<and>
     mmio_writes tr = [(0xFEE000B0, 0)] \<and> port_writes tr = [EvOut8 0x20 0x20] \<and> trace s' = trace sample_intr @ tr"
  using Dispatch_acknowledges [OF sample_intr_facts(1-3), of sample_frame False 0] by (fastforce simp: pic_acks_def)

text \<open>
  C28. The timer interrupt: with \<open>OnTimer\<close> registered for the timer vector the interrupt always returns, the
  tick counter has advanced by one (modulo \<open>2 ^ 64\<close>) and a reschedule is requested; no other part of the
  scheduler state changes. The EOI register is written twice for the one interrupt, by the handler and
  again by the dispatcher.
\<close>

theorem timer_interrupt:
  assumes "eoi_reaches (env_hw env) b s" and "gLogger s = None" and "gHandlers s VEC_TIMER = Some Fn_OnTimer"
  shows "\<exists>s' tr. Handler env VEC_TIMER f ec s = Returned s' \<and>
    sched s' = (sched s)\<lparr>cpu := (cpu (sched s))\<lparr>TickCount := TickCount (cpu (sched s)) + 1\<rparr>, gNeedReschedule := True\<rparr> \<and>
    trace s' = trace s @ tr \<and> mmio_writes tr = [(b + 0xB0, 0), (b + 0xB0, 0)]"
proof -
  define s1 where "s1 = s\<lparr>gVectorCounts := (gVectorCounts s)(VEC_TIMER := gVectorCounts s VEC_TIMER + 1)\<rparr>"
  have b: "gLAPICMMIO s1 = b" "b \<noteq> 0" using assms(1) by (simp_all add: s1_def eoi_reaches_def)
  define sc where "sc = (sched s)\<lparr>cpu := (cpu (sched s))\<lparr>TickCount := TickCount (cpu (sched s)) + 1\<rparr>, gNeedReschedule := True\<rparr>"
  obtain v where t: "OnTimer env s1 =
      Returned (s1\<lparr>sched := sc, trace := trace s @ [EvMmioWrite (b + 0xB0) 0, EvMmioRead (b + 0x20) v]\<rparr>)"
    using b by (simp add: OnTimer_def Let_def exec_EndOfInterrupt OnTimerTick_def s1_def sc_def)
  define s2 where "s2 = s1\<lparr>sched := sc, trace := trace s @ [EvMmioWrite (b + 0xB0) 0, EvMmioRead (b + 0x20) v]\<rparr>"
  have "eoi_reaches (env_hw env) b s2" using assms(1) by (simp add: eoi_reaches_def s1_def s2_def)
  then obtain tr where tr: "dispatch_eoi (env_hw env) VEC_TIMER s2 = s2\<lparr>trace := trace s2 @ tr\<rparr>"
      "mmio_writes tr = (if NeedsEOI VEC_TIMER then [(b + 0xB0, 0)] else [])" by (rule dispatch_eoi_effect)
  have "Handler env VEC_TIMER f ec s = Returned (s2\<lparr>trace := trace s2 @ tr\<rparr>)"
    using assms(2,3) t tr(1)
    by (simp add: Handler_def DEF_ERR_vectors_eq DispatchNoError_def Dispatch_no_logger [OF _ refl] VEC_TIMER_def
        s1_def [symmetric, unfolded VEC_TIMER_def] s2_def)
  then show ?thesis
    using tr(2) by (intro exI [of _ "s2\<lparr>trace := trace s2 @ tr\<rparr>"]
        exI [of _ "[EvMmioWrite (b + 0xB0) 0, EvMmioRead (b + 0x20) v] @ tr"])
      (simp add: s2_def sc_def NeedsEOI_iff VEC_TIMER_def)
qed

theorem timer_interrupt_witness:
  "\<exists>s' tr. Handler sample_env VEC_TIMER sample_frame 0 sample_intr = Returned s' \<and>
     gNeedReschedule (sched s') \<and> trace s' = trace sample_intr @ tr \<and>
     mmio_writes tr = [(0xFEE000B0, 0), (0xFEE000B0, 0)]"
  using timer_interrupt [OF sample_intr_facts(1,2,4), of sample_frame 0] by fastforce



text \<open>
  The statistics: after any sequence of interrupts that all return, the counter of each vector has grown
  by the number of occurrences of that vector, modulo \<open>2 ^ 64\<close>, whatever handlers ran.
\<close>

lemma vector_counts_correct:
  assumes "gLogger s = None" and "run_interrupts env is s = Returned s'"
  shows "GetVectorCount v s' = GetVectorCount v s + of_nat (length (filter (\<lambda>i. int_vector i = v) is))"
  using assms
proof (induction "is" arbitrary: s)
  case (Cons i "is")
  then obtain s1 where s1: "Handler env (int_vector i) (int_frame i) (int_error i) s = Returned s1"
      "run_interrupts env is s1 = Returned s'" by (auto split: outcome.splits)
  note hc = Handler_counts [OF Cons.prems(1) s1(1)]
  with Cons.IH [OF _ s1(2)] show ?case by (simp add: GetVectorCount_def)
qed simp

lemma vector_counts_correct_example:
  "\<exists>s'. run_interrupts sample_env [\<lparr>int_vector = VEC_TIMER, int_frame = sample_frame, int_error = 0\<rparr>] sample_intr = Returned s' \<and>
     GetVectorCount VEC_TIMER s' = 1"
proof -
  obtain s' where s': "Handler sample_env VEC_TIMER sample_frame 0 sample_intr = Returned s'"
    by (simp add: Handler_def DEF_ERR_vectors_eq DispatchNoError_def Dispatch_no_logger [OF sample_intr_facts(2) refl]
        sample_intr_facts(4) OnTimer_def Let_def sample_intr_facts(4) [unfolded VEC_TIMER_def] VEC_TIMER_def)
  then have "run_interrupts sample_env [\<lparr>int_vector = VEC_TIMER, int_frame = sample_frame, int_error = 0\<rparr>] sample_intr = Returned s'"
    by simp
  with vector_counts_correct [OF sample_intr_facts(2) this, of VEC_TIMER] show ?thesis
    by (simp add: GetVectorCount_def sample_intr_def sample_boot_def InitCoreExceptionHandlers_def Let_def
        RegisterInterruptHandler_def InitInterruptDispatch_def InitTimerHandler_def)
qed

end
