(* ===== verification/CPUInit.thy ===== *)
theory CPUInit
  imports Interrupts
begin

text \<open>
  \<open>Kernel/Arch/x86_64/CPU/Initialization/\<close> (\<open>GDT.hpp\<close>, \<open>TSS.hpp\<close>, \<open>IDT.hpp\<close>, \<open>CPUInit.cpp\<close>) and
  \<open>CPU/PerCPU.cpp\<close>: the descriptor tables and the per-CPU block.

  The descriptor table \<open>gGDT\<close> is the array of bytes the code writes; the packed structures are laid out
  byte by byte. The registers loaded by \<open>lgdt\<close>, \<open>lidt\<close>, \<open>ltr\<close> and the segment loads are part of the state,
  and \<open>ltr\<close> marks the descriptor it loads as busy, as the processor does. The addresses the linker
  chooses are the argument \<open>at\<close>.
\<close>

unbundle bit_operations_syntax

subsection \<open>Data\<close>

record GDTR =
  GDTR_Limit :: u16
  GDTR_Base :: u64

record GDTEntry =
  LimitLow :: u16
  BaseLow :: u16
  BaseMid :: u8
  Access :: u8
  Granularity :: u8
  BaseHigh :: u8

record TSSDescriptor = GDTEntry +
  BaseUpper :: u32
  TSSD_Reserved :: u32

record TSS =
  Reserved0 :: u32
  Rsp0 :: u64
  Rsp1 :: u64
  Rsp2 :: u64
  Reserved1 :: u64
  Ist1 :: u64
  Ist2 :: u64
  Ist3 :: u64
  Ist4 :: u64
  Ist5 :: u64
  Ist6 :: u64
  Ist7 :: u64
  Reserved2 :: u64
  Reserved3 :: u16
  IoMapBase :: u16

definition sizeof_TSS :: nat where "sizeof_TSS = 104"

record IDTR =
  IDTR_Limit :: u16
  IDTR_Base :: u64

record IDTEntry =
  OffsetLow :: u16
  Selector :: u16
  Ist :: u8
  TypeAttribute :: u8
  OffsetMid :: u16
  OffsetHigh :: u32
  Reserved :: u32

definition GDT_KERNEL_CS :: u16 where "GDT_KERNEL_CS = 0x08"
definition GDT_KERNEL_DS :: u16 where "GDT_KERNEL_DS = 0x10"
definition GDT_USER_CS :: u16 where "GDT_USER_CS = 0x18"
definition GDT_USER_DS :: u16 where "GDT_USER_DS = 0x20"
definition GDT_TSS_SEL :: u16 where "GDT_TSS_SEL = 0x28"
definition IDT_ENTRIES :: nat where "IDT_ENTRIES = 256"
definition IDT_TYPE_INTERRUPT_GATE :: u8 where "IDT_TYPE_INTERRUPT_GATE = 0x8E"

record link_addrs =
  addr_gGDT :: u64
  addr_gTSS :: u64
  addr_gIDT :: u64
  addr_Handler :: "nat \<Rightarrow> u64"

record cpu_tables =
  gGDT :: byte_array
  gGDTPtr :: GDTR
  gTSS :: TSS
  gIDT :: "IDTEntry list"
  gIDTPtr :: IDTR
  reg_gdtr :: GDTR
  reg_idtr :: IDTR
  reg_cs :: u16
  reg_data :: u16
  reg_tr :: u16

subsection \<open>Layout of the packed structures\<close>

definition bytes16 :: "u16 \<Rightarrow> u8 list" where
  "bytes16 w = [ucast w, ucast (drop_bit 8 w)]"

definition bytes32 :: "u32 \<Rightarrow> u8 list" where
  "bytes32 w = [ucast w, ucast (drop_bit 8 w), ucast (drop_bit 16 w), ucast (drop_bit 24 w)]"

definition put_bytes :: "byte_array \<Rightarrow> nat \<Rightarrow> u8 list \<Rightarrow> byte_array" where
  "put_bytes t off bs = (\<lambda>i. if off \<le> i \<and> i < off + length bs then bs ! (i - off) else t i)"

definition GDTEntry_bytes :: "'r GDTEntry_scheme \<Rightarrow> u8 list" where
  "GDTEntry_bytes e = bytes16 (LimitLow e) @ bytes16 (BaseLow e) @ [BaseMid e, Access e, Granularity e, BaseHigh e]"

definition TSSDescriptor_bytes :: "TSSDescriptor \<Rightarrow> u8 list" where
  "TSSDescriptor_bytes d = GDTEntry_bytes d @ bytes32 (BaseUpper d) @ bytes32 (TSSD_Reserved d)"

subsection \<open>Segmentation\<close>

definition SetGDTEntry :: "nat \<Rightarrow> u32 \<Rightarrow> u32 \<Rightarrow> u8 \<Rightarrow> u8 \<Rightarrow> byte_array \<Rightarrow> byte_array" where
  "SetGDTEntry entry b limit acc gran t =
     put_bytes t entry (GDTEntry_bytes
       \<lparr>LimitLow = ucast (limit AND 0xFFFF), BaseLow = ucast (b AND 0xFFFF), BaseMid = ucast (drop_bit 16 b AND 0xFF),
        Access = acc, Granularity = ucast ((drop_bit 16 limit AND 0x0F) OR (ucast gran AND 0xF0)),
        BaseHigh = ucast (drop_bit 24 b AND 0xFF)\<rparr>)"

definition SetTSSDescriptor :: "nat \<Rightarrow> u64 \<Rightarrow> u32 \<Rightarrow> u8 \<Rightarrow> u8 \<Rightarrow> byte_array \<Rightarrow> byte_array" where
  "SetTSSDescriptor desc b limit acc gran t =
     put_bytes t desc (TSSDescriptor_bytes
       \<lparr>LimitLow = ucast (limit AND 0xFFFF), BaseLow = ucast (b AND 0xFFFF), BaseMid = ucast (drop_bit 16 b AND 0xFF),
        Access = acc, Granularity = ucast ((drop_bit 16 limit AND 0x0F) OR (ucast gran AND 0xF0)),
        BaseHigh = ucast (drop_bit 24 b AND 0xFF), BaseUpper = ucast (drop_bit 32 b AND 0xFFFFFFFF), TSSD_Reserved = 0\<rparr>)"

definition LoadGDT :: "cpu_tables \<Rightarrow> cpu_tables" where
  "LoadGDT s = s\<lparr>reg_gdtr := gGDTPtr s\<rparr>"

definition load_task_register :: "u16 \<Rightarrow> cpu_tables \<Rightarrow> cpu_tables" where
  "load_task_register sel s =
     (let o5 = unat sel + 5 in s\<lparr>reg_tr := sel, gGDT := (gGDT s)(o5 := gGDT s o5 OR 2)\<rparr>)"

definition ReloadSegmentsAndLoadTSS :: "u16 \<Rightarrow> u16 \<Rightarrow> u16 \<Rightarrow> u16 \<Rightarrow> u16 \<Rightarrow> cpu_tables \<Rightarrow> cpu_tables" where
  "ReloadSegmentsAndLoadTSS kernelDS kernelCS userDSRPL3 userCSRPL3 tssSel s =
     load_task_register tssSel (s\<lparr>reg_data := kernelDS, reg_cs := kernelCS\<rparr>)"

definition zero_TSS :: TSS where
  "zero_TSS = \<lparr>Reserved0 = 0, Rsp0 = 0, Rsp1 = 0, Rsp2 = 0, Reserved1 = 0, Ist1 = 0, Ist2 = 0, Ist3 = 0, Ist4 = 0,
     Ist5 = 0, Ist6 = 0, Ist7 = 0, Reserved2 = 0, Reserved3 = 0, IoMapBase = 0\<rparr>"

definition InitGDTAndTSS :: "link_addrs \<Rightarrow> u64 \<Rightarrow> cpu_tables \<Rightarrow> cpu_tables" where
  "InitGDTAndTSS at kernelStackTop s =
     (let t = FillMemory (gGDT s) 0 56 0;
          t = SetGDTEntry (1 * 8) 0 0 0x9A 0xA0 t;
          t = SetGDTEntry (2 * 8) 0 0 0x92 0x00 t;
          t = SetGDTEntry (3 * 8) 0 0 0xFA 0xA0 t;
          t = SetGDTEntry (4 * 8) 0 0 0xF2 0x00 t;
          tssBase = addr_gTSS at;
          tssLimit = of_nat (sizeof_TSS - 1);
          t = SetTSSDescriptor (5 * 8) tssBase tssLimit 0x89 0x00 t;
          tss = zero_TSS\<lparr>Rsp0 := kernelStackTop, IoMapBase := of_nat sizeof_TSS\<rparr>;
          s1 = s\<lparr>gGDT := t, gTSS := tss, gGDTPtr := \<lparr>GDTR_Limit = 7 * 8 - 1, GDTR_Base = addr_gGDT at\<rparr>\<rparr>
      in ReloadSegmentsAndLoadTSS GDT_KERNEL_DS GDT_KERNEL_CS (GDT_USER_DS OR 3) (GDT_USER_CS OR 3) GDT_TSS_SEL
           (LoadGDT s1))"

subsection \<open>Interrupt gates\<close>

definition SetIDTEntry :: "nat \<Rightarrow> u64 \<Rightarrow> u8 \<Rightarrow> cpu_tables \<Rightarrow> cpu_tables" where
  "SetIDTEntry vec addr typeAttribute s =
     s\<lparr>gIDT := (gIDT s)[vec :=
       \<lparr>OffsetLow = ucast (addr AND 0xFFFF), Selector = GDT_KERNEL_CS, Ist = 0, TypeAttribute = typeAttribute,
        OffsetMid = ucast (drop_bit 16 addr AND 0xFFFF), OffsetHigh = ucast (drop_bit 32 addr), Reserved = 0\<rparr>]\<rparr>"

text \<open>The 256 calls \<open>SET_VECTOR(0)\<close> to \<open>SET_VECTOR(255)\<close>, in two halves.\<close>

definition SET_VECTOR :: "link_addrs \<Rightarrow> nat \<Rightarrow> cpu_tables \<Rightarrow> cpu_tables" where
  "SET_VECTOR at n = SetIDTEntry n (addr_Handler at n) IDT_TYPE_INTERRUPT_GATE"

definition InitIDT_low :: "link_addrs \<Rightarrow> cpu_tables \<Rightarrow> cpu_tables" where
  "InitIDT_low at s = fold (SET_VECTOR at) [0..<128] s"

definition InitIDT_high :: "link_addrs \<Rightarrow> cpu_tables \<Rightarrow> cpu_tables" where
  "InitIDT_high at s = fold (SET_VECTOR at) [128..<256] s"

definition InitIDT :: "link_addrs \<Rightarrow> cpu_tables \<Rightarrow> cpu_tables" where
  "InitIDT at s =
     (let s1 = InitIDT_high at (InitIDT_low at s);
          s2 = s1\<lparr>gIDTPtr := \<lparr>IDTR_Limit = of_nat (IDT_ENTRIES * 16 - 1), IDTR_Base = addr_gIDT at\<rparr>\<rparr>
      in s2\<lparr>reg_idtr := gIDTPtr s2\<rparr>)"

lemma InitIDT_vectors:
  "InitIDT_high at (InitIDT_low at s) = fold (\<lambda>n. SetIDTEntry n (addr_Handler at n) IDT_TYPE_INTERRUPT_GATE) [0..<IDT_ENTRIES] s"
proof -
  have "[0..<256] = [0..<128] @ [128..<256 :: nat]" using upt_add_eq_append [of 0 128 128] by simp
  then show ?thesis by (simp add: InitIDT_high_def InitIDT_low_def SET_VECTOR_def [abs_def] IDT_ENTRIES_def)
qed

subsection \<open>The per-CPU block\<close>

definition SetPerCPUBase :: "u64 \<Rightarrow> ('r, unit) hw" where
  "SetPerCPUBase b = do { MSR_Write IA32_GS_BASE b; MSR_Write IA32_KERNEL_GS_BASE b }"

definition InitPerCPU :: "hardware \<Rightarrow> intr_state \<Rightarrow> intr_state" where
  "InitPerCPU hw s =
     (let h = heap (sched s);
          (mem, bm) = AllocatePage (hs_bitmap h);
          (lapicid, s1) = run_state (ReadLAPICID hw) s;
          pc = \<lparr>LAPICID = lapicid, PerCPU_CPUIndex = 0, PreemptDepth = 0, TickCount = 0, CurrentThread = 0\<rparr>;
          s2 = s1\<lparr>sched := (sched s1)\<lparr>heap := h\<lparr>hs_bitmap := bm\<rparr>, cpu := pc\<rparr>\<rparr>
      in exec (SetPerCPUBase mem) s2)"

subsection \<open>What the processor reads from the tables\<close>

definition desc_base :: "byte_array \<Rightarrow> nat \<Rightarrow> u64" where
  "desc_base t d = from_le [t (d + 2), t (d + 3), t (d + 4), t (d + 7), t (d + 8), t (d + 9), t (d + 10), t (d + 11)]"

definition desc_limit :: "byte_array \<Rightarrow> nat \<Rightarrow> u64" where
  "desc_limit t d = from_le [t d, t (d + 1), t (d + 6) AND 0x0F]"

definition desc_access :: "byte_array \<Rightarrow> nat \<Rightarrow> u8" where
  "desc_access t d = t (d + 5)"

definition desc_present :: "byte_array \<Rightarrow> nat \<Rightarrow> bool" where
  "desc_present t d = bit (desc_access t d) 7"

definition desc_dpl :: "byte_array \<Rightarrow> nat \<Rightarrow> u8" where
  "desc_dpl t d = drop_bit 5 (desc_access t d) AND 3"

definition desc_is_code64 :: "byte_array \<Rightarrow> nat \<Rightarrow> bool" where
  "desc_is_code64 t d \<longleftrightarrow> bit (desc_access t d) 4 \<and> bit (desc_access t d) 3 \<and> bit (t (d + 6)) 5 \<and> \<not> bit (t (d + 6)) 6"

definition desc_is_data :: "byte_array \<Rightarrow> nat \<Rightarrow> bool" where
  "desc_is_data t d \<longleftrightarrow> bit (desc_access t d) 4 \<and> \<not> bit (desc_access t d) 3 \<and> bit (desc_access t d) 1"

definition gate_offset :: "IDTEntry \<Rightarrow> u64" where
  "gate_offset e = ucast (OffsetLow e) OR push_bit 16 (ucast (OffsetMid e)) OR push_bit 32 (ucast (OffsetHigh e))"

lemma base_bytes:
  "from_le [ucast (ucast (b AND 0xFFFF) :: u16), ucast (drop_bit 8 (ucast (b AND 0xFFFF) :: u16)),
     ucast (drop_bit 16 b AND 0xFF), ucast (drop_bit 24 b AND 0xFF),
     ucast (ucast (drop_bit 32 b AND 0xFFFFFFFF) :: u32), ucast (drop_bit 8 (ucast (drop_bit 32 b AND 0xFFFFFFFF) :: u32)),
     ucast (drop_bit 16 (ucast (drop_bit 32 b AND 0xFFFFFFFF) :: u32)),
     ucast (drop_bit 24 (ucast (drop_bit 32 b AND 0xFFFFFFFF) :: u32))] = (b :: u64)"
proof -
  have m: "(0xFFFF :: u64) = mask 16" "(0xFF :: u64) = mask 8" "(0xFFFFFFFF :: u64) = mask 32"
    by (simp_all add: mask_eq_exp_minus_1)
  have "?thesis \<longleftrightarrow> from_le (le_bytes 8 b) = b"
    unfolding m
    by (rule arg_cong [where f = "\<lambda>x. from_le x = b"])
      (simp add: le_bytes_def upt_rec numeral_eq_Suc, (intro conjI bit_word_eqI; simp add: bit_simps)?)
  then show ?thesis by (simp add: mem_simps)
qed

lemma gate_offset_split:
  "ucast (ucast (addr AND 0xFFFF) :: u16) OR push_bit 16 (ucast (ucast (drop_bit 16 addr AND 0xFFFF) :: u16)) OR
     push_bit 32 (ucast (ucast (drop_bit 32 addr) :: u32)) = (addr :: u64)"
proof (rule bit_word_eqI)
  fix n assume n: "n < LENGTH(64)"
  have m: "(0xFFFF :: u64) = mask 16" by (simp add: mask_eq_exp_minus_1)
  consider "n < 16" | "16 \<le> n" "n < 32" | "32 \<le> n" by linarith
  then show "bit (ucast (ucast (addr AND 0xFFFF) :: u16) OR push_bit 16 (ucast (ucast (drop_bit 16 addr AND 0xFFFF) :: u16)) OR
     push_bit 32 (ucast (ucast (drop_bit 32 addr) :: u32)) :: u64) n = bit addr n"
    unfolding m using n by cases (auto simp: bit_simps)
qed

lemma length_SetIDTEntry_fold: "length (gIDT (fold (\<lambda>n. SetIDTEntry n (f n) ty) ns s)) = length (gIDT s)"
  by (induction ns arbitrary: s) (simp_all add: SetIDTEntry_def)

definition idt_gate :: "u64 \<Rightarrow> u8 \<Rightarrow> IDTEntry" where
  "idt_gate addr ty = \<lparr>OffsetLow = ucast (addr AND 0xFFFF), Selector = GDT_KERNEL_CS, Ist = 0, TypeAttribute = ty,
     OffsetMid = ucast (drop_bit 16 addr AND 0xFFFF), OffsetHigh = ucast (drop_bit 32 addr), Reserved = 0\<rparr>"

lemma SetIDTEntry_gIDT [simp]: "gIDT (SetIDTEntry v addr ty s) = (gIDT s)[v := idt_gate addr ty]"
  by (simp add: SetIDTEntry_def idt_gate_def)

lemma SetIDTEntry_fold:
  assumes "n \<le> length (gIDT s)" and "v < n"
  shows "gIDT (fold (\<lambda>n. SetIDTEntry n (f n) ty) [0..<n] s) ! v = idt_gate (f v) ty"
  using assms
proof (induction n)
  case (Suc n)
  have len: "length (gIDT (fold (\<lambda>n. SetIDTEntry n (f n) ty) [0..<n] s)) = length (gIDT s)"
    by (rule length_SetIDTEntry_fold)
  show ?case
  proof (cases "v = n")
    case True
    then show ?thesis using Suc.prems len by simp
  next
    case False
    then show ?thesis using Suc len by simp
  qed
qed simp

lemma init_gdt:
  "gGDT (InitGDTAndTSS at top s) =
     (let t = SetTSSDescriptor 40 (addr_gTSS at) 103 0x89 0 (SetGDTEntry 32 0 0 0xF2 0 (SetGDTEntry 24 0 0 0xFA 0xA0
        (SetGDTEntry 16 0 0 0x92 0 (SetGDTEntry 8 0 0 0x9A 0xA0 (FillMemory (gGDT s) 0 56 0))))) in t(45 := t 45 OR 2))"
  "reg_gdtr (InitGDTAndTSS at top s) = \<lparr>GDTR_Limit = 55, GDTR_Base = addr_gGDT at\<rparr>"
  "reg_cs (InitGDTAndTSS at top s) = 0x08" "reg_data (InitGDTAndTSS at top s) = 0x10"
  "reg_tr (InitGDTAndTSS at top s) = 0x28" "Rsp0 (gTSS (InitGDTAndTSS at top s)) = top"
  by (simp_all add: InitGDTAndTSS_def Let_def ReloadSegmentsAndLoadTSS_def load_task_register_def LoadGDT_def
      GDT_KERNEL_CS_def GDT_KERNEL_DS_def GDT_TSS_SEL_def sizeof_TSS_def)

lemmas desc_defs = desc_base_def desc_limit_def desc_access_def desc_present_def desc_dpl_def desc_is_code64_def desc_is_data_def

lemmas gdt_layout = SetGDTEntry_def SetTSSDescriptor_def GDTEntry_bytes_def TSSDescriptor_bytes_def bytes16_def bytes32_def

subsection \<open>Properties\<close>

text \<open>
  C30. The descriptor table: after \<open>InitGDTAndTSS\<close> the kernel and user code selectors name present 64-bit code
  segments with privilege levels 0 and 3, the data selectors present writable data segments of the same
  levels, the null descriptor is zero, and the task selector names a present, busy 64-bit TSS whose base
  is the address of \<open>gTSS\<close>, all 64 bits of it, and whose limit is the last byte of the structure. The
  loaded limit covers the seven slots and the stack for entries from user mode is the one passed in.
\<close>

theorem InitGDTAndTSS_descriptors:
  "let s' = InitGDTAndTSS at top s; t = gGDT s' in
     desc_present t 0x08 \<and> desc_is_code64 t 0x08 \<and> desc_dpl t 0x08 = 0 \<and>
     desc_present t 0x18 \<and> desc_is_code64 t 0x18 \<and> desc_dpl t 0x18 = 3 \<and>
     desc_present t 0x10 \<and> desc_is_data t 0x10 \<and> desc_dpl t 0x10 = 0 \<and>
     desc_present t 0x20 \<and> desc_is_data t 0x20 \<and> desc_dpl t 0x20 = 3 \<and>
     map t [0, 1, 2, 3, 4, 5, 6, 7] = [0, 0, 0, 0, 0, 0, 0, 0] \<and>
     desc_access t 0x28 = 0x8B \<and> desc_base t 0x28 = addr_gTSS at \<and> desc_limit t 0x28 = 103 \<and>
     reg_gdtr s' = \<lparr>GDTR_Limit = 55, GDTR_Base = addr_gGDT at\<rparr> \<and>
     reg_cs s' = 0x08 \<and> reg_data s' = 0x10 \<and> reg_tr s' = 0x28 \<and> Rsp0 (gTSS s') = top"
  unfolding Let_def
  by (intro conjI)
    (simp_all add: init_gdt desc_defs put_bytes_def gdt_layout base_bytes [simplified])

text \<open>
  C19. The interrupt table: after \<open>InitIDT\<close> each of the 256 vectors has a present interrupt gate in the kernel
  code segment whose 64-bit offset, put together from its three parts, is the address of the handler
  made for that vector, and the loaded limit covers exactly the 256 gates.
\<close>

theorem InitIDT_gates:
  assumes "length (gIDT s) = 256" and "v < 256"
  shows "let s' = InitIDT at s; g = gIDT s' ! v in
     gate_offset g = addr_Handler at v \<and> Selector g = 0x08 \<and> TypeAttribute g = 0x8E \<and> Ist g = 0 \<and>
     length (gIDT s') = 256 \<and> reg_idtr s' = \<lparr>IDTR_Limit = 4095, IDTR_Base = addr_gIDT at\<rparr>"
proof -
  let ?f = "fold (\<lambda>n. SetIDTEntry n (addr_Handler at n) IDT_TYPE_INTERRUPT_GATE) [0..<256] s"
  have g: "gIDT (InitIDT at s) = gIDT ?f" "reg_idtr (InitIDT at s) = \<lparr>IDTR_Limit = 4095, IDTR_Base = addr_gIDT at\<rparr>"
    by (simp_all add: InitIDT_def InitIDT_vectors Let_def IDT_ENTRIES_def)
  have "gIDT ?f ! v = idt_gate (addr_Handler at v) IDT_TYPE_INTERRUPT_GATE"
    using assms by (intro SetIDTEntry_fold) simp_all
  moreover have "length (gIDT ?f) = 256" using assms(1) by (simp only: length_SetIDTEntry_fold)
  ultimately show ?thesis
    using assms unfolding Let_def g
    by (simp add: idt_gate_def gate_offset_def gate_offset_split GDT_KERNEL_CS_def IDT_TYPE_INTERRUPT_GATE_def)
qed

theorem InitIDT_gates_witness:
  "gate_offset (gIDT (InitIDT \<lparr>addr_gGDT = 0x1000, addr_gTSS = 0x2000, addr_gIDT = 0x3000, addr_Handler = \<lambda>n. 0x100000 + of_nat n\<rparr>
     \<lparr>gGDT = \<lambda>_. 0, gGDTPtr = \<lparr>GDTR_Limit = 0, GDTR_Base = 0\<rparr>, gTSS = zero_TSS, gIDT = replicate 256 (idt_gate 0 0),
      gIDTPtr = \<lparr>IDTR_Limit = 0, IDTR_Base = 0\<rparr>, reg_gdtr = \<lparr>GDTR_Limit = 0, GDTR_Base = 0\<rparr>,
      reg_idtr = \<lparr>IDTR_Limit = 0, IDTR_Base = 0\<rparr>, reg_cs = 0, reg_data = 0, reg_tr = 0\<rparr>) ! 14) = 0x10000E"
  using InitIDT_gates [of "\<lparr>gGDT = \<lambda>_. 0, gGDTPtr = \<lparr>GDTR_Limit = 0, GDTR_Base = 0\<rparr>, gTSS = zero_TSS, gIDT = replicate 256 (idt_gate 0 0),
      gIDTPtr = \<lparr>IDTR_Limit = 0, IDTR_Base = 0\<rparr>, reg_gdtr = \<lparr>GDTR_Limit = 0, GDTR_Base = 0\<rparr>,
      reg_idtr = \<lparr>IDTR_Limit = 0, IDTR_Base = 0\<rparr>, reg_cs = 0, reg_data = 0, reg_tr = 0\<rparr>" 14
      "\<lparr>addr_gGDT = 0x1000, addr_gTSS = 0x2000, addr_gIDT = 0x3000, addr_Handler = \<lambda>n. 0x100000 + of_nat n\<rparr>"]
  by (simp add: Let_def)

text \<open>
  The per-CPU block: while a free page is left, \<open>InitPerCPU\<close> takes the lowest one, clears the tick counter
  and the current thread, and loads the address of that page into both GS base registers, high half in
  \<open>edx\<close> and low half in \<open>eax\<close>, as the last two accesses; all other pages keep their status.
\<close>

lemma InitPerCPU_correct:
  assumes "bitmap_ok (hs_bitmap (heap (sched s)))" and "free_pages (hs_bitmap (heap (sched s))) \<noteq> {}"
  shows "let s' = InitPerCPU hw s; fp = free_pages (hs_bitmap (heap (sched s))); p = page_addr (Min fp) in
     free_pages (hs_bitmap (heap (sched s'))) = fp - {Min fp} \<and> bitmap_ok (hs_bitmap (heap (sched s'))) \<and>
     TickCount (cpu (sched s')) = 0 \<and> CurrentThread (cpu (sched s')) = 0 \<and>
     (\<exists>tr hi lo. trace s' = tr @ [EvWrMsr 0xC0000101 hi lo, EvWrMsr 0xC0000102 hi lo] \<and>
        push_bit 32 (ucast hi) OR ucast lo = p)"
proof -
  let ?bm = "hs_bitmap (heap (sched s))"
  obtain bm' where a: "AllocatePage ?bm = (page_addr (Min (free_pages ?bm)), bm')"
      "free_pages bm' = free_pages ?bm - {Min (free_pages ?bm)}" "bitmap_ok bm'"
    using early.alloc_some [OF assms] by blast
  obtain lid s1 where r: "run_state (ReadLAPICID hw) s = (lid, s1)" by (cases "run_state (ReadLAPICID hw) s")
  then have "sched s1 = sched s"
    by (auto simp: ReadLAPICID_def LAPICMMIORead_def run_state_bind hw_run split: if_splits)
  then show ?thesis
    by (auto simp: Let_def InitPerCPU_def a r exec_def SetPerCPUBase_def hw_run IA32_GS_BASE_def IA32_KERNEL_GS_BASE_def
        intro!: exI [of _ "trace s1"])
qed

lemma InitPerCPU_correct_example:
  "let s = sample_intr\<lparr>sched := (example_sched [])\<lparr>heap := \<lparr>hs_bitmap = example_bitmap, hs_mem = \<lambda>_. 0, gEarlyAlloc = 1\<rparr>\<rparr>\<rparr> in
     free_pages (hs_bitmap (heap (sched (InitPerCPU sample_hw s)))) = {2, 3, 4} \<and>
     TickCount (cpu (sched (InitPerCPU sample_hw s))) = 0"
proof -
  let ?s = "sample_intr\<lparr>sched := (example_sched [])\<lparr>heap := \<lparr>hs_bitmap = example_bitmap, hs_mem = \<lambda>_. 0, gEarlyAlloc = 1\<rparr>\<rparr>\<rparr>"
  have b: "hs_bitmap (heap (sched ?s)) = example_bitmap" by simp
  have m: "Min (free_pages example_bitmap) = 1" by (simp add: example_free_pages)
  note InitPerCPU_correct [of ?s sample_hw, unfolded b m, OF example_bitmap_ok]
  then show ?thesis by (simp add: Let_def example_free_pages)
qed

end
