(* ===== verification/Acpi.thy ===== *)
theory Acpi
  imports NewDelete Hardware
begin

text \<open>
  \<open>Kernel/Core/ACPI/ACPIManager.cpp\<close> and \<open>MADT.cpp\<close>: validation of the root pointer, the search for a table,
  the parser of the interrupt controller table and the power-off sequence.

  The firmware tables are bytes of memory. Each packed structure is the list of its fields with their
  sizes, in the order of the header file; a field access reads the bytes at the offset computed from
  that list. Pointers are 64-bit words and all pointer arithmetic is the one of the code, including its
  wrap-around. The loop over the table entries is a partial function: it may not end when the table
  ends above the top of the address space.
\<close>

unbundle bit_operations_syntax

subsection \<open>Packed structures\<close>

type_synonym layout = "(string \<times> nat) list"

fun field_offset :: "layout \<Rightarrow> string \<Rightarrow> nat" where
  "field_offset [] f = 0"
| "field_offset ((g, n) # fs) f = (if f = g then 0 else n + field_offset fs f)"

fun field_size :: "layout \<Rightarrow> string \<Rightarrow> nat" where
  "field_size [] f = 0"
| "field_size ((g, n) # fs) f = (if f = g then n else field_size fs f)"

definition sizeof :: "layout \<Rightarrow> nat" where
  "sizeof fs = sum_list (map snd fs)"

definition field :: "layout \<Rightarrow> string \<Rightarrow> memory \<Rightarrow> u64 \<Rightarrow> u64" where
  "field fs f m p = from_le (read_bytes m (p + of_nat (field_offset fs f)) (field_size fs f))"

definition SDTHeader :: layout where
  "SDTHeader = [(''Signature'', 4), (''Length'', 4), (''Revision'', 1), (''Checksum'', 1), (''OEMID'', 6), (''OEMTableID'', 8),
     (''OEMRevision'', 4), (''CreatorID'', 4), (''CreatorRev'', 4)]"

definition RSDPtr :: layout where
  "RSDPtr = [(''Signature'', 8), (''Checksum'', 1), (''OEMID'', 6), (''Revision'', 1), (''RSDTAddress'', 4), (''Length'', 4),
     (''XSDTAddress'', 8), (''ExtendedChecksum'', 1), (''Reserved'', 3)]"

definition GenericAddress :: layout where
  "GenericAddress = [(''AddressSpaceID'', 1), (''RegisterBitWidth'', 1), (''RegisterBitOffset'', 1), (''AccessSize'', 1),
     (''Address'', 8)]"

definition FADT :: layout where
  "FADT = [(''Header'', 36), (''FirmwareCtrl'', 4), (''DSDT'', 4), (''Reserved1'', 1), (''PreferredPowerProfile'', 1),
     (''SCIInterrupt'', 2), (''SMICommandPort'', 4), (''ACPIEnable'', 1), (''ACPIDisable'', 1), (''S4BIOSReq'', 1),
     (''PStateCtrl'', 1), (''PM1aEventBlock'', 4), (''PM1bEventBlock'', 4), (''PM1aCtrlBlock'', 4), (''PM1bCtrlBlock'', 4),
     (''PM2CtrlBlock'', 4), (''PMTimerBlock'', 4), (''GPE0Block'', 4), (''GPE1Block'', 4), (''PM1EventLength'', 1),
     (''PM1CtrlLength'', 1), (''PM2CtrlLength'', 1), (''PMTimerLength'', 1), (''GPE0Length'', 1), (''GPE1Length'', 1),
     (''GPE1Base'', 1), (''CStateCtrl'', 1), (''WorstC2Latency'', 2), (''WorstC3Latency'', 2), (''FlushSize'', 2),
     (''FlushStride'', 2), (''DutyOffset'', 1), (''DutyWidth'', 1), (''DayAlarm'', 1), (''MonthAlarm'', 1), (''Century'', 1),
     (''BootArchitectureFlags'', 2), (''Reserved2'', 1), (''Flags'', 4), (''ResetReg'', 12), (''ReserValue'', 1),
     (''Reserved3'', 3), (''X_FirmwareCtrl'', 8), (''X_DSDT'', 8), (''X_PM1aEventBlock'', 12), (''X_PM1bEventBlock'', 12),
     (''X_PM1aCtrlBlock'', 12), (''X_PM1bCtrlBlock'', 12), (''X_PM2CtrlBlock'', 12), (''X_PMTimerBlock'', 12),
     (''X_GPE0Block'', 12), (''X_GPE1Block'', 12)]"

definition MADTHeader :: layout where
  "MADTHeader = [(''Header'', 36), (''LocalAPICAddress'', 4), (''Flags'', 4)]"

definition MADTEntryHeader :: layout where
  "MADTEntryHeader = [(''Type'', 1), (''Length'', 1)]"

definition MADT_IOAPIC :: layout where
  "MADT_IOAPIC = [(''IOAPICID'', 1), (''Reserved'', 1), (''IOAPICAddress'', 4), (''GlobalSystemInterruptBase'', 4)]"

definition MADT_ISO :: layout where
  "MADT_ISO = [(''BusSource'', 1), (''IRQSource'', 1), (''GlobalSystemInterrupt'', 4), (''Flags'', 2)]"

subsection \<open>Finding a table\<close>

fun CheckSigEq :: "memory \<Rightarrow> u64 \<Rightarrow> u8 list \<Rightarrow> bool" where
  "CheckSigEq m sig1 [] = True"
| "CheckSigEq m sig1 (c # sig2) = (if m sig1 \<noteq> c then False else CheckSigEq m (sig1 + 1) sig2)"

definition ValidateRSDPChecksum :: "memory \<Rightarrow> u64 \<Rightarrow> bool" where
  "ValidateRSDPChecksum m rsdp =
     (if rsdp = 0 then False
      else if field RSDPtr ''Revision'' m rsdp < 2
      then fold (\<lambda>i sum. sum + m (rsdp + of_nat i)) [0..<20] 0 = 0
      else
        let len = field RSDPtr ''Length'' m rsdp
        in if len < 20 then False
           else fold (\<lambda>i sum. sum + m (rsdp + of_nat i)) [0..<unat len] 0 = 0)"

text \<open>The search loop; \<open>entry i\<close> is the pointer read from slot \<open>i\<close> of the root table.\<close>

function FindTable_loop :: "memory \<Rightarrow> u8 list \<Rightarrow> (nat \<Rightarrow> u64) \<Rightarrow> nat \<Rightarrow> nat \<Rightarrow> u64" where
  "FindTable_loop m sig entry entries i =
     (if i < entries
      then
        let h = entry i
        in if h \<noteq> 0 \<and> CheckSigEq m h sig then h else FindTable_loop m sig entry entries (Suc i)
      else 0)"
  by pat_completeness auto
termination
  by (relation "measure (\<lambda>(m, sig, entry, entries, i). entries - i)") auto

declare FindTable_loop.simps [simp del]

definition table_entries :: "u64 \<Rightarrow> u64 \<Rightarrow> nat" where
  "table_entries len width = unat (ucast ((len - of_nat (sizeof SDTHeader)) div width) :: u32)"

definition FindTable :: "memory \<Rightarrow> u64 \<Rightarrow> u8 list option \<Rightarrow> u64" where
  "FindTable m rsdp sig0 =
     (case sig0 of
        None \<Rightarrow> 0
      | Some sig \<Rightarrow>
          if rsdp = 0 then 0
          else if field RSDPtr ''Revision'' m rsdp \<ge> 2
          then
            let xsdt = field RSDPtr ''XSDTAddress'' m rsdp
            in if xsdt = 0 then 0
               else
                 let entries = table_entries (field SDTHeader ''Length'' m xsdt) 8;
                     entry = xsdt + of_nat (sizeof SDTHeader)
                 in FindTable_loop m sig (\<lambda>i. read64 m (entry + 8 * of_nat i)) entries 0
          else
            let rsdt = field RSDPtr ''RSDTAddress'' m rsdp
            in if rsdt = 0 then 0
               else
                 let entries = table_entries (field SDTHeader ''Length'' m rsdt) 4;
                     entry = rsdt + of_nat (sizeof SDTHeader * sizeof SDTHeader)
                 in FindTable_loop m sig (\<lambda>i. ucast (read32 m (entry + 4 * of_nat i))) entries 0)"

subsection \<open>The interrupt controller table\<close>

record IOAPICInfo =
  ID :: u8
  Phys :: u32
  GSIBase :: u32

record ISOInfo =
  IRQ :: u8
  GSI :: u32
  ISO_Flags :: u16

record ParsedMADT =
  LocalAPICBase :: u64
  BSP_APIC_ID :: u8
  IOAPICs :: "IOAPICInfo list"
  IOAPICCount :: nat
  ISOs :: "ISOInfo list"
  ISOCount :: nat

definition new_ParsedMADT :: ParsedMADT where
  "new_ParsedMADT = \<lparr>LocalAPICBase = 0, BSP_APIC_ID = 0xFF,
     IOAPICs = replicate 8 \<lparr>ID = 0, Phys = 0, GSIBase = 0\<rparr>, IOAPICCount = 0,
     ISOs = replicate 32 \<lparr>IRQ = 0, GSI = 0, ISO_Flags = 0\<rparr>, ISOCount = 0\<rparr>"

definition ACPI_SIG_MADT :: "u8 list" where
  "ACPI_SIG_MADT = [0x41, 0x50, 0x49, 0x43]"

text \<open>\<open>MADT.cpp\<close> has its own copies of the comparison, with its length argument, and of the search.\<close>

definition MADT_CheckSigEq :: "memory \<Rightarrow> u64 \<Rightarrow> u8 list \<Rightarrow> nat \<Rightarrow> bool" where
  "MADT_CheckSigEq m sig1 sig2 len \<longleftrightarrow> list_all (\<lambda>i. m (sig1 + of_nat i) = sig2 ! i) [0..<len]"

primrec MADT_search :: "memory \<Rightarrow> u8 list \<Rightarrow> u64 list \<Rightarrow> u64" where
  "MADT_search m sig [] = 0"
| "MADT_search m sig (h # hs) = (if h \<noteq> 0 \<and> MADT_CheckSigEq m h sig (length sig) then h else MADT_search m sig hs)"

definition MADT_FindTable :: "memory \<Rightarrow> u64 \<Rightarrow> u8 list option \<Rightarrow> u64" where
  "MADT_FindTable m rsdp sig0 =
     (case sig0 of
        None \<Rightarrow> 0
      | Some sig \<Rightarrow>
          if rsdp = 0 then 0
          else if field RSDPtr ''Revision'' m rsdp \<ge> 2
          then
            let xsdt = field RSDPtr ''XSDTAddress'' m rsdp
            in if xsdt = 0 then 0
               else
                 let entries = table_entries (field SDTHeader ''Length'' m xsdt) 8;
                     entry = xsdt + of_nat (sizeof SDTHeader)
                 in MADT_search m sig (map (\<lambda>i. read64 m (entry + 8 * of_nat i)) [0..<entries])
          else
            let rsdt = field RSDPtr ''RSDTAddress'' m rsdp
            in if rsdt = 0 then 0
               else
                 let entries = table_entries (field SDTHeader ''Length'' m rsdt) 4;
                     entry = rsdt + of_nat (sizeof SDTHeader * sizeof SDTHeader)
                 in MADT_search m sig (map (\<lambda>i. ucast (read32 m (entry + 4 * of_nat i))) [0..<entries]))"

lemma MADT_CheckSigEq_eq: "MADT_CheckSigEq m a sig (length sig) \<longleftrightarrow> CheckSigEq m a sig"
proof -
  have all: "MADT_CheckSigEq m a sig n \<longleftrightarrow> (\<forall>i<n. m (a + of_nat i) = sig ! i)" for a sig n
    by (auto simp: MADT_CheckSigEq_def list_all_iff)
  show ?thesis by (induction sig arbitrary: a) (simp_all add: all All_less_Suc2 add.assoc [symmetric])
qed

lemma MADT_search_eq: "MADT_search m sig (map f [i..<n]) = FindTable_loop m sig f n i"
proof (induction m sig f n i rule: FindTable_loop.induct)
  case (1 m sig entry entries i)
  then show ?case by (cases "i < entries") (simp_all add: upt_conv_Cons MADT_CheckSigEq_eq FindTable_loop.simps [of m sig entry entries i] Let_def)
qed

lemma MADT_FindTable_eq: "MADT_FindTable m rsdp sig = FindTable m rsdp sig"
  by (cases sig) (simp_all add: MADT_FindTable_def FindTable_def MADT_search_eq Let_def)

definition read_IOAPIC :: "memory \<Rightarrow> u64 \<Rightarrow> IOAPICInfo" where
  "read_IOAPIC m p = \<lparr>ID = ucast (field MADT_IOAPIC ''IOAPICID'' m p), Phys = ucast (field MADT_IOAPIC ''IOAPICAddress'' m p),
     GSIBase = ucast (field MADT_IOAPIC ''GlobalSystemInterruptBase'' m p)\<rparr>"

definition read_ISO :: "memory \<Rightarrow> u64 \<Rightarrow> ISOInfo" where
  "read_ISO m p = \<lparr>IRQ = ucast (field MADT_ISO ''IRQSource'' m p), GSI = ucast (field MADT_ISO ''GlobalSystemInterrupt'' m p),
     ISO_Flags = ucast (field MADT_ISO ''Flags'' m p)\<rparr>"

text \<open>The switch on the entry type.\<close>

definition ParseMADT_entry :: "memory \<Rightarrow> u64 \<Rightarrow> ParsedMADT \<Rightarrow> ParsedMADT" where
  "ParseMADT_entry m p out =
     (let len = unat (field MADTEntryHeader ''Length'' m p);
          ty = field MADTEntryHeader ''Type'' m p
      in if ty = 1
         then
           if len \<ge> sizeof MADTEntryHeader + sizeof MADT_IOAPIC \<and> IOAPICCount out < length (IOAPICs out)
           then
             let ioa = p + of_nat (sizeof MADTEntryHeader)
             in out\<lparr>IOAPICs := (IOAPICs out)[IOAPICCount out := read_IOAPIC m ioa], IOAPICCount := IOAPICCount out + 1\<rparr>
           else out
         else if ty = 2
         then
           if len \<ge> sizeof MADTEntryHeader + sizeof MADT_ISO \<and> ISOCount out < length (ISOs out)
           then
             let iso = p + of_nat (sizeof MADTHeader)
             in out\<lparr>ISOs := (ISOs out)[ISOCount out := read_ISO m iso], ISOCount := ISOCount out + 1\<rparr>
           else out
         else out)"

partial_function (option) ParseMADT_loop :: "memory \<Rightarrow> u64 \<Rightarrow> u64 \<Rightarrow> ParsedMADT \<Rightarrow> ParsedMADT option" where
  "ParseMADT_loop m p e out =
     (if p + of_nat (sizeof MADTEntryHeader) \<le> e
      then
        let len = field MADTEntryHeader ''Length'' m p
        in if len = 0 then Some out
           else ParseMADT_loop m (p + len) e (ParseMADT_entry m p out)
      else Some out)"

definition ParseMADT :: "memory \<Rightarrow> u64 \<Rightarrow> ParsedMADT \<Rightarrow> (bool \<times> ParsedMADT) option" where
  "ParseMADT m rsdp out =
     (let hdr = MADT_FindTable m rsdp (Some ACPI_SIG_MADT)
      in if hdr = 0 then Some (False, out)
         else
           let madt = hdr;
               out1 = out\<lparr>LocalAPICBase := field MADTHeader ''LocalAPICAddress'' m madt\<rparr>;
               b = madt + of_nat (sizeof MADTHeader);
               e = madt + field SDTHeader ''Length'' m madt
           in case ParseMADT_loop m b e out1 of None \<Rightarrow> None | Some out2 \<Rightarrow> Some (True, out2))"

subsection \<open>Powering off\<close>

definition ACPI_SIG_FACP :: "u8 list" where
  "ACPI_SIG_FACP = [0x46, 0x41, 0x43, 0x50]"

definition SLP_TYPE_S5 :: u16 where "SLP_TYPE_S5 = push_bit 10 5"
definition SLP_EN :: u16 where "SLP_EN = push_bit 13 1"
definition SLP_CMD :: u16 where "SLP_CMD = SLP_TYPE_S5 OR SLP_EN"

definition ACPIManager :: "memory \<Rightarrow> u64 \<Rightarrow> u64" where
  "ACPIManager m p = (if p \<noteq> 0 then if \<not> ValidateRSDPChecksum m p then 0 else p else p)"

definition WritePhysMem16 :: "u64 \<Rightarrow> u16 \<Rightarrow> ('r, unit) hw" where
  "WritePhysMem16 addr v = (if addr = 0 then State_Monad.return () else emit (EvMmioWrite16 addr v))"

text \<open>
  \<open>pm1_control m fadt x b\<close> is where the sleep command goes for one of the two control blocks: through the
  extended address if there is one (\<open>True\<close> for memory), else through the port, else nowhere.
\<close>

definition pm1_control :: "memory \<Rightarrow> u64 \<Rightarrow> string \<Rightarrow> string \<Rightarrow> (bool \<times> u64) option" where
  "pm1_control m fadt x b =
     (let ga = fadt + of_nat (field_offset FADT x)
      in if field GenericAddress ''Address'' m ga \<noteq> 0
         then Some (field GenericAddress ''AddressSpaceID'' m ga = 0, field GenericAddress ''Address'' m ga)
         else if field FADT b m fadt \<noteq> 0 then Some (False, field FADT b m fadt)
         else None)"

definition write_sleep :: "bool \<times> u64 \<Rightarrow> ('r, unit) hw" where
  "write_sleep d = (if \<not> fst d then Out16 (ucast (snd d)) SLP_CMD else WritePhysMem16 (snd d) SLP_CMD)"

text \<open>
  \<open>Shutdown\<close> never returns: its result is the final state and the way it ended. The timer it sleeps with is
  a null reference pointer, so the call through it is the last thing that happens.
\<close>

definition ACPI_Shutdown :: "memory \<Rightarrow> u64 \<Rightarrow> 'r hw_state_scheme \<Rightarrow> kernel_error \<times> 'r hw_state_scheme" where
  "ACPI_Shutdown m rsdp s =
     (if rsdp = 0 then (Panic STATUS_ERROR 0, s)
      else
        let fadt = FindTable m rsdp (Some ACPI_SIG_FACP)
        in if fadt = 0 then (Panic STATUS_ERROR 0, s)
           else
             let en = field FADT ''ACPIEnable'' m fadt;
                 smi = field FADT ''SMICommandPort'' m fadt;
                 s1 = (if en \<noteq> 0 \<and> smi \<noteq> 0 then snd (run_state (Out8 (ucast smi) (ucast en)) s) else s)
             in case pm1_control m fadt ''X_PM1aCtrlBlock'' ''PM1aCtrlBlock'' of
                  None \<Rightarrow> (Panic STATUS_ERROR 0, s1)
                | Some a \<Rightarrow>
                    let s2 = snd (run_state (write_sleep a) s1);
                        s3 = (case pm1_control m fadt ''X_PM1bCtrlBlock'' ''PM1bCtrlBlock'' of
                                Some b \<Rightarrow> snd (run_state (write_sleep b) s2) | None \<Rightarrow> s2)
                    in (NullDereference, s3))"

subsection \<open>Offsets and sizes\<close>

lemma layout_sizes [simp]:
  "sizeof SDTHeader = 36" "sizeof RSDPtr = 36" "sizeof GenericAddress = 12" "sizeof FADT = 244" "sizeof MADTHeader = 44"
  "sizeof MADTEntryHeader = 2" "sizeof MADT_IOAPIC = 10" "sizeof MADT_ISO = 8"
  by (simp_all add: sizeof_def SDTHeader_def RSDPtr_def GenericAddress_def FADT_def MADTHeader_def MADTEntryHeader_def
      MADT_IOAPIC_def MADT_ISO_def)

lemma layout_offsets:
  "field_offset RSDPtr ''Revision'' = 15" "field_offset RSDPtr ''RSDTAddress'' = 16" "field_offset RSDPtr ''Length'' = 20"
  "field_offset RSDPtr ''XSDTAddress'' = 24" "field_offset SDTHeader ''Length'' = 4"
  "field_size RSDPtr ''Revision'' = 1" "field_size RSDPtr ''Length'' = 4" "field_size SDTHeader ''Length'' = 4"
  "field_offset FADT ''SMICommandPort'' = 48" "field_offset FADT ''PM1aCtrlBlock'' = 64"
  "field_offset FADT ''X_PM1aCtrlBlock'' = 172" "field_offset FADT ''X_PM1bCtrlBlock'' = 184"
  "field_size MADTEntryHeader ''Length'' = 1" "field_offset MADTEntryHeader ''Length'' = 1"
  by (simp_all add: SDTHeader_def RSDPtr_def FADT_def MADTEntryHeader_def)

lemma unat_from_le_less: "unat (from_le bs) < 256 ^ length bs"
proof (cases "length bs < 8")
  case True
  have "from_le bs = take_bit (8 * length bs) (from_le bs)"
    by (rule bit_word_eqI) (auto simp: bit_simps bit_from_le less_mult_imp_div_less mult.commute)
  then have "unat (from_le bs) = take_bit (8 * length bs) (unat (from_le bs))" by (metis unsigned_take_bit_eq)
  also have "\<dots> < 2 ^ (8 * length bs)" by (rule take_bit_nat_less_exp)
  finally show ?thesis by (simp add: power_mult)
next
  case False
  have "unat (from_le bs) < 256 ^ 8" using unat_less_2p64 [of "from_le bs"] by simp
  also have "(256 :: nat) ^ 8 \<le> 256 ^ length bs" using False by (intro power_increasing) simp_all
  finally show ?thesis .
qed

lemma entry_length_bound: "unat (field MADTEntryHeader ''Length'' m p) \<le> 255"
  using unat_from_le_less [of "read_bytes m (p + 1) 1"] by (simp add: field_def layout_offsets)

subsection \<open>The checksum\<close>

lemma fold_sum_upt: "fold (\<lambda>i sum. sum + f i) [0..<n] a = a + (\<Sum>i<n. f i :: 'a::comm_monoid_add)"
  by (induction n) (simp_all add: add.assoc)

definition rsdp_bytes :: "memory \<Rightarrow> u64 \<Rightarrow> nat" where
  "rsdp_bytes m rsdp = (if field RSDPtr ''Revision'' m rsdp < 2 then 20 else unat (field RSDPtr ''Length'' m rsdp))"

lemma ValidateRSDPChecksum_iff:
  "ValidateRSDPChecksum m rsdp \<longleftrightarrow>
     rsdp \<noteq> 0 \<and> 20 \<le> rsdp_bytes m rsdp \<and> (\<Sum>i<rsdp_bytes m rsdp. m (rsdp + of_nat i)) = 0"
  by (auto simp: ValidateRSDPChecksum_def rsdp_bytes_def fold_sum_upt Let_def word_less_nat_alt not_less)

lemma field_upd:
  assumes "\<And>i. i < field_size fs f \<Longrightarrow> a \<noteq> p + of_nat (field_offset fs f + i)"
  shows "field fs f (m(a := v)) p = field fs f m p"
proof -
  have "read_bytes (m(a := v)) (p + of_nat (field_offset fs f)) (field_size fs f) =
      read_bytes m (p + of_nat (field_offset fs f)) (field_size fs f)"
    using assms by (intro nth_equalityI) (auto simp: add.assoc)
  then show ?thesis by (simp add: field_def)
qed

subsection \<open>Searching\<close>

lemma CheckSigEq_iff: "CheckSigEq m p sig \<longleftrightarrow> read_bytes m p (length sig) = sig"
proof (induction sig arbitrary: p)
  case (Cons c sig)
  then show ?case by (simp add: read_bytes_Suc)
qed simp

lemma FindTable_loop_find:
  "FindTable_loop m sig entry n i =
     (case find (\<lambda>h. h \<noteq> 0 \<and> CheckSigEq m h sig) (map entry [i..<n]) of Some h \<Rightarrow> h | None \<Rightarrow> 0)"
proof (induction m sig entry n i rule: FindTable_loop.induct)
  case (1 m sig entry n i)
  show ?case
  proof (cases "i < n")
    case True
    then show ?thesis using 1 by (subst FindTable_loop.simps) (simp add: upt_conv_Cons Let_def)
  next
    case False
    then show ?thesis by (subst FindTable_loop.simps) simp
  qed
qed

lemma table_entries_eq:
  assumes "36 \<le> unat len" and "unat len < 2 ^ 32" and "w = 4 \<or> w = 8"
  shows "table_entries len w = (unat len - 36) div unat w"
proof -
  have "unat (len - 36) = unat len - 36" using assms(1) by (simp add: unat_sub word_le_nat_alt)
  then have d: "unat ((len - 36) div w) = (unat len - 36) div unat w" by (simp add: unat_div)
  have "(unat len - 36) div unat w < 4294967296"
    using assms(2) by (intro order_le_less_trans [OF div_le_dividend]) simp
  then show ?thesis by (simp add: table_entries_def unsigned_ucast_eq d take_bit_nat_eq_self)
qed

subsection \<open>The entries of the interrupt controller table\<close>

text \<open>The walk over the entries in the remaining \<open>n\<close> bytes, as a list of their addresses.\<close>

function madt_entries :: "memory \<Rightarrow> u64 \<Rightarrow> nat \<Rightarrow> u64 list" where
  "madt_entries m p n =
     (let len = field MADTEntryHeader ''Length'' m p
      in if n < 2 \<or> len = 0 then [] else p # madt_entries m (p + len) (n - unat len))"
  by pat_completeness auto
termination
  by (relation "measure (\<lambda>(m, p, n). n)") (auto simp: unat_gt_0)

declare madt_entries.simps [simp del]

lemma ParseMADT_loop_fold:
  assumes "unat e + 258 < 2 ^ 64" and "unat p \<le> unat e + 255"
  shows "ParseMADT_loop m p e out = Some (fold (ParseMADT_entry m) (madt_entries m p (unat e - unat p)) out)"
  using assms(2)
proof (induction "unat e + 255 - unat p" arbitrary: p out rule: less_induct)
  case less
  let ?len = "field MADTEntryHeader ''Length'' m p"
  have len: "unat ?len \<le> 255" by (rule entry_length_bound)
  have p2: "unat (p + 2) = unat p + 2" using less.prems assms(1) by (subst unat_add_nowrap) simp_all
  have c: "p + of_nat (sizeof MADTEntryHeader) \<le> e \<longleftrightarrow> \<not> unat e - unat p < 2"
    using p2 by (simp add: word_le_nat_alt) linarith
  show ?case
  proof (cases "unat e - unat p < 2 \<or> ?len = 0")
    case True
    then show ?thesis
      using c by (subst ParseMADT_loop.simps, subst madt_entries.simps) (auto simp: Let_def)
  next
    case False
    then have pos: "0 < unat ?len" "\<not> unat e - unat p < 2" "?len \<noteq> 0" by (auto simp: unat_gt_0)
    have pl: "unat (p + ?len) = unat p + unat ?len"
      using pos(2) len assms(1) by (subst unat_add_nowrap) simp_all
    have "ParseMADT_loop m (p + ?len) e (ParseMADT_entry m p out) =
        Some (fold (ParseMADT_entry m) (madt_entries m (p + ?len) (unat e - unat (p + ?len))) (ParseMADT_entry m p out))"
      using pos len pl less.prems by (intro less.hyps) simp_all
    moreover have "unat e - unat (p + ?len) = unat e - unat p - unat ?len" using pl by simp
    ultimately show ?thesis
      using c pos by (subst ParseMADT_loop.simps, subst madt_entries.simps) (simp add: Let_def)
  qed
qed

definition is_ioapic :: "memory \<Rightarrow> u64 \<Rightarrow> bool" where
  "is_ioapic m p \<longleftrightarrow> field MADTEntryHeader ''Type'' m p = 1 \<and> 12 \<le> unat (field MADTEntryHeader ''Length'' m p)"

definition is_iso :: "memory \<Rightarrow> u64 \<Rightarrow> bool" where
  "is_iso m p \<longleftrightarrow> field MADTEntryHeader ''Type'' m p = 2 \<and> 10 \<le> unat (field MADTEntryHeader ''Length'' m p)"

text \<open>\<open>madt_holds out ios isos\<close>: the two arrays of the result hold these lists and have not overflowed.\<close>

definition madt_holds :: "ParsedMADT \<Rightarrow> IOAPICInfo list \<Rightarrow> ISOInfo list \<Rightarrow> bool" where
  "madt_holds out ios isos \<longleftrightarrow>
     length (IOAPICs out) = 8 \<and> IOAPICCount out = length ios \<and> length ios \<le> 8 \<and> take (length ios) (IOAPICs out) = ios \<and>
     length (ISOs out) = 32 \<and> ISOCount out = length isos \<and> length isos \<le> 32 \<and> take (length isos) (ISOs out) = isos"

lemma take_Suc_update: "n < length xs \<Longrightarrow> take (Suc n) (xs[n := x]) = take n xs @ [x]"
  by (simp add: take_Suc_conv_app_nth)

lemma take_take_append: "take n (take n xs @ ys) = take n (xs @ ys)"
  by (cases "length xs \<le> n") simp_all

lemma ParseMADT_entry_holds:
  assumes "madt_holds out ios isos"
  shows "madt_holds (ParseMADT_entry m p out)
    (take 8 (ios @ (if is_ioapic m p then [read_IOAPIC m (p + 2)] else [])))
    (take 32 (isos @ (if is_iso m p then [read_ISO m (p + 44)] else [])))"
proof -
  consider (io) "is_ioapic m p" "length ios < 8" | (io_full) "is_ioapic m p" "length ios = 8"
    | (iso) "is_iso m p" "length isos < 32" | (iso_full) "is_iso m p" "length isos = 32"
    | (other) "\<not> is_ioapic m p" "\<not> is_iso m p"
    using assms by (auto simp: madt_holds_def le_less)
  then show ?thesis
  proof cases
    case io
    then have "\<not> is_iso m p" by (simp add: is_ioapic_def is_iso_def)
    with io assms show ?thesis
      by (auto simp: ParseMADT_entry_def Let_def is_ioapic_def madt_holds_def take_Suc_update)
  next
    case io_full
    then have "\<not> is_iso m p" by (simp add: is_ioapic_def is_iso_def)
    with io_full assms show ?thesis by (auto simp: ParseMADT_entry_def Let_def is_ioapic_def madt_holds_def)
  next
    case iso
    then have "\<not> is_ioapic m p" by (simp add: is_ioapic_def is_iso_def)
    with iso assms show ?thesis
      by (auto simp: ParseMADT_entry_def Let_def is_iso_def madt_holds_def take_Suc_update)
  next
    case iso_full
    then have "\<not> is_ioapic m p" by (simp add: is_ioapic_def is_iso_def)
    with iso_full assms show ?thesis by (auto simp: ParseMADT_entry_def Let_def is_iso_def madt_holds_def)
  next
    case other
    with assms show ?thesis by (auto simp: ParseMADT_entry_def Let_def is_ioapic_def is_iso_def madt_holds_def)
  qed
qed

lemma ParseMADT_fold_holds:
  assumes "madt_holds out ios isos"
  shows "madt_holds (fold (ParseMADT_entry m) ps out)
    (take 8 (ios @ map (\<lambda>p. read_IOAPIC m (p + 2)) (filter (is_ioapic m) ps)))
    (take 32 (isos @ map (\<lambda>p. read_ISO m (p + 44)) (filter (is_iso m) ps)))"
  using assms
proof (induction ps arbitrary: out ios isos)
  case Nil
  then show ?case by (simp add: madt_holds_def)
next
  case (Cons p ps)
  from Cons.IH [OF ParseMADT_entry_holds [OF Cons.prems, of m p]] show ?case
    by (simp add: take_take_append del: take_append split: if_splits)
qed

lemma ParseMADT_entry_base [simp]: "LocalAPICBase (fold (ParseMADT_entry m) ps out) = LocalAPICBase out"
  by (induction ps arbitrary: out) (simp_all add: ParseMADT_entry_def Let_def)

lemma ParseMADT_result:
  assumes "madt = FindTable m rsdp (Some ACPI_SIG_MADT)" and "madt \<noteq> 0"
    and "len = unat (field SDTHeader ''Length'' m madt)" and "44 \<le> len" and "unat madt + len + 258 < 2 ^ 64"
  shows "\<exists>out. ParseMADT m rsdp new_ParsedMADT = Some (True, out) \<and>
    LocalAPICBase out = field MADTHeader ''LocalAPICAddress'' m madt \<and>
    madt_holds out
      (take 8 (map (\<lambda>p. read_IOAPIC m (p + 2)) (filter (is_ioapic m) (madt_entries m (madt + 44) (len - 44)))))
      (take 32 (map (\<lambda>p. read_ISO m (p + 44)) (filter (is_iso m) (madt_entries m (madt + 44) (len - 44)))))"
proof -
  let ?e = "madt + field SDTHeader ''Length'' m madt" and ?b = "madt + 44"
  let ?out = "new_ParsedMADT\<lparr>LocalAPICBase := field MADTHeader ''LocalAPICAddress'' m madt\<rparr>"
  have e: "unat ?e = unat madt + len" using assms(3,5) by (subst unat_add_nowrap) simp_all
  have b: "unat ?b = unat madt + 44" using assms(4,5) by (subst unat_add_nowrap) simp_all
  have "ParseMADT_loop m ?b ?e ?out = Some (fold (ParseMADT_entry m) (madt_entries m ?b (unat ?e - unat ?b)) ?out)"
    using assms(4,5) e b by (intro ParseMADT_loop_fold) simp_all
  moreover have "unat ?e - unat ?b = len - 44" using e b by simp
  moreover have "madt_holds ?out [] []" by (simp add: madt_holds_def new_ParsedMADT_def)
  ultimately show ?thesis
    using assms(1,2) ParseMADT_fold_holds [of ?out "[]" "[]" m "madt_entries m ?b (len - 44)"]
    by (simp add: ParseMADT_def MADT_FindTable_eq Let_def)
qed

lemma FindTable_loop_slot: "FindTable_loop m sig f n i = 0 \<or> (\<exists>j. FindTable_loop m sig f n i = f j)"
proof (cases "find (\<lambda>h. h \<noteq> 0 \<and> CheckSigEq m h sig) (map f [i..<n])")
  case (Some h)
  then have "h \<in> set (map f [i..<n])" by (auto simp: find_Some_iff)
  with Some show ?thesis by (auto simp: FindTable_loop_find)
qed (simp add: FindTable_loop_find)

lemma FindTable_rsdt_offset:
  assumes "field RSDPtr ''Revision'' m rsdp < 2" and "FindTable m rsdp (Some sig) \<noteq> 0"
  shows "\<exists>i. FindTable m rsdp (Some sig) = ucast (read32 m (field RSDPtr ''RSDTAddress'' m rsdp + 1296 + 4 * of_nat i))"
proof -
  let ?f = "\<lambda>i. ucast (read32 m (field RSDPtr ''RSDTAddress'' m rsdp + 1296 + 4 * of_nat i)) :: u64"
  from assms obtain n where "FindTable m rsdp (Some sig) = FindTable_loop m sig ?f n 0"
    by (auto simp: FindTable_def Let_def not_le [symmetric] split: if_splits)
  then show ?thesis using assms(2) FindTable_loop_slot [of m sig ?f n 0] by metis
qed

lemma ACPI_Shutdown_never_halts:
  "fst (ACPI_Shutdown m rsdp s) = NullDereference \<or> fst (ACPI_Shutdown m rsdp s) = Panic STATUS_ERROR 0"
  by (auto simp: ACPI_Shutdown_def Let_def split: option.splits)

subsection \<open>Properties\<close>

text \<open>Tables of a machine with one I/O APIC, and one interrupt source override, at 4096, 8192 and 12288.\<close>

definition sample_rsdp :: "u8 list" where
  "sample_rsdp = replicate 15 0 @ [2, 0, 0, 0, 0, 36, 0, 0, 0, 0, 0x20, 0, 0, 0, 0, 0, 0]"

definition sample_xsdt :: "u8 list" where
  "sample_xsdt = [0x58, 0x53, 0x44, 0x54, 44, 0, 0, 0] @ replicate 28 0 @ [0, 0x30, 0, 0, 0, 0, 0, 0]"

definition sample_madt :: "u8 list" where
  "sample_madt = ACPI_SIG_MADT @ [66, 0, 0, 0] @ replicate 28 0 @ [0, 0, 0xE0, 0xFE, 1, 0, 0, 0] @
     [1, 12, 7, 0, 0, 0, 0xC0, 0xFE, 0x18, 0, 0, 0] @ [2, 10, 0, 9, 2, 0, 0, 0, 0, 0]"

definition sample_tables :: memory where
  "sample_tables = write_bytes (write_bytes (write_bytes (\<lambda>_. 0) 0x1000 sample_rsdp) 0x2000 sample_xsdt) 0x3000 sample_madt"

lemma sample_eval: "sample_tables a =
    (if unat (a - 0x3000) < 66 then sample_madt ! unat (a - 0x3000)
     else if unat (a - 0x2000) < 44 then sample_xsdt ! unat (a - 0x2000)
     else if unat (a - 0x1000) < 32 then sample_rsdp ! unat (a - 0x1000) else 0)"
  by (simp add: sample_tables_def write_bytes_def sample_madt_def sample_xsdt_def sample_rsdp_def ACPI_SIG_MADT_def)

lemmas sample_lists = sample_madt_def sample_xsdt_def sample_rsdp_def ACPI_SIG_MADT_def

lemma sample_root:
  "field RSDPtr ''Revision'' sample_tables 0x1000 = 2" "field RSDPtr ''XSDTAddress'' sample_tables 0x1000 = 0x2000"
  "field SDTHeader ''Length'' sample_tables 0x2000 = 44" "read64 sample_tables 0x2024 = 0x3000"
  "read_bytes sample_tables 0x3000 4 = ACPI_SIG_MADT"
  by (simp_all add: field_def RSDPtr_def SDTHeader_def read64_def read_bytes_numeral sample_eval sample_lists nth_append)

lemma sample_sig: "read_bytes sample_tables 0x3000 (length ACPI_SIG_MADT) = ACPI_SIG_MADT"
proof -
  have "length ACPI_SIG_MADT = 4" by (simp add: ACPI_SIG_MADT_def)
  then show ?thesis using sample_root(5) by simp
qed

lemma sample_entries:
  "field SDTHeader ''Length'' sample_tables 0x3000 = 66"
  "field MADTEntryHeader ''Length'' sample_tables 0x302C = 12" "field MADTEntryHeader ''Type'' sample_tables 0x302C = 1"
  "field MADTEntryHeader ''Length'' sample_tables 0x3038 = 10" "field MADTEntryHeader ''Type'' sample_tables 0x3038 = 2"
  "read_IOAPIC sample_tables 0x302E = \<lparr>ID = 7, Phys = 0xFEC00000, GSIBase = 0x18\<rparr>"
  by (simp_all add: field_def MADTEntryHeader_def SDTHeader_def read_IOAPIC_def MADT_IOAPIC_def read_bytes_numeral sample_eval
      sample_lists nth_append)



text \<open>
  The search in the 64-bit root table is exact: \<open>FindTable\<close> returns the address in the first non-empty slot
  whose table carries the wanted signature, looking at every slot the length of the root table leaves
  room for and at no other, and null when there is none.
\<close>

lemma FindTable_finds_first:
  assumes "rsdp \<noteq> 0" and "2 \<le> field RSDPtr ''Revision'' m rsdp" and "xsdt = field RSDPtr ''XSDTAddress'' m rsdp"
    and "xsdt \<noteq> 0" and "len = unat (field SDTHeader ''Length'' m xsdt)" and "36 \<le> len"
  shows "FindTable m rsdp (Some sig) =
    (case find (\<lambda>h. h \<noteq> 0 \<and> read_bytes m h (length sig) = sig)
       (map (\<lambda>i. read64 m (xsdt + 36 + 8 * of_nat i)) [0..<(len - 36) div 8]) of Some h \<Rightarrow> h | None \<Rightarrow> 0)"
proof -
  have "len < 2 ^ 32"
    using unat_from_le_less [of "read_bytes m (xsdt + 4) 4"] by (simp add: assms(5) field_def layout_offsets)
  then have "table_entries (field SDTHeader ''Length'' m xsdt) 8 = (len - 36) div 8"
    using assms(5,6) by (subst table_entries_eq) simp_all
  then show ?thesis using assms(1-4) by (simp add: FindTable_def Let_def FindTable_loop_find CheckSigEq_iff)
qed

lemma FindTable_finds_first_example: "FindTable sample_tables 0x1000 (Some ACPI_SIG_MADT) = 0x3000"
  using FindTable_finds_first [of "0x1000" sample_tables "0x2000" 44 ACPI_SIG_MADT] by (simp add: sample_root sample_sig)

text \<open>
  C13. The parser of the interrupt controller table always returns when the table ends at least 258 bytes below
  the top of the address space, and never writes outside its two arrays, whatever the bytes are: it
  records the local APIC address and the first eight I/O APIC entries among those the table's length
  walk visits, in order, each with its identifier, address and first interrupt. The first 32 interrupt
  source overrides are recorded from 44 bytes behind the start of the entry, where the code reads them,
  instead of from the two bytes of the entry header on.
\<close>

theorem ParseMADT_correct:
  assumes "madt = FindTable m rsdp (Some ACPI_SIG_MADT)" and "madt \<noteq> 0"
    and "len = unat (field SDTHeader ''Length'' m madt)" and "44 \<le> len" and "unat madt + len + 258 < 2 ^ 64"
  shows "\<exists>out. ParseMADT m rsdp new_ParsedMADT = Some (True, out) \<and>
    LocalAPICBase out = field MADTHeader ''LocalAPICAddress'' m madt \<and>
    madt_holds out
      (take 8 (map (\<lambda>p. read_IOAPIC m (p + 2)) (filter (is_ioapic m) (madt_entries m (madt + 44) (len - 44)))))
      (take 32 (map (\<lambda>p. read_ISO m (p + 44)) (filter (is_iso m) (madt_entries m (madt + 44) (len - 44)))))"
  by (rule ParseMADT_result [OF assms])

theorem ParseMADT_correct_witness:
  "\<exists>out. ParseMADT sample_tables 0x1000 new_ParsedMADT = Some (True, out) \<and> IOAPICCount out = 1 \<and>
     IOAPICs out ! 0 = \<lparr>ID = 7, Phys = 0xFEC00000, GSIBase = 0x18\<rparr>"
proof -
  have "FindTable sample_tables 0x1000 (Some ACPI_SIG_MADT) = 0x3000"
    by (simp add: FindTable_def Let_def sample_root table_entries_def FindTable_loop.simps CheckSigEq_iff sample_sig)
  moreover have "madt_entries sample_tables 0x302C 22 = [0x302C, 0x3038]"
    by (simp add: madt_entries.simps [of _ _ 22] madt_entries.simps [of _ _ 10] madt_entries.simps [of _ _ 0] sample_entries)
  ultimately show ?thesis
    using ParseMADT_correct [of "0x3000" sample_tables "0x1000" 66] sample_entries
    by (fastforce simp: is_ioapic_def is_iso_def madt_holds_def take_Suc_conv_app_nth)
qed

end
