(* ===== verification/Timers.thy ===== *)
theory Timers
  imports LocalApic ObjectModel LibUtil
begin

text \<open>
  \<open>Kernel/Core/Timer/Timer.cpp\<close> and the class \<open>TSC\<close> of \<open>Arch/x86_64/Utility/TSC.hpp\<close>: the timer objects over the
  time stamp counter.

  Every \<open>double\<close> of these files holds a non-negative integer, so it is modelled by the natural number it
  holds: a conversion or product rounds to 53 significant bits, to nearest with ties to even, as IEEE
  double precision does. A conversion back to 64 bits that does not fit is undefined in the code and is
  the error \<open>FloatRange\<close>; a division by zero is \<open>DivideError\<close>. The busy-wait is a partial function.
\<close>

unbundle bit_operations_syntax

subsection \<open>Integers in double precision\<close>

fun bit_length :: "nat \<Rightarrow> nat" where
  "bit_length n = (if n = 0 then 0 else Suc (bit_length (n div 2)))"

declare bit_length.simps [simp del]

definition to_double :: "nat \<Rightarrow> nat" where
  "to_double n =
     (if n < 2 ^ 53 then n
      else
        let k = bit_length n - 53; q = n div 2 ^ k; r = n mod 2 ^ k; half = 2 ^ (k - 1)
        in (if r > half \<or> (r = half \<and> odd q) then q + 1 else q) * 2 ^ k)"

definition double_mult :: "nat \<Rightarrow> nat \<Rightarrow> nat" where
  "double_mult x y = to_double (x * y)"

datatype timer_error = NullClockInfo | DivideError | FloatRange

definition double_to_u64 :: "nat \<Rightarrow> timer_error + u64" where
  "double_to_u64 x = (if x < 2 ^ 64 then Inr (of_nat x) else Inl FloatRange)"

subsection \<open>The timer object\<close>

record HardwareClockInfo =
  InitialUNIXTime :: u64
  InitialTSC :: u64
  TSCFreq :: u64

datatype TimerType = TSC_TIMER | APIC_TIMER
datatype TimeScale = SECONDS | MILLISECONDS | NANOSECOUNDS

fun TimeScale_code :: "TimeScale \<Rightarrow> u64" where
  "TimeScale_code SECONDS = 1"
| "TimeScale_code MILLISECONDS = 1000"
| "TimeScale_code NANOSECOUNDS = 1000000000"

record Timer =
  m_Freq :: u64
  m_LastStamp :: u64
  m_TimeScale :: TimeScale
  m_Type :: TimerType

type_synonym clock_ptr = "HardwareClockInfo option"

definition SetHardwareTimerInfo :: "clock_ptr \<Rightarrow> clock_ptr \<Rightarrow> clock_ptr" where
  "SetHardwareTimerInfo info gHwClockInfo = info"

definition Timer_default :: "clock_ptr \<Rightarrow> timer_error + Timer" where
  "Timer_default gHwClockInfo =
     (case gHwClockInfo of
        None \<Rightarrow> Inl NullClockInfo
      | Some ci \<Rightarrow> Inr \<lparr>m_Freq = TSCFreq ci, m_LastStamp = 0, m_TimeScale = MILLISECONDS, m_Type = TSC_TIMER\<rparr>)"

definition Timer_typed :: "TimerType \<Rightarrow> clock_ptr \<Rightarrow> timer_error + Timer" where
  "Timer_typed ty gHwClockInfo =
     (let ty' = (if ty \<noteq> TSC_TIMER then TSC_TIMER else ty)
      in case gHwClockInfo of
           None \<Rightarrow> Inl NullClockInfo
         | Some ci \<Rightarrow> Inr \<lparr>m_Freq = TSCFreq ci, m_LastStamp = 0, m_TimeScale = MILLISECONDS, m_Type = ty'\<rparr>)"

definition GetFrequency :: "Timer \<Rightarrow> u64" where
  "GetFrequency t = m_Freq t"

definition GetTimerType :: "Timer \<Rightarrow> TimerType" where
  "GetTimerType t = m_Type t"

definition GetCurrentStamp :: "hardware \<Rightarrow> Timer \<Rightarrow> ('r, u64) hw" where
  "GetCurrentStamp hw t = (if m_Type t = TSC_TIMER then ReadTSC hw else State_Monad.return 0)"

partial_function (option) Sleep_loop :: "hardware \<Rightarrow> u64 \<Rightarrow> 'r hw_state_scheme \<Rightarrow> 'r hw_state_scheme option" where
  "Sleep_loop hw target s =
     (let (now, s1) = run_state (ReadTSC hw) s in if now < target then Sleep_loop hw target s1 else Some s1)"

definition wait_clock :: "u64 \<Rightarrow> u64 \<Rightarrow> TimeScale \<Rightarrow> timer_error + u64" where
  "wait_clock freq v scale =
     (let sleepSec = to_double (unat (v div TimeScale_code scale))
      in double_to_u64 (double_mult (to_double (unat freq)) sleepSec))"

definition Sleep :: "hardware \<Rightarrow> Timer \<Rightarrow> u64 \<Rightarrow> TimeScale \<Rightarrow> 'r hw_state_scheme \<Rightarrow> (timer_error + 'r hw_state_scheme) option" where
  "Sleep hw t v timeScale s =
     (if m_Type t = TSC_TIMER
      then
        let (begin_clock, s1) = run_state (ReadTSC hw) s
        in case wait_clock (m_Freq t) v timeScale of
             Inl e \<Rightarrow> Some (Inl e)
           | Inr waitClock \<Rightarrow>
               (case Sleep_loop hw (begin_clock + waitClock) s1 of None \<Rightarrow> None | Some s2 \<Rightarrow> Some (Inr s2))
      else Some (Inr s))"

definition Sleep_default :: "hardware \<Rightarrow> Timer \<Rightarrow> u64 \<Rightarrow> 'r hw_state_scheme \<Rightarrow> (timer_error + 'r hw_state_scheme) option" where
  "Sleep_default hw t v s = Sleep hw t v (m_TimeScale t) s"

definition SetTimeScale :: "TimeScale \<Rightarrow> Timer \<Rightarrow> Timer" where
  "SetTimeScale timeScale t = t\<lparr>m_TimeScale := timeScale\<rparr>"

definition StartTimer :: "hardware \<Rightarrow> Timer \<Rightarrow> ('r, Timer) hw" where
  "StartTimer hw t =
     (if m_Type t = TSC_TIMER then do { now \<leftarrow> ReadTSC hw; State_Monad.return (t\<lparr>m_LastStamp := now\<rparr>) }
      else State_Monad.return t)"

definition RestartTimer :: "hardware \<Rightarrow> Timer \<Rightarrow> ('r, Timer) hw" where
  "RestartTimer hw t =
     (if m_Type t = TSC_TIMER then do { now \<leftarrow> ReadTSC hw; State_Monad.return (t\<lparr>m_LastStamp := now\<rparr>) }
      else State_Monad.return t)"

definition GetTimeScale :: "Timer \<Rightarrow> TimeScale" where
  "GetTimeScale t = m_TimeScale t"

definition elapsed_in :: "u64 \<Rightarrow> u64 \<Rightarrow> TimeScale \<Rightarrow> timer_error + u64" where
  "elapsed_in delta freq scale =
     (if freq = 0 then Inl DivideError
      else
        let elapsed = to_double (unat (delta div freq))
        in double_to_u64 (double_mult elapsed (to_double (unat (TimeScale_code scale)))))"

definition StopTimer :: "hardware \<Rightarrow> Timer \<Rightarrow> TimeScale \<Rightarrow> ('r, timer_error + u64) hw" where
  "StopTimer hw t timeScale =
     (if m_Type t = TSC_TIMER
      then do {
        now \<leftarrow> ReadTSC hw;
        let delta = now - m_LastStamp t;
        State_Monad.return (elapsed_in delta (m_Freq t) timeScale)
      }
      else State_Monad.return (Inr 0))"

definition LapTimer :: "hardware \<Rightarrow> Timer \<Rightarrow> TimeScale \<Rightarrow> ('r, timer_error + u64) hw" where
  "LapTimer hw t timeScale =
     (if m_Type t = TSC_TIMER
      then do {
        now \<leftarrow> ReadTSC hw;
        let delta = now - m_LastStamp t;
        State_Monad.return (elapsed_in delta (m_Freq t) timeScale)
      }
      else State_Monad.return (Inr 0))"

definition StopTimer_default :: "hardware \<Rightarrow> Timer \<Rightarrow> ('r, timer_error + u64) hw" where
  "StopTimer_default hw t = StopTimer hw t (m_TimeScale t)"

definition LapTimer_default :: "hardware \<Rightarrow> Timer \<Rightarrow> ('r, timer_error + u64) hw" where
  "LapTimer_default hw t = LapTimer hw t (m_TimeScale t)"

subsection \<open>The time stamp counter object\<close>

record TSC =
  m_Invaliant :: bool
  TSC_m_Freq :: u64

definition InternalIsInvaliantTSC :: "hardware \<Rightarrow> ('r, bool) hw" where
  "InternalIsInvaliantTSC hw = do {
     (a, b, c, d) \<leftarrow> CPUID hw 0x80000007 0;
     State_Monad.return (d AND push_bit 8 1 \<noteq> 0)
   }"

definition TryGetTSCFreq :: "hardware \<Rightarrow> ('r, u64) hw" where
  "TryGetTSCFreq hw = do {
     (a, b, c, d) \<leftarrow> CPUID hw 0x15 0;
     (if a \<noteq> 0 \<and> b \<noteq> 0 \<and> c \<noteq> 0 then State_Monad.return (((ucast c :: u64) * ucast b) div ucast a)
      else do {
        (a, b, c, d) \<leftarrow> CPUID hw 0x16 0;
        let base = a AND 0xFFFF;
        State_Monad.return (if base \<noteq> 0 then (ucast base :: u64) * 1000 * 1000 else 0)
      })
   }"

definition TSC_new :: "hardware \<Rightarrow> ('r, TSC) hw" where
  "TSC_new hw = do {
     inv \<leftarrow> InternalIsInvaliantTSC hw;
     f \<leftarrow> TryGetTSCFreq hw;
     State_Monad.return \<lparr>m_Invaliant = inv, TSC_m_Freq = f\<rparr>
   }"

definition TSC_from_info :: "hardware \<Rightarrow> HardwareClockInfo \<Rightarrow> ('r, TSC) hw" where
  "TSC_from_info hw info = do {
     inv \<leftarrow> InternalIsInvaliantTSC hw;
     State_Monad.return \<lparr>m_Invaliant = inv, TSC_m_Freq = TSCFreq info\<rparr>
   }"

definition IsInvaliantTSC :: "TSC \<Rightarrow> bool" where
  "IsInvaliantTSC t = m_Invaliant t"

definition TSC_GetFrequency :: "TSC \<Rightarrow> u64" where
  "TSC_GetFrequency t = TSC_m_Freq t"

definition TSC_GetCurrentStamp :: "hardware \<Rightarrow> TSC \<Rightarrow> ('r, u64) hw" where
  "TSC_GetCurrentStamp hw t = ReadTSC hw"

definition TSC_Sleep :: "TSC \<Rightarrow> u64 \<Rightarrow> TimeScale \<Rightarrow> ('r, unit) hw" where
  "TSC_Sleep t v timeScale = State_Monad.return ()"

subsection \<open>Lemmas\<close>

lemma to_double_exact [simp]: "n < 2 ^ 53 \<Longrightarrow> to_double n = n"
  by (simp add: to_double_def)

lemma to_double_0 [simp]: "to_double 0 = 0"
  by simp

lemma bit_length_bounds: "n < 2 ^ bit_length n \<and> (0 < n \<longrightarrow> 2 ^ (bit_length n - 1) \<le> n)"
proof (induction n rule: bit_length.induct)
  case (1 n)
  show ?case
  proof (cases "n = 0")
    case True
    then show ?thesis by (simp add: bit_length.simps)
  next
    case False
    have b: "bit_length n = Suc (bit_length (n div 2))" using False by (simp add: bit_length.simps [of n])
    have "n div 2 < 2 ^ bit_length (n div 2)" using 1 False by blast
    then have u: "n < 2 ^ bit_length n" unfolding b by simp
    have "2 ^ bit_length (n div 2) \<le> n"
    proof (cases "n div 2 = 0")
      case True
      then show ?thesis using False by (simp add: bit_length.simps [of 0])
    next
      case nz: False
      then have l: "2 ^ (bit_length (n div 2) - 1) \<le> n div 2" using 1 False by blast
      have "bit_length (n div 2) \<noteq> 0" using nz by (simp add: bit_length.simps [of "n div 2"])
      then have "2 ^ bit_length (n div 2) = (2 :: nat) * 2 ^ (bit_length (n div 2) - 1)"
        by (metis power_eq_if)
      then show ?thesis using l by simp
    qed
    then show ?thesis using u b by simp
  qed
qed

text \<open>Rounding is off by at most half a unit in the last of 53 places.\<close>

lemma to_double_error:
  "to_double n \<le> n + n div 2 ^ 53 \<and> n \<le> to_double n + n div 2 ^ 53"
proof (cases "n < 2 ^ 53")
  case False
  define k where "k = bit_length n - 53"
  define q where "q = n div 2 ^ k"
  define r where "r = n mod 2 ^ k"
  have bl: "53 < bit_length n"
  proof (rule ccontr)
    assume "\<not> 53 < bit_length n"
    then have "(2 :: nat) ^ bit_length n \<le> 2 ^ 53" by (intro power_increasing) simp_all
    then show False using False bit_length_bounds [of n] by linarith
  qed
  then have k: "0 < k" "bit_length n = k + 53" by (simp_all add: k_def)
  have n: "n = q * 2 ^ k + r" unfolding q_def r_def by (rule div_mult_mod_eq [symmetric])
  have rk: "r < 2 ^ k" by (simp add: r_def)
  have half: "(2 :: nat) ^ k = 2 * 2 ^ (k - 1)" using k(1) by (metis power_eq_if neq0_conv)
  have "0 < n" using False by (metis gr0I zero_less_numeral zero_less_power)
  then have "(2 :: nat) ^ (k + 52) \<le> n" using bit_length_bounds [of n] k(2) by (simp add: add.commute)
  then have "(2 :: nat) ^ (k - 1) * 2 ^ 53 \<le> n" using half by (simp add: power_add)
  then have h: "(2 :: nat) ^ (k - 1) \<le> n div 2 ^ 53" by (subst less_eq_div_iff_mult_less_eq) simp_all
  have td: "to_double n = (if r > 2 ^ (k - 1) \<or> (r = 2 ^ (k - 1) \<and> odd q) then q + 1 else q) * 2 ^ k"
    using False by (simp add: to_double_def Let_def k_def [symmetric] q_def [symmetric] r_def [symmetric])
  show ?thesis
  proof (cases "r > 2 ^ (k - 1) \<or> (r = 2 ^ (k - 1) \<and> odd q)")
    case True
    then have "to_double n = q * 2 ^ k + 2 ^ k" "2 ^ (k - 1) \<le> r" by (auto simp: td)
    then show ?thesis using n h rk half by simp
  next
    case False
    then have "to_double n = q * 2 ^ k" "r \<le> 2 ^ (k - 1)" by (auto simp: td not_less)
    then show ?thesis using n h by simp
  qed
qed simp

lemma Sleep_loop_returns:
  assumes "tsc_advances hw m" and "unat target + m < 2 ^ 64"
  shows "\<exists>s' now. Sleep_loop hw target s = Some s' \<and> last (trace s') = EvRdTsc now \<and> target \<le> now"
proof (induction "unat target - unat (hw_tsc hw (trace s))" arbitrary: s rule: less_induct)
  case less
  let ?now = "hw_tsc hw (trace s)" and ?s1 = "s\<lparr>trace := trace s @ [EvRdTsc (hw_tsc hw (trace s))]\<rparr>"
  show ?case
  proof (cases "target \<le> ?now")
    case True
    then have "\<not> ?now < target" by simp
    then have "Sleep_loop hw target s = Some ?s1" by (subst Sleep_loop.simps) (simp add: hw_run)
    then show ?thesis using True by auto
  next
    case False
    then have lt: "unat ?now < unat target" by (simp add: not_le word_less_nat_alt)
    then have "unat ?now < unat (hw_tsc hw (trace ?s1))"
      using tsc_step [OF assms(1), of "trace s" 0 "unat target"] assms(2) by simp
    then have "unat target - unat (hw_tsc hw (trace ?s1)) < unat target - unat ?now" using lt by (simp add: diff_less_mono2)
    moreover have "?now < target" using False by simp
    ultimately show ?thesis using less.hyps [of ?s1] by (subst Sleep_loop.simps) (simp add: hw_run)
  qed
qed

lemma double_to_u64_small: "x < 2 ^ 53 \<Longrightarrow> double_to_u64 x = Inr (of_nat x)"
  by (simp add: double_to_u64_def)

lemma TimeScale_code_bounds: "TimeScale_code sc \<noteq> 0" "unat (TimeScale_code sc) < 2 ^ 53"
  by (cases sc; simp)+

lemma wait_clock_eq:
  assumes "unat freq * (unat v div unat (TimeScale_code sc)) < 2 ^ 53"
  shows "wait_clock freq v sc = Inr (of_nat (unat freq * (unat v div unat (TimeScale_code sc))))"
proof -
  let ?q = "unat v div unat (TimeScale_code sc)"
  have d: "unat (v div TimeScale_code sc) = ?q" by (simp add: unat_div)
  show ?thesis
  proof (cases "?q = 0 \<or> unat freq = 0")
    case True
    then show ?thesis
      by (auto simp: wait_clock_def d Let_def double_mult_def double_to_u64_def unat_eq_zero)
  next
    case False
    then have "unat freq \<le> unat freq * ?q" "?q \<le> unat freq * ?q" by simp_all
    then have "unat freq < 2 ^ 53" "?q < 2 ^ 53" using assms by linarith+
    then show ?thesis using assms by (simp add: wait_clock_def d Let_def double_mult_def double_to_u64_def)
  qed
qed

lemma elapsed_in_eq:
  assumes "freq \<noteq> 0" and "unat delta div unat freq * unat (TimeScale_code sc) < 2 ^ 53"
  shows "elapsed_in delta freq sc = Inr (of_nat (unat delta div unat freq * unat (TimeScale_code sc)))"
proof -
  have "unat delta div unat freq \<le> unat delta div unat freq * unat (TimeScale_code sc)"
    using TimeScale_code_bounds(1) [of sc] by (simp add: unat_gt_0 Suc_leI)
  then have "unat delta div unat freq < 2 ^ 53" using assms(2) by linarith
  then show ?thesis
    using assms TimeScale_code_bounds(2) [of sc]
    by (simp add: elapsed_in_def Let_def unat_div double_mult_def double_to_u64_def)
qed

subsection \<open>Properties\<close>

text \<open>
  C36. Sleeping ends, and not too early: if the time stamp counter advances by at most \<open>m\<close> cycles between two
  readings and does not wrap during the sleep, \<open>Timer::Sleep\<close> returns, and the last reading is at least the
  first one plus the frequency times the whole seconds asked for. The seconds are computed by an integer
  division, so any request below one second waits for no time at all.
\<close>

theorem Sleep_correct:
  assumes "m_Type t = TSC_TIMER" and "tsc_advances hw m"
    and "w = unat (m_Freq t) * (unat v div unat (TimeScale_code sc))" and "w < 2 ^ 53"
    and "unat (hw_tsc hw (trace s)) + w + m < 2 ^ 64"
  shows "\<exists>s' now. Sleep hw t v sc s = Some (Inr s') \<and> last (trace s') = EvRdTsc now \<and>
    unat (hw_tsc hw (trace s)) + w \<le> unat now \<and> (unat v < unat (TimeScale_code sc) \<longrightarrow> w = 0)"
proof -
  let ?b = "hw_tsc hw (trace s)" and ?s1 = "s\<lparr>trace := trace s @ [EvRdTsc (hw_tsc hw (trace s))]\<rparr>"
  have uw: "unat (of_nat w :: u64) = w" using assms(4) by (intro unat_of_nat_nowrap) simp
  then have ub: "unat (?b + of_nat w) = unat ?b + w" using assms(5) by (subst unat_add_nowrap) simp_all
  then have "unat (?b + of_nat w) + m < 2 ^ 64" using assms(5) by simp
  from Sleep_loop_returns [OF assms(2) this, of ?s1] obtain s' now where
    s': "Sleep_loop hw (?b + of_nat w) ?s1 = Some s'" "last (trace s') = EvRdTsc now" "?b + of_nat w \<le> now" by blast
  have "wait_clock (m_Freq t) v sc = Inr (of_nat w)" using wait_clock_eq [of "m_Freq t" v sc] assms(3,4) by simp
  then have "Sleep hw t v sc s = Some (Inr s')" using assms(1) s'(1) by (simp add: Sleep_def hw_run)
  moreover have "unat ?b + w \<le> unat now" using s'(3) ub by (simp add: word_le_nat_alt)
  ultimately show ?thesis using s'(2) assms(3) by auto
qed

theorem Sleep_correct_witness:
  "\<exists>s' now. Sleep sample_hw \<lparr>m_Freq = 1000, m_LastStamp = 0, m_TimeScale = MILLISECONDS, m_Type = TSC_TIMER\<rparr> 2 SECONDS
     \<lparr>trace = []\<rparr> = Some (Inr s') \<and> last (trace s') = EvRdTsc now \<and> 2000 \<le> unat now"
  using Sleep_correct [of "\<lparr>m_Freq = 1000, m_LastStamp = 0, m_TimeScale = MILLISECONDS, m_Type = TSC_TIMER\<rparr>" sample_hw 1 2000 2
      SECONDS "\<lparr>trace = []\<rparr>", OF _ sample_tsc]
  by (fastforce simp: sample_hw_def)

text \<open>
  Measuring: the timer reports the number of whole seconds between the two readings of the counter,
  scaled to the unit asked for, as long as the result is below \<open>2 ^ 53\<close>; a frequency of zero is a division
  error. \<open>LapTimer\<close> and \<open>StopTimer\<close> agree, and the difference of the readings is right across a wrap of
  the counter.
\<close>

lemma StopTimer_correct:
  assumes "m_Type t = TSC_TIMER" and "d = unat (hw_tsc hw (trace s) - m_LastStamp t)"
    and "d div unat (m_Freq t) * unat (TimeScale_code sc) < 2 ^ 53"
  shows "fst (run_state (StopTimer hw t sc) s) =
      (if m_Freq t = 0 then Inl DivideError
       else Inr (of_nat (d div unat (m_Freq t) * unat (TimeScale_code sc)))) \<and>
    run_state (LapTimer hw t sc) s = run_state (StopTimer hw t sc) s"
proof -
  have "fst (run_state (StopTimer hw t sc) s) = elapsed_in (hw_tsc hw (trace s) - m_LastStamp t) (m_Freq t) sc"
    using assms(1) by (simp add: StopTimer_def hw_run)
  moreover have "elapsed_in x 0 sc = Inl DivideError" for x by (simp add: elapsed_in_def)
  ultimately show ?thesis
    using elapsed_in_eq [of "m_Freq t" "hw_tsc hw (trace s) - m_LastStamp t" sc] assms
    by (auto simp: LapTimer_def StopTimer_def)
qed

lemma StopTimer_correct_example:
  "fst (run_state (StopTimer (sample_hw\<lparr>hw_tsc := \<lambda>_. 2999\<rparr>)
     \<lparr>m_Freq = 1000, m_LastStamp = 0, m_TimeScale = MILLISECONDS, m_Type = TSC_TIMER\<rparr> MILLISECONDS) \<lparr>trace = []\<rparr>) = Inr 2000"
  using StopTimer_correct [of "\<lparr>m_Freq = 1000, m_LastStamp = 0, m_TimeScale = MILLISECONDS, m_Type = TSC_TIMER\<rparr>" 2999
      "sample_hw\<lparr>hw_tsc := \<lambda>_. 2999\<rparr>" "\<lparr>trace = []\<rparr>" MILLISECONDS] by simp

end
