(* ===== verification/Paging.thy ===== *)
theory Paging
  imports PageAllocator
begin

text \<open>
  \<open>Kernel/Arch/x86_64/Paging/Paging.cpp\<close>: the identity map of physical memory with 2 MiB pages.
  \<open>BuildIdentityMap2M\<close> is modelled with the page allocator it is handed (\<open>IPageAllocator&\<close>) as a
  parameter: \<open>alloc\<close> is its \<open>AllocatePage()\<close>, on a state of its own. The tables are built in the
  byte-addressed \<open>memory\<close>. \<open>const MemoryInfo*\<close> is an option (\<open>None\<close> is \<open>nullptr\<close>) whose target is not
  part of the pages that are written.

  The specification is the processor's four-level walk \<open>translate\<close>, written here from the architecture:
  it is not code of the kernel. The lemmas on the builder are proved inside the locale
  \<open>page_allocator\<close>, for every allocator with that contract.
\<close>

unbundle bit_operations_syntax

subsection \<open>The operations\<close>

definition PG_P :: u64 where "PG_P = push_bit 0 1"
definition PG_RW :: u64 where "PG_RW = push_bit 1 1"
definition PG_PS :: u64 where "PG_PS = push_bit 7 1"
definition PG_PWT :: u64 where "PG_PWT = push_bit 3 1"
definition PG_PCD :: u64 where "PG_PCD = push_bit 4 1"
definition PG_ADDR_MASK :: u64 where "PG_ADDR_MASK = 0x000FFFFFFFFFF000"

definition PAGE_4K :: u64 where "PAGE_4K = 0x1000"
definition PAGE_2M :: u64 where "PAGE_2M = 0x200000"
definition PAGE_1G :: u64 where "PAGE_1G = 0x40000000"
definition ENTIRIES :: u64 where "ENTIRIES = 512"

definition AlignUp :: "u64 \<Rightarrow> u64 \<Rightarrow> u64" where
  "AlignUp addr align = (addr + align - 1) AND NOT (align - 1)"

definition CalcMaxPhys :: "MemoryInfo \<Rightarrow> u64" where
  "CalcMaxPhys info =
     (let step = (\<lambda>R i max. let e = Base (R i) + Length (R i) in if e > max then e else max);
          m1 = fold (step (FreeMemory info)) [0..<unat (FreeRegionCount info)] 0
      in fold (step (ReservedMemory info)) [0..<unat (ReservedRegionCount info)] m1)"

definition IsMMIORegion :: "u64 \<Rightarrow> MemoryInfo \<Rightarrow> bool" where
  "IsMMIORegion phys info =
     list_ex (\<lambda>i. let base = Base (ReservedMemory info i); e = base + Length (ReservedMemory info i)
                  in phys \<ge> base \<and> phys < e)
       [0..<unat (ReservedRegionCount info)]"

function BuildPD_loop :: "MemoryInfo \<Rightarrow> u64 \<Rightarrow> u64 \<Rightarrow> u64 \<Rightarrow> nat \<Rightarrow> memory \<Rightarrow> memory" where
  "BuildPD_loop info lim base pd i m =
     (if i < unat ENTIRIES
      then
        let phys = base + of_nat i * PAGE_2M
        in if phys \<ge> lim then m
           else
             let flags = PG_P OR PG_RW OR PG_PS;
                 flags' = (if IsMMIORegion phys info then flags OR (PG_PCD OR PG_PWT) else flags);
                 entry = (phys AND 0xFFFFFFFFFFE00000) OR flags'
             in BuildPD_loop info lim base pd (i + 1) (write64 m (pd + 8 * of_nat i) entry)
      else m)"
  by pat_completeness auto
termination
  by (relation "measure (\<lambda>(info, lim, base, pd, i, m). unat ENTIRIES - i)") auto

function BuildPDPT_loop ::
  "('s \<Rightarrow> u64 \<times> 's) \<Rightarrow> MemoryInfo \<Rightarrow> u64 \<Rightarrow> u64 \<Rightarrow> nat \<Rightarrow> nat \<Rightarrow> memory \<Rightarrow> 's \<Rightarrow> bool \<times> memory \<times> 's"
where
  "BuildPDPT_loop alloc info lim pdpt gibCount g m s =
     (if g < gibCount
      then
        let (pd, s1) = alloc s
        in if pd = 0 then (False, m, s1)
           else
             let m1 = FillMemory m pd PAGE_4K 0;
                 m2 = write64 m1 (pdpt + 8 * of_nat g) ((pd AND PG_ADDR_MASK) OR PG_P OR PG_RW);
                 base = of_nat g * PAGE_1G;
                 m3 = BuildPD_loop info lim base pd 0 m2
             in BuildPDPT_loop alloc info lim pdpt gibCount (g + 1) m3 s1
      else (True, m, s))"
  by pat_completeness auto
termination
  by (relation "measure (\<lambda>(alloc, info, lim, pdpt, gibCount, g, m, s). gibCount - g)") auto

definition BuildIdentityMap2M ::
  "('s \<Rightarrow> u64 \<times> 's) \<Rightarrow> MemoryInfo option \<Rightarrow> u64 \<Rightarrow> memory \<Rightarrow> 's \<Rightarrow> bool \<times> u64 \<times> memory \<times> 's"
where
  "BuildIdentityMap2M alloc info0 outCR3Phys m s =
     (case info0 of
        None \<Rightarrow> (False, outCR3Phys, m, s)
      | Some info \<Rightarrow>
          let maxPhys = CalcMaxPhys info;
              lim = AlignUp maxPhys PAGE_2M;
              gibCount = AlignUp maxPhys PAGE_1G div PAGE_1G
          in if gibCount > ENTIRIES then (False, outCR3Phys, m, s)
             else
               let (pml4, s1) = alloc s
               in if pml4 = 0 then (False, outCR3Phys, m, s1)
                  else
                    let (pdpt, s2) = alloc s1
                    in if pml4 = 0 then (False, outCR3Phys, m, s2)
                       else
                         let m1 = write64 m (pml4 + 8 * 0) ((pdpt AND PG_ADDR_MASK) OR PG_P OR PG_RW);
                             (r, m2, s3) = BuildPDPT_loop alloc info lim pdpt (unat gibCount) 0 m1 s2
                         in if r then (True, pml4, m2, s3) else (False, outCR3Phys, m2, s3))"

subsection \<open>The page walk\<close>

definition table_index :: "nat \<Rightarrow> u64 \<Rightarrow> u64" where
  "table_index level va = drop_bit (12 + 9 * level) va AND 0x1FF"

definition table_entry :: "memory \<Rightarrow> u64 \<Rightarrow> nat \<Rightarrow> u64 \<Rightarrow> u64" where
  "table_entry m tbl level va = read64 m ((tbl AND PG_ADDR_MASK) + 8 * table_index level va)"

definition translate :: "memory \<Rightarrow> u64 \<Rightarrow> u64 \<Rightarrow> u64 option" where
  "translate m cr3 va =
     (let pml4e = table_entry m cr3 3 va
      in if \<not> bit pml4e 0 then None
         else
           let pdpte = table_entry m pml4e 2 va
           in if \<not> bit pdpte 0 then None
              else if bit pdpte 7 then Some ((pdpte AND 0x000FFFFFC0000000) OR (va AND 0x3FFFFFFF))
              else
                let pde = table_entry m pdpte 1 va
                in if \<not> bit pde 0 then None
                   else if bit pde 7 then Some ((pde AND 0x000FFFFFFFE00000) OR (va AND 0x1FFFFF))
                   else
                     let pte = table_entry m pde 0 va
                     in if \<not> bit pte 0 then None
                        else Some ((pte AND PG_ADDR_MASK) OR (va AND 0xFFF)))"

subsection \<open>Tables in memory\<close>

text \<open>Entry \<open>i\<close> of the table in page \<open>p\<close>; \<open>same_except\<close> is the frame condition of a routine that only writes some pages.\<close>

abbreviation entry_at :: "nat \<Rightarrow> nat \<Rightarrow> u64" where
  "entry_at p i \<equiv> page_addr p + 8 * of_nat i"

definition same_except :: "nat set \<Rightarrow> memory \<Rightarrow> memory \<Rightarrow> bool" where
  "same_except P m m' \<longleftrightarrow> (\<forall>x. unat x div 4096 \<notin> P \<longrightarrow> m' x = m x)"

lemma same_except_refl [simp]: "same_except P m m"
  by (simp add: same_except_def)

lemma same_except_trans: "same_except P m m' \<Longrightarrow> same_except Q m' m'' \<Longrightarrow> same_except (P \<union> Q) m m''"
  by (simp add: same_except_def)

lemma same_except_mono: "same_except P m m' \<Longrightarrow> P \<subseteq> Q \<Longrightarrow> same_except Q m m'"
  by (auto simp: same_except_def)

lemma unat_entry_at:
  assumes "p < 4503599627370496" and "i < 512" and "k < 8"
  shows "unat (entry_at p i + of_nat k) = p * 4096 + 8 * i + k"
proof -
  have e: "entry_at p i + of_nat k = of_nat (p * 4096 + 8 * i + k)"
    by (simp add: page_addr_def algebra_simps)
  show ?thesis unfolding e by (rule unat_of_nat_nowrap) (use assms in simp)
qed

lemma unat_entry_at_0:
  "p < 4503599627370496 \<Longrightarrow> i < 512 \<Longrightarrow> unat (entry_at p i) = p * 4096 + 8 * i"
  using unat_entry_at [of p i 0] by simp

lemma entry_page:
  assumes "p < 4503599627370496" and "i < 512" and "k < 8"
  shows "unat (entry_at p i + of_nat k) div 4096 = p"
  unfolding unat_entry_at [OF assms] using assms by (intro div_nat_eqI) auto

lemma entry_apart:
  assumes "p < 4503599627370496" "q < 4503599627370496" "i < 512" "j < 512" "p \<noteq> q \<or> i \<noteq> j"
  shows "ranges_apart (entry_at p i) 8 (entry_at q j) 8"
proof (rule ranges_apartI)
  have "p * 4096 + 8 * i + 8 \<le> q * 4096 + 8 * j \<or> q * 4096 + 8 * j + 8 \<le> p * 4096 + 8 * i"
    using assms(3-5) by (cases p q rule: linorder_cases) auto
  with assms show "unat (entry_at p i) + 8 \<le> unat (entry_at q j) \<or> unat (entry_at q j) + 8 \<le> unat (entry_at p i)"
    by (simp add: unat_entry_at_0)
qed (use assms in \<open>simp_all add: unat_entry_at_0\<close>)

lemma write64_same_except:
  assumes "p < 4503599627370496" and "i < 512"
  shows "same_except {p} m (write64 m (entry_at p i) v)"
  unfolding same_except_def write64_def
proof (intro allI impI write_bytes_other)
  fix x :: u64 and k assume "unat x div 4096 \<notin> {p}" "k < length (le_bytes 8 v)"
  then show "x \<noteq> entry_at p i + of_nat k" using entry_page [OF assms, of k] by auto
qed

lemma read64_same_except:
  assumes "same_except P m m'" and "p \<notin> P" and "p < 4503599627370496" and "i < 512"
  shows "read64 m' (entry_at p i) = read64 m (entry_at p i)"
proof -
  have "read_bytes m' (entry_at p i) 8 = read_bytes m (entry_at p i) 8"
  proof (rule nth_equalityI)
    fix k assume "k < length (read_bytes m' (entry_at p i) 8)"
    with entry_page [OF assms(3,4), of k] assms(1,2)
    show "read_bytes m' (entry_at p i) 8 ! k = read_bytes m (entry_at p i) 8 ! k"
      by (simp add: same_except_def)
  qed simp
  then show ?thesis by (simp add: read64_def)
qed

lemma zeroed_page:
  assumes "p < 4503599627370496"
  shows "same_except {p} m (FillMemory m (page_addr p) PAGE_4K 0)"
    and "i < 512 \<Longrightarrow> read64 (FillMemory m (page_addr p) PAGE_4K 0) (entry_at p i) = 0"
proof -
  have inside: "unat (x - page_addr p) < 4096 \<longleftrightarrow> unat x div 4096 = p" for x
  proof
    assume a: "unat (x - page_addr p) < 4096"
    have "unat x = unat (page_addr p + (x - page_addr p))" by simp
    also have "\<dots> = p * 4096 + unat (x - page_addr p)"
      using a assms by (subst unat_add_nowrap) simp_all
    finally show "unat x div 4096 = p" using a by (intro div_nat_eqI) auto
  next
    assume "unat x div 4096 = p"
    then have "p * 4096 \<le> unat x" "unat x < p * 4096 + 4096" by auto
    then show "unat (x - page_addr p) < 4096"
      using assms by (subst unat_sub) (simp_all add: word_le_nat_alt)
  qed
  show "same_except {p} m (FillMemory m (page_addr p) PAGE_4K 0)"
    by (simp add: same_except_def FillMemory_memory inside PAGE_4K_def)
  assume i: "i < 512"
  have "read_bytes (FillMemory m (page_addr p) PAGE_4K 0) (entry_at p i) 8 = replicate 8 0"
    using entry_page [OF assms i] by (intro nth_equalityI) (simp_all add: FillMemory_memory inside PAGE_4K_def)
  then show "read64 (FillMemory m (page_addr p) PAGE_4K 0) (entry_at p i) = 0"
    by (simp add: read64_def numeral_eq_Suc)
qed

subsection \<open>One page directory\<close>

definition pde :: "MemoryInfo \<Rightarrow> u64 \<Rightarrow> u64" where
  "pde info phys = (phys AND 0xFFFFFFFFFFE00000) OR
     (if IsMMIORegion phys info then PG_P OR PG_RW OR PG_PS OR (PG_PCD OR PG_PWT) else PG_P OR PG_RW OR PG_PS)"

declare BuildPD_loop.simps [simp del] BuildPDPT_loop.simps [simp del]

lemma BuildPD_loop_step:
  "BuildPD_loop info lim base pd i m =
     (if i < 512 \<and> base + of_nat i * PAGE_2M < lim
      then BuildPD_loop info lim base pd (Suc i) (write64 m (pd + 8 * of_nat i) (pde info (base + of_nat i * PAGE_2M)))
      else m)"
  by (subst BuildPD_loop.simps) (auto simp: ENTIRIES_def pde_def Let_def or.assoc not_le)

lemma BuildPD_loop_same_except:
  assumes "p < 4503599627370496"
  shows "same_except {p} m (BuildPD_loop info lim base (page_addr p) i m)"
proof (induction "512 - i" arbitrary: i m rule: less_induct)
  case less
  show ?case
  proof (cases "i < 512 \<and> base + of_nat i * PAGE_2M < lim")
    case True
    let ?w = "write64 m (entry_at p i) (pde info (base + of_nat i * PAGE_2M))"
    have "same_except {p} ?w (BuildPD_loop info lim base (page_addr p) (Suc i) ?w)"
      using True by (intro less.hyps) auto
    with write64_same_except [OF assms, of i m] True show ?thesis
      by (subst BuildPD_loop_step) (auto simp: same_except_def)
  next
    case False
    then show ?thesis by (subst BuildPD_loop_step) auto
  qed
qed

lemma BuildPD_loop_entry:
  assumes "p < 4503599627370496" and "j < 512"
  shows "read64 (BuildPD_loop info lim base (page_addr p) i m) (entry_at p j) =
    (if i \<le> j \<and> (\<forall>k. i \<le> k \<and> k \<le> j \<longrightarrow> base + of_nat k * PAGE_2M < lim)
     then pde info (base + of_nat j * PAGE_2M) else read64 m (entry_at p j))"
proof (induction "512 - i" arbitrary: i m rule: less_induct)
  case less
  show ?case
  proof (cases "i < 512 \<and> base + of_nat i * PAGE_2M < lim")
    case True
    let ?w = "write64 m (entry_at p i) (pde info (base + of_nat i * PAGE_2M))"
    have IH: "read64 (BuildPD_loop info lim base (page_addr p) (Suc i) ?w) (entry_at p j) =
      (if Suc i \<le> j \<and> (\<forall>k. Suc i \<le> k \<and> k \<le> j \<longrightarrow> base + of_nat k * PAGE_2M < lim)
       then pde info (base + of_nat j * PAGE_2M) else read64 ?w (entry_at p j))"
      using True by (intro less.hyps) auto
    have w: "read64 ?w (entry_at p j) = (if j = i then pde info (base + of_nat i * PAGE_2M) else read64 m (entry_at p j))"
      using assms True by (auto intro!: read64_write64_apart entry_apart)
    have "(\<forall>k. i \<le> k \<and> k \<le> j \<longrightarrow> base + of_nat k * PAGE_2M < lim) \<longleftrightarrow>
        (\<forall>k. Suc i \<le> k \<and> k \<le> j \<longrightarrow> base + of_nat k * PAGE_2M < lim)"
      using True by (metis Suc_leI Suc_leD le_neq_implies_less)
    then show ?thesis using True by (subst BuildPD_loop_step) (auto simp: IH w)
  next
    case False
    then show ?thesis using assms by (subst BuildPD_loop_step) (auto dest: le_less_trans)
  qed
qed

text \<open>Physical address of slot \<open>i\<close> of directory \<open>g\<close>, and the entry the builder leaves there.\<close>

definition slot_phys :: "nat \<Rightarrow> nat \<Rightarrow> u64" where
  "slot_phys g i = of_nat g * PAGE_1G + of_nat i * PAGE_2M"

definition slot_entry :: "MemoryInfo \<Rightarrow> u64 \<Rightarrow> nat \<Rightarrow> nat \<Rightarrow> u64" where
  "slot_entry info lim g i = (if slot_phys g i < lim then pde info (slot_phys g i) else 0)"

lemma unat_slot_phys:
  assumes "g < 512" and "i < 512"
  shows "unat (slot_phys g i) = g * 1073741824 + i * 2097152"
proof -
  have e: "slot_phys g i = of_nat (g * 1073741824 + i * 2097152)"
    by (simp add: slot_phys_def PAGE_1G_def PAGE_2M_def)
  show ?thesis unfolding e by (rule unat_of_nat_nowrap) (use assms in simp)
qed

lemma directory_entries:
  assumes "p < 4503599627370496" and "g < 512" and "j < 512"
    and "\<And>i. i < 512 \<Longrightarrow> read64 m (entry_at p i) = 0"
  shows "read64 (BuildPD_loop info lim (of_nat g * PAGE_1G) (page_addr p) 0 m) (entry_at p j) = slot_entry info lim g j"
proof -
  have "slot_phys g k \<le> slot_phys g j" if "k \<le> j" for k
    using that assms by (simp add: word_le_nat_alt unat_slot_phys)
  then have "(\<forall>k. 0 \<le> k \<and> k \<le> j \<longrightarrow> slot_phys g k < lim) \<longleftrightarrow> slot_phys g j < lim"
    by (meson order.strict_trans1 le_refl zero_le)
  with assms show ?thesis
    by (simp add: BuildPD_loop_entry slot_entry_def slot_phys_def)
qed

subsection \<open>The whole map, for any page allocator\<close>

definition table_ref :: "nat \<Rightarrow> u64" where
  "table_ref p = (page_addr p AND PG_ADDR_MASK) OR PG_P OR PG_RW"

definition directory_of :: "MemoryInfo \<Rightarrow> u64 \<Rightarrow> memory \<Rightarrow> nat \<Rightarrow> nat \<Rightarrow> nat \<Rightarrow> bool" where
  "directory_of info lim m P j q \<longleftrightarrow>
     read64 m (entry_at P j) = table_ref q \<and> (\<forall>i<512. read64 m (entry_at q i) = slot_entry info lim j i)"

lemma directory_step:
  assumes "P \<noteq> q" and "P < TOTAL_PAGES" and "q < TOTAL_PAGES" and "g < 512"
    and "m2 = write64 (FillMemory m (page_addr q) PAGE_4K 0) (entry_at P g) (table_ref q)"
    and "m3 = BuildPD_loop info lim (of_nat g * PAGE_1G) (page_addr q) 0 m2"
  shows "same_except {P, q} m m3" and "directory_of info lim m3 P g q"
    and "j < 512 \<Longrightarrow> j \<noteq> g \<Longrightarrow> read64 m3 (entry_at P j) = read64 m (entry_at P j)"
proof -
  have lt: "P < 4503599627370496" "q < 4503599627370496" using assms(2,3) by auto
  let ?m1 = "FillMemory m (page_addr q) PAGE_4K 0"
  note s1 = zeroed_page(1) [OF lt(2), of m] and z = zeroed_page(2) [OF lt(2), of _ m]
  have s2: "same_except {P} ?m1 m2" unfolding assms(5) by (rule write64_same_except [OF lt(1) assms(4)])
  have s3: "same_except {q} m2 m3" unfolding assms(6) by (rule BuildPD_loop_same_except [OF lt(2)])
  show "same_except {P, q} m m3" using s1 s2 s3 by (auto simp: same_except_def)
  have "read64 m2 (entry_at q i) = 0" if "i < 512" for i
    using read64_same_except [OF s2 _ lt(2) that] z [OF that] assms(1) by simp
  then have "\<forall>i<512. read64 m3 (entry_at q i) = slot_entry info lim g i"
    unfolding assms(6) using lt assms(4) by (simp add: directory_entries)
  moreover have P: "read64 m3 (entry_at P j) = read64 m2 (entry_at P j)" if "j < 512" for j
    using read64_same_except [OF s3 _ lt(1) that] assms(1) by simp
  ultimately show "directory_of info lim m3 P g q"
    using assms(4) by (simp add: directory_of_def assms(5))
  show "read64 m3 (entry_at P j) = read64 m (entry_at P j)" if "j < 512" "j \<noteq> g"
  proof -
    have "read64 m2 (entry_at P j) = read64 ?m1 (entry_at P j)"
      unfolding assms(5) using lt assms(4) that by (intro read64_write64_apart entry_apart) auto
    with P [OF that(1)] read64_same_except [OF s1 _ lt(1) that(1)] assms(1) show ?thesis by simp
  qed
qed

lemma directory_of_same_except:
  assumes "directory_of info lim m P j q" and "same_except X m m'" and "q \<notin> X" and "q < TOTAL_PAGES"
    and "read64 m' (entry_at P j) = read64 m (entry_at P j)"
  shows "directory_of info lim m' P j q"
  using assms read64_same_except [OF assms(2,3)] by (auto simp: directory_of_def)

lemma AlignUp_power_of_two:
  assumes "al = 2 ^ n" and "n < 64" and "unat addr + (2 ^ n - 1) < 2 ^ 64"
  shows "unat (AlignUp addr al) = (unat addr + (2 ^ n - 1)) div 2 ^ n * 2 ^ n"
proof -
  have m: "al - 1 = mask n" using assms by (simp add: mask_eq_exp_minus_1)
  have "unat (mask n :: u64) = 2 ^ n - 1" using assms(2)
    by (simp add: mask_eq_exp_minus_1 unat_sub word_le_nat_alt unat_2_power)
  then have "unat (addr + mask n) = unat addr + (2 ^ n - 1)" using assms(3) by (subst unat_add_nowrap) auto
  moreover have "AlignUp addr al = (addr + mask n) AND NOT (mask n)"
    using m by (simp add: AlignUp_def algebra_simps)
  ultimately show ?thesis by (simp add: and_not_mask_eq_div)
qed

definition gib_count :: "MemoryInfo \<Rightarrow> nat" where
  "gib_count info = (unat (CalcMaxPhys info) + 1073741823) div 1073741824"

lemma limits:
  assumes "unat (CalcMaxPhys info) \<le> 549755813888"
  shows "unat (AlignUp (CalcMaxPhys info) PAGE_2M) = (unat (CalcMaxPhys info) + 2097151) div 2097152 * 2097152"
    and "unat (AlignUp (CalcMaxPhys info) PAGE_1G div PAGE_1G) = gib_count info"
    and "gib_count info \<le> 512"
    and "unat (AlignUp (CalcMaxPhys info) PAGE_2M) \<le> gib_count info * 1073741824"
proof -
  show 2: "unat (AlignUp (CalcMaxPhys info) PAGE_2M) = (unat (CalcMaxPhys info) + 2097151) div 2097152 * 2097152"
    using AlignUp_power_of_two [of PAGE_2M 21 "CalcMaxPhys info"] assms by (simp add: PAGE_2M_def)
  show "unat (AlignUp (CalcMaxPhys info) PAGE_1G div PAGE_1G) = gib_count info"
    using AlignUp_power_of_two [of PAGE_1G 30 "CalcMaxPhys info"] assms
    by (simp add: PAGE_1G_def unat_div gib_count_def)
  have "gib_count info < 513" unfolding gib_count_def using assms by (subst div_less_iff_less_mult) auto
  then show "gib_count info \<le> 512" by simp
  have "(unat (CalcMaxPhys info) + 1073741823) div 1073741824 < gib_count info + 1" by (simp add: gib_count_def)
  then have "unat (CalcMaxPhys info) + 1073741823 < (gib_count info + 1) * 1073741824"
    by (subst (asm) div_less_iff_less_mult) simp_all
  then have "unat (CalcMaxPhys info) \<le> gib_count info * 1073741824" by simp
  then have "unat (CalcMaxPhys info) + 2097151 < (gib_count info * 512 + 1) * 2097152" by simp
  then have "(unat (CalcMaxPhys info) + 2097151) div 2097152 < gib_count info * 512 + 1"
    by (subst div_less_iff_less_mult) simp_all
  then show "unat (AlignUp (CalcMaxPhys info) PAGE_2M) \<le> gib_count info * 1073741824" using 2 by simp
qed

subsection \<open>Bits of the entries\<close>

lemma and_mask_range:
  fixes w :: u64
  assumes "unat w < 2 ^ k" and "2 ^ n dvd unat w"
  shows "w AND (mask k AND NOT (mask n)) = w"
proof -
  have "unat (w AND NOT (mask n)) = unat w" using assms(2) by (simp add: and_not_mask_eq_div)
  then have "w AND NOT (mask n) = w" by (simp add: word_unat_eq_iff)
  moreover have "w AND mask k = w"
    using assms(1) by (simp add: take_bit_eq_mask [symmetric] word_unat_eq_iff unsigned_take_bit_eq take_bit_nat_eq_self)
  ultimately show ?thesis by (metis and.assoc)
qed

lemma PG_ADDR_MASK_eq: "PG_ADDR_MASK = mask 52 AND NOT (mask 12)"
  by (simp add: PG_ADDR_MASK_def mask_eq_exp_minus_1)

lemma page_addr_masked: "p < TOTAL_PAGES \<Longrightarrow> page_addr p AND PG_ADDR_MASK = page_addr p"
  unfolding PG_ADDR_MASK_eq by (rule and_mask_range) (simp_all add: page_consts)

lemma table_ref_bits:
  assumes "p < TOTAL_PAGES"
  shows "table_ref p AND PG_ADDR_MASK = page_addr p" and "bit (table_ref p) 0" and "\<not> bit (table_ref p) 7"
proof -
  have t: "table_ref p = page_addr p OR mask 2"
    using page_addr_masked [OF assms] by (simp add: table_ref_def PG_P_def PG_RW_def or.assoc mask_eq_exp_minus_1)
  have "table_ref p AND PG_ADDR_MASK = (page_addr p AND PG_ADDR_MASK) OR (mask 2 AND PG_ADDR_MASK)"
    unfolding t by (simp add: bit.conj_disj_distrib2)
  also have "mask 2 AND PG_ADDR_MASK = 0" by (simp add: PG_ADDR_MASK_def mask_eq_exp_minus_1)
  finally show "table_ref p AND PG_ADDR_MASK = page_addr p" by (simp add: page_addr_masked [OF assms])
  show "bit (table_ref p) 0" by (simp add: t bit_simps)
  have "\<not> bit (page_addr p AND PG_ADDR_MASK) 7" by (simp add: bit_simps PG_ADDR_MASK_eq)
  then have "\<not> bit (page_addr p) 7" unfolding page_addr_masked [OF assms] .
  then show "\<not> bit (table_ref p) 7" by (simp only: t bit_or_iff bit_mask_iff) simp
qed

lemma pde_bits:
  assumes "g < 512" and "i < 512"
  shows "pde info (slot_phys g i) AND 0x000FFFFFFFE00000 = slot_phys g i"
    and "bit (pde info (slot_phys g i)) 0" and "bit (pde info (slot_phys g i)) 7"
proof -
  let ?p = "slot_phys g i"
  have m: "(0x000FFFFFFFE00000 :: u64) = mask 52 AND NOT (mask 21)"
    and m': "(0xFFFFFFFFFFE00000 :: u64) = mask 64 AND NOT (mask 21)"
    by (simp_all add: mask_eq_exp_minus_1)
  have d: "2 ^ 21 dvd unat ?p" and lt: "unat ?p < 2 ^ 52" "unat ?p < 2 ^ 64"
    using assms by (simp_all add: unat_slot_phys)
  obtain f where f: "pde info ?p = ?p OR f" "f AND 0x000FFFFFFFE00000 = 0" "bit f 0" "bit f 7"
    using and_mask_range [OF lt(2) d]
    by (cases "IsMMIORegion ?p info")
      (auto simp: pde_def m' [symmetric] PG_P_def PG_RW_def PG_PS_def PG_PCD_def PG_PWT_def bit_simps or.assoc)
  show "pde info ?p AND 0x000FFFFFFFE00000 = ?p"
    using f(2) and_mask_range [OF lt(1) d] by (simp add: f(1) bit.conj_disj_distrib2 m [symmetric])
  show "bit (pde info ?p) 0" "bit (pde info ?p) 7" using f by (simp_all add: bit_simps)
qed

lemma table_index_eq:
  "table_index level va = of_nat (unat va div 2 ^ (12 + 9 * level) mod 512)"
proof -
  have "(0x1FF :: u64) = mask 9" by (simp add: mask_eq_exp_minus_1)
  then have "table_index level va = take_bit 9 (drop_bit (12 + 9 * level) va)"
    by (simp add: table_index_def take_bit_eq_mask)
  then have "unat (table_index level va) = unat va div 2 ^ (12 + 9 * level) mod 512"
    by (simp only: unsigned_take_bit_eq unat_drop_bit_eq) (simp add: drop_bit_eq_div take_bit_eq_mod)
  from arg_cong [OF this, of "of_nat :: nat \<Rightarrow> u64"] show ?thesis by simp
qed

lemma table_entry_page:
  "tbl AND PG_ADDR_MASK = page_addr p \<Longrightarrow>
   table_entry m tbl level va = read64 m (entry_at p (unat va div 2 ^ (12 + 9 * level) mod 512))"
  by (simp add: table_entry_def table_index_eq)

lemma slot_of_address:
  assumes "unat va < 549755813888"
  shows "slot_phys (unat va div 1073741824) (unat va div 2097152 mod 512) = va AND NOT (mask 21)"
proof -
  have g: "unat va div 1073741824 < 512" using assms by (simp add: less_mult_imp_div_less)
  have e: "(a * 512 + b) * 2097152 = a * 1073741824 + b * (2097152 :: nat)" for a b by simp
  have "unat va div 1073741824 = unat va div 2097152 div 512" by (simp add: div_mult2_eq [symmetric])
  then have "unat va div 1073741824 * 1073741824 + unat va div 2097152 mod 512 * 2097152
      = (unat va div 2097152 div 512 * 512 + unat va div 2097152 mod 512) * 2097152"
    by (simp only: e)
  then have "unat va div 1073741824 * 1073741824 + unat va div 2097152 mod 512 * 2097152 = unat va div 2097152 * 2097152"
    by (simp only: div_mult_mod_eq)
  with g show ?thesis by (simp add: word_unat_eq_iff unat_slot_phys and_not_mask_eq_div)
qed

definition map_built :: "MemoryInfo \<Rightarrow> nat set \<Rightarrow> nat \<Rightarrow> nat \<Rightarrow> memory \<Rightarrow> bool" where
  "map_built info Q P4 P3 m \<longleftrightarrow>
     read64 m (entry_at P4 0) = table_ref P3 \<and>
     (\<forall>j<gib_count info. \<exists>q\<in>Q. directory_of info (AlignUp (CalcMaxPhys info) PAGE_2M) m P3 j q)"

lemma slot_below_lim:
  assumes "unat (CalcMaxPhys info) \<le> 549755813888" and "unat va < 549755813888"
    and "lim = AlignUp (CalcMaxPhys info) PAGE_2M"
  shows "va AND NOT (mask 21) < lim \<longleftrightarrow> va < lim"
proof -
  define k where "k = (unat (CalcMaxPhys info) + 2097151) div 2097152"
  have l: "unat lim = k * 2097152" using limits(1) [OF assms(1)] by (simp add: assms(3) k_def)
  have "va AND NOT (mask 21) < lim \<longleftrightarrow> unat va div 2097152 < k"
    by (simp add: word_less_nat_alt and_not_mask_eq_div l)
  also have "\<dots> \<longleftrightarrow> unat va < k * 2097152" by (rule div_less_iff_less_mult) simp
  finally show ?thesis by (simp add: word_less_nat_alt l)
qed

lemma translate_map_built:
  assumes built: "map_built info Q P4 P3 m" and Q: "Q \<subseteq> {..<TOTAL_PAGES}"
    and P: "P4 < TOTAL_PAGES" "P3 < TOTAL_PAGES"
    and max: "unat (CalcMaxPhys info) \<le> 549755813888" and va: "unat va < gib_count info * 1073741824"
  shows "translate m (page_addr P4) va = (if va < AlignUp (CalcMaxPhys info) PAGE_2M then Some va else None)"
proof -
  let ?lim = "AlignUp (CalcMaxPhys info) PAGE_2M"
  define g i where "g = unat va div 1073741824" and "i = unat va div 2097152 mod 512"
  have v39: "unat va < 549755813888" using va limits(3) [OF max] by linarith
  have gi: "g < gib_count info" "g < 512" "i < 512"
    using va v39 by (simp_all add: g_def i_def less_mult_imp_div_less)
  from built gi(1) obtain q where q: "q \<in> Q" "directory_of info ?lim m P3 g q" "read64 m (entry_at P4 0) = table_ref P3"
    by (auto simp: map_built_def)
  have qt: "q < TOTAL_PAGES" using q(1) Q by auto
  have 3: "table_entry m (page_addr P4) 3 va = table_ref P3"
    using v39 q(3) by (subst table_entry_page [OF page_addr_masked [OF P(1)]]) simp
  have "unat va div 2 ^ 30 mod 512 = g" using gi(2) by (simp add: g_def)
  then have 2: "table_entry m (table_ref P3) 2 va = table_ref q"
    using q(2) by (subst table_entry_page [OF table_ref_bits(1) [OF P(2)]]) (simp add: directory_of_def)
  have 1: "table_entry m (table_ref q) 1 va = slot_entry info ?lim g i"
    using q(2) gi(3) by (subst table_entry_page [OF table_ref_bits(1) [OF qt]]) (simp add: directory_of_def i_def)
  have sp: "slot_phys g i = va AND NOT (mask 21)" unfolding g_def i_def by (rule slot_of_address [OF v39])
  have lt: "slot_phys g i < ?lim \<longleftrightarrow> va < ?lim" unfolding sp by (rule slot_below_lim [OF max v39 refl])
  have "(va AND NOT (mask 21)) OR (va AND 0x1FFFFF) = va"
  proof -
    have "(0x1FFFFF :: u64) = mask 21" by (simp add: mask_eq_exp_minus_1)
    then show ?thesis by (simp add: bit.conj_disj_distrib [symmetric])
  qed
  then show ?thesis
    using 3 2 1 lt table_ref_bits [OF P(2)] table_ref_bits [OF qt] pde_bits [OF gi(2,3), of info]
    by (simp add: translate_def slot_entry_def sp)
qed

context page_allocator
begin

lemma BuildPDPT_loop_True:
  assumes "ok s" and "gib \<le> 512" and "P < TOTAL_PAGES" and "P \<notin> FREE s" and "gib - g \<le> card (FREE s)"
  shows "\<exists>m' s'. BuildPDPT_loop alloc info lim (page_addr P) gib g m s = (True, m', s') \<and> ok s' \<and>
    FREE s' \<subseteq> FREE s \<and> same_except (insert P (FREE s)) m m' \<and>
    (\<forall>j<512. j \<notin> {g..<gib} \<longrightarrow> read64 m' (entry_at P j) = read64 m (entry_at P j)) \<and>
    (\<forall>j\<in>{g..<gib}. \<exists>q\<in>FREE s - FREE s'. directory_of info lim m' P j q)"
  using assms
proof (induction "gib - g" arbitrary: g m s)
  case 0
  then show ?case by (subst BuildPDPT_loop.simps) auto
next
  case (Suc d)
  have g: "g < gib" using Suc.hyps(2) by simp
  have "FREE s \<noteq> {}" using Suc.prems(5) g by auto
  with Suc.prems(1) obtain q s1 where q: "q \<in> FREE s" "0 < q" "q < TOTAL_PAGES"
    "alloc s = (page_addr q, s1)" "ok s1" "FREE s1 = FREE s - {q}" by (cases rule: alloc_cases) auto
  define m2 where "m2 = write64 (FillMemory m (page_addr q) PAGE_4K 0) (entry_at P g) (table_ref q)"
  define m3 where "m3 = BuildPD_loop info lim (of_nat g * PAGE_1G) (page_addr q) 0 m2"
  have Pq: "P \<noteq> q" using Suc.prems(4) q(1) by auto
  have g512: "g < 512" using g Suc.prems(2) by simp
  note st = directory_step [OF Pq Suc.prems(3) q(3) g512 m2_def m3_def]
  have fin: "finite (FREE s)" using finite_FREE Suc.prems(1) .
  have "d = gib - Suc g" using Suc.hyps(2) by simp
  moreover have "gib - Suc g \<le> card (FREE s1)" using Suc.prems(5) q(1,6) fin by (simp add: card_Diff_singleton)
  moreover have "P \<notin> FREE s1" using Suc.prems(4) q(6) by simp
  ultimately obtain m' s' where r: "BuildPDPT_loop alloc info lim (page_addr P) gib (Suc g) m3 s1 = (True, m', s')"
    "ok s'" "FREE s' \<subseteq> FREE s1" "same_except (insert P (FREE s1)) m3 m'"
    "\<forall>j<512. j \<notin> {Suc g..<gib} \<longrightarrow> read64 m' (entry_at P j) = read64 m3 (entry_at P j)"
    "\<forall>j\<in>{Suc g..<gib}. \<exists>q\<in>FREE s1 - FREE s'. directory_of info lim m' P j q"
    using Suc.hyps(1) [of "Suc g" s1 m3] Suc.prems(2,3) q(5) by blast
  have run: "BuildPDPT_loop alloc info lim (page_addr P) gib g m s = (True, m', s')"
    using g q r(1) by (subst BuildPDPT_loop.simps) (simp add: m2_def m3_def table_ref_def)
  have "directory_of info lim m' P g q"
    using r(4,5) Pq q g512 by (intro directory_of_same_except [OF st(2)]) auto
  moreover have "q \<in> FREE s - FREE s'" using q r(3) by auto
  ultimately have dirs: "\<forall>j\<in>{g..<gib}. \<exists>q\<in>FREE s - FREE s'. directory_of info lim m' P j q"
    using r(6) q(6) by (metis (no_types, lifting) Diff_iff Suc_leI atLeastLessThan_iff le_neq_implies_less)
  have "same_except (insert P (FREE s)) m m'"
    using st(1) r(4) q(1,6) by (auto simp: same_except_def)
  moreover have "\<forall>j<512. j \<notin> {g..<gib} \<longrightarrow> read64 m' (entry_at P j) = read64 m (entry_at P j)"
    using r(5) st(3) g by auto
  moreover have "FREE s' \<subseteq> FREE s" using r(3) q(6) by auto
  ultimately show ?case using run r(2) dirs by blast
qed

lemma BuildPDPT_loop_False:
  assumes "ok s" and "card (FREE s) < gib - g"
  shows "\<not> fst (BuildPDPT_loop alloc info lim pdpt gib g m s)"
  using assms
proof (induction "gib - g" arbitrary: g m s)
  case (Suc d)
  then have g: "g < gib" by simp
  from Suc.prems(1) show ?case
  proof (cases rule: alloc_cases)
    case none
    with g show ?thesis by (subst BuildPDPT_loop.simps) simp
  next
    case (some q s1)
    have "finite (FREE s)" using Suc.prems(1) by (rule finite_FREE)
    then have "0 < card (FREE s)" "card (FREE s1) = card (FREE s) - 1" using some(1,6) by (auto simp: card_gt_0_iff)
    then have "card (FREE s1) < gib - Suc g" using Suc.prems(2) by linarith
    then have IH: "\<not> fst (BuildPDPT_loop alloc info lim pdpt gib (Suc g) m' s1)" for m'
      using Suc.hyps(2) some(5) by (intro Suc.hyps(1)) auto
    from g some(2-4) show ?thesis by (subst BuildPDPT_loop.simps) (simp add: IH)
  qed
qed simp

lemma BuildIdentityMap2M_True:
  assumes "ok s" and "unat (CalcMaxPhys info) \<le> 549755813888" and "2 + gib_count info \<le> card (FREE s)"
  shows "\<exists>P4 P3 m' s'. BuildIdentityMap2M alloc (Some info) c m s = (True, page_addr P4, m', s') \<and>
    P4 \<in> FREE s \<and> P3 \<in> FREE s \<and> P4 \<noteq> P3 \<and> ok s' \<and> FREE s' \<subseteq> FREE s - {P4, P3} \<and>
    same_except (FREE s) m m' \<and> map_built info (FREE s) P4 P3 m' \<and>
    (\<forall>j\<in>{1..<512}. read64 m' (entry_at P4 j) = read64 m (entry_at P4 j)) \<and>
    (\<forall>j\<in>{gib_count info..<512}. read64 m' (entry_at P3 j) = read64 m (entry_at P3 j))"
proof -
  let ?lim = "AlignUp (CalcMaxPhys info) PAGE_2M"
  note lim = limits [OF assms(2)]
  have fin: "finite (FREE s)" using assms(1) by (rule finite_FREE)
  have "FREE s \<noteq> {}" using assms(3) by auto
  with assms(1) obtain P4 s1 where P4: "P4 \<in> FREE s" "0 < P4" "P4 < TOTAL_PAGES" "alloc s = (page_addr P4, s1)"
    "ok s1" "FREE s1 = FREE s - {P4}" by (cases rule: alloc_cases) auto
  have c1: "1 + gib_count info \<le> card (FREE s1)" using assms(3) P4(1,6) fin by simp
  then have "FREE s1 \<noteq> {}" by auto
  with P4(5) obtain P3 s2 where P3: "P3 \<in> FREE s1" "0 < P3" "P3 < TOTAL_PAGES" "alloc s1 = (page_addr P3, s2)"
    "ok s2" "FREE s2 = FREE s1 - {P3}" by (cases rule: alloc_cases) auto
  have c2: "gib_count info - 0 \<le> card (FREE s2)" using c1 P3(1,6) P4(6) fin by simp
  have ne: "P4 \<noteq> P3" using P3(1) P4(6) by auto
  define m1 where "m1 = write64 m (entry_at P4 0) (table_ref P3)"
  have w: "same_except {P4} m m1" unfolding m1_def using P4(3) by (intro write64_same_except) auto
  have "P3 \<notin> FREE s2" using P3(6) by simp
  from BuildPDPT_loop_True [OF P3(5) lim(3) P3(3) this c2, of info ?lim m1] obtain m' s' where
    r: "BuildPDPT_loop alloc info ?lim (page_addr P3) (gib_count info) 0 m1 s2 = (True, m', s')" "ok s'"
      "FREE s' \<subseteq> FREE s2" "same_except (insert P3 (FREE s2)) m1 m'"
      "\<forall>j<512. j \<notin> {0..<gib_count info} \<longrightarrow> read64 m' (entry_at P3 j) = read64 m1 (entry_at P3 j)"
      "\<forall>j\<in>{0..<gib_count info}. \<exists>q\<in>FREE s2 - FREE s'. directory_of info ?lim m' P3 j q" by blast
  have le: "\<not> ENTIRIES < AlignUp (CalcMaxPhys info) PAGE_1G div PAGE_1G"
    using lim(2,3) by (simp add: word_less_nat_alt ENTIRIES_def)
  have "BuildIdentityMap2M alloc (Some info) c m s = (True, page_addr P4, m', s')"
    using le lim(2) P4 P3 r(1) by (simp add: BuildIdentityMap2M_def m1_def table_ref_def del: unat_page_addr)
  moreover have P4f: "P4 \<notin> insert P3 (FREE s2)" using ne P3(6) P4(6) by auto
  have e4: "read64 m' (entry_at P4 j) = read64 m1 (entry_at P4 j)" if "j < 512" for j
    using read64_same_except [OF r(4) P4f _ that] P4(3) by auto
  have "read64 m1 (entry_at P4 j) = read64 m (entry_at P4 j)" if "j \<in> {1..<512}" for j
    unfolding m1_def using that P4(3) by (intro read64_write64_apart entry_apart) auto
  then have "\<forall>j\<in>{1..<512}. read64 m' (entry_at P4 j) = read64 m (entry_at P4 j)" using e4 by simp
  moreover have "\<forall>j\<in>{gib_count info..<512}. read64 m' (entry_at P3 j) = read64 m (entry_at P3 j)"
    using r(5) read64_same_except [OF w, of P3] ne P3(3) by auto
  moreover have "map_built info (FREE s) P4 P3 m'"
    using e4 [of 0] r(6) P3(6) P4(6) by (fastforce simp: map_built_def m1_def)
  moreover have "same_except (FREE s) m m'"
    using same_except_trans [OF w r(4)] by (rule same_except_mono) (use P3(1,6) P4(1,6) in auto)
  ultimately show ?thesis using P4(1,6) P3(1,6) ne r(2,3) by blast
qed

lemma BuildIdentityMap2M_False:
  assumes "ok s" and "unat (CalcMaxPhys info) \<le> 549755813888" and "0 < gib_count info"
    and "card (FREE s) < 2 + gib_count info"
  shows "\<not> fst (BuildIdentityMap2M alloc (Some info) c m s)"
proof -
  note lim = limits [OF assms(2)]
  have le: "\<not> ENTIRIES < AlignUp (CalcMaxPhys info) PAGE_1G div PAGE_1G"
    using lim(2,3) by (simp add: word_less_nat_alt ENTIRIES_def)
  obtain p4 s1 where a1: "alloc s = (p4, s1)" by (cases "alloc s")
  obtain p3 s2 where a2: "alloc s1 = (p3, s2)" by (cases "alloc s1")
  note r1 = alloc_result [OF assms(1) a1]
  note r2 = alloc_result [OF conjunct1 [OF r1] a2]
  show ?thesis
  proof (cases "p4 = 0")
    case True
    with le a1 show ?thesis by (simp add: BuildIdentityMap2M_def)
  next
    case False
    have f1: "finite (FREE s)" "finite (FREE s1)" using assms(1) r1 finite_FREE by auto
    have "card (FREE s1) < 1 + gib_count info"
      using r1 False f1(1) assms(4) by (auto simp: card_Diff_singleton)
    then have "card (FREE s2) < gib_count info - 0"
      using r2 f1(2) assms(3) by (cases "p3 = 0") (auto simp: card_Diff_singleton)
    with r2 have "\<not> fst (BuildPDPT_loop alloc info lim p3 (gib_count info) 0 m' s2)" for lim m'
      by (intro BuildPDPT_loop_False) auto
    with False le a1 a2 lim(2) show ?thesis
      by (auto simp: BuildIdentityMap2M_def Let_def split: prod.splits) (metis fst_conv)+
  qed
qed

end

subsection \<open>Properties\<close>

lemma example_max: "CalcMaxPhys example_info = 0x5800"
  by (simp add: CalcMaxPhys_def example_info_def)

lemma example_paging:
  "unat (CalcMaxPhys example_info) \<le> 549755813888" "gib_count example_info = 1"
  "2 + gib_count example_info \<le> card (free_pages example_bitmap)"
  by (simp_all add: gib_count_def example_max example_free_pages)



text \<open>
  Under the same conditions \<open>BuildIdentityMap2M\<close> takes only free pages, keeps the allocator's
  invariant and changes no byte of memory outside pages that were free before the call.
\<close>

lemma BuildIdentityMap2M_frame:
  assumes "bitmap_ok bm" and "unat (CalcMaxPhys info) \<le> 549755813888"
    and "2 + gib_count info \<le> card (free_pages bm)"
    and "BuildIdentityMap2M AllocatePage (Some info) c m bm = (r, cr3, m', bm')"
  shows "bitmap_ok bm' \<and> free_pages bm' \<subset> free_pages bm \<and> same_except (free_pages bm) m m'"
  using early.BuildIdentityMap2M_True [OF assms(1-3), of c m] assms(4) by auto

lemma BuildIdentityMap2M_frame_example:
  "\<exists>r. BuildIdentityMap2M AllocatePage (Some example_info) 0 (\<lambda>_. 0) example_bitmap = r \<and>
     same_except {1, 2, 3, 4} (\<lambda>_. 0) (fst (snd (snd r))) \<and> bitmap_ok (snd (snd (snd r)))"
proof -
  obtain r cr3 m' bm' where
    e: "BuildIdentityMap2M AllocatePage (Some example_info) 0 (\<lambda>_. 0) example_bitmap = (r, cr3, m', bm')"
    by (metis prod.collapse)
  from BuildIdentityMap2M_frame [OF example_bitmap_ok example_paging(1,3) e] e show ?thesis
    by (simp add: example_free_pages)
qed

text \<open>
  The pages taken for the top two tables are not cleared: all but the first entry of the PML4 and
  every PDPT entry above the mapped range still hold whatever the pages held before.
\<close>

lemma BuildIdentityMap2M_stale_entries:
  assumes "bitmap_ok bm" and "unat (CalcMaxPhys info) \<le> 549755813888"
    and "2 + gib_count info \<le> card (free_pages bm)"
    and "BuildIdentityMap2M AllocatePage (Some info) c m bm = (True, cr3, m', bm')"
  shows "(\<forall>j\<in>{1..<512}. read64 m' (cr3 + 8 * of_nat j) = read64 m (cr3 + 8 * of_nat j)) \<and>
    (\<exists>P3. read64 m' cr3 AND PG_ADDR_MASK = page_addr P3 \<and>
      (\<forall>j\<in>{gib_count info..<512}. read64 m' (entry_at P3 j) = read64 m (entry_at P3 j)))"
proof -
  from early.BuildIdentityMap2M_True [OF assms(1-3), of c m] assms(4) obtain P4 P3 where
    p: "cr3 = page_addr P4" "P3 \<in> free_pages bm" "map_built info (free_pages bm) P4 P3 m'"
      "\<forall>j\<in>{1..<512}. read64 m' (entry_at P4 j) = read64 m (entry_at P4 j)"
      "\<forall>j\<in>{gib_count info..<512}. read64 m' (entry_at P3 j) = read64 m (entry_at P3 j)" by auto
  have "P3 < TOTAL_PAGES" using p(2) by (simp add: free_pages_def page_free_def)
  from table_ref_bits(1) [OF this] p(3) have "read64 m' (page_addr P4) AND PG_ADDR_MASK = page_addr P3"
    by (simp add: map_built_def)
  with p show ?thesis by auto
qed

lemma BuildIdentityMap2M_stale_entries_example:
  "\<exists>cr3 m' bm'. BuildIdentityMap2M AllocatePage (Some example_info) 0 (\<lambda>_. 0xFF) example_bitmap = (True, cr3, m', bm') \<and>
     read64 m' (cr3 + 8) = read64 (\<lambda>_. 0xFF) (cr3 + 8)"
proof -
  from early.BuildIdentityMap2M_True [OF example_bitmap_ok example_paging(1,3), of 0 "\<lambda>_. 0xFF"]
  obtain cr3 m' bm' where
    r: "BuildIdentityMap2M AllocatePage (Some example_info) 0 (\<lambda>_. 0xFF) example_bitmap = (True, cr3, m', bm')"
    by blast
  have "(1 :: nat) \<in> {1..<512}" by simp
  with BuildIdentityMap2M_stale_entries [OF example_bitmap_ok example_paging(1,3) r] r show ?thesis
    by (metis (no_types, lifting) mult.right_neutral of_nat_1)
qed

text \<open>
  When \<open>BuildIdentityMap2M\<close> fails: on a null memory map or more than 512 GiB it returns false without
  touching memory, the allocator or the output; with too few pages for the directories it returns
  false and leaves the output CR3 value alone.
\<close>

lemma BuildIdentityMap2M_failure:
  assumes "bitmap_ok bm"
  shows "BuildIdentityMap2M AllocatePage None c m bm = (False, c, m, bm) \<and>
    (AlignUp (CalcMaxPhys info) PAGE_1G div PAGE_1G > 512 \<longrightarrow>
       BuildIdentityMap2M AllocatePage (Some info) c m bm = (False, c, m, bm)) \<and>
    (unat (CalcMaxPhys info) \<le> 549755813888 \<and> 0 < gib_count info \<and>
     card (free_pages bm) < 2 + gib_count info \<longrightarrow>
       (\<exists>m' bm'. BuildIdentityMap2M AllocatePage (Some info) c m bm = (False, c, m', bm')))"
proof (intro conjI impI)
  show "BuildIdentityMap2M AllocatePage None c m bm = (False, c, m, bm)" by (simp add: BuildIdentityMap2M_def)
  show "BuildIdentityMap2M AllocatePage (Some info) c m bm = (False, c, m, bm)"
    if "AlignUp (CalcMaxPhys info) PAGE_1G div PAGE_1G > 512"
    using that by (simp add: BuildIdentityMap2M_def ENTIRIES_def Let_def)
  assume "unat (CalcMaxPhys info) \<le> 549755813888 \<and> 0 < gib_count info \<and> card (free_pages bm) < 2 + gib_count info"
  then have max: "unat (CalcMaxPhys info) \<le> 549755813888" and pos: "0 < gib_count info"
    and few: "card (free_pages bm) < 2 + gib_count info" by auto
  have "\<not> fst (BuildIdentityMap2M AllocatePage (Some info) c m bm)"
    using early.BuildIdentityMap2M_False [OF assms max pos few] .
  then show "\<exists>m' bm'. BuildIdentityMap2M AllocatePage (Some info) c m bm = (False, c, m', bm')"
    by (auto simp: BuildIdentityMap2M_def Let_def split: prod.splits if_splits)
qed

lemma BuildIdentityMap2M_failure_example:
  "BuildIdentityMap2M AllocatePage None 7 (\<lambda>_. 0) example_bitmap = (False, 7, (\<lambda>_. 0), example_bitmap)"
  using BuildIdentityMap2M_failure [OF example_bitmap_ok] by blast

end
