(* ===== verification/StartThreads.thy ===== *)
theory StartThreads
  imports Scheduler
begin

text \<open>
  \<open>KernelStartThreads\<close> of \<open>Kernel/Core/KernelMain.cpp\<close>: the end of the boot sequence, which creates the scheduler's
  threads and switches to the first of them. The lemmas follow a run of free pages through the first-fit
  allocations of thread objects and stacks, so that success is a matter of how long the run is.
\<close>

text \<open>\<open>names\<close> and \<open>workers\<close> are the addresses of the two name strings and of the two entry functions.\<close>

definition KernelStartThreads :: "image \<Rightarrow> u64 \<times> u64 \<Rightarrow> u64 \<times> u64 \<Rightarrow> sched_state \<Rightarrow> sched_state kernel_result" where
  "KernelStartThreads img names workers s =
     (case sched_Init img s of
        Inl e \<Rightarrow> Inl e
      | Inr s1 \<Rightarrow>
          (case CreateAndEnqueue img (fst names) (fst workers) 0 0 s1 of
             Inl e \<Rightarrow> Inl e
           | Inr (t, s2) \<Rightarrow>
               (case CreateAndEnqueue img (snd names) (snd workers) 0 0 s2 of
                  Inl e \<Rightarrow> Inl e
                | Inr (t', s3) \<Rightarrow> Start img s3)))"

subsection \<open>A run of free pages\<close>

definition run_free :: "byte_array \<Rightarrow> nat \<Rightarrow> nat \<Rightarrow> bool" where
  "run_free bm a n \<longleftrightarrow> {a..<a + n} \<subseteq> free_pages bm"

text \<open>First fit takes pages at or before the start of the run, so the run loses at most its first pages.\<close>

lemma AllocatePage_size_run:
  assumes "bitmap_ok bm" and "0 < sz" and "run_free bm a (unat (pages_for sz) + k)"
  obtains p where "AllocatePage_size sz bm = (page_addr p, set_run bm p (unat (pages_for sz)) True)"
    and "page_addr p \<noteq> 0" and "bitmap_ok (set_run bm p (unat (pages_for sz)) True)"
    and "run_free (set_run bm p (unat (pages_for sz)) True) (a + unat (pages_for sz)) k"
proof -
  let ?n = "unat (pages_for sz)"
  have "{a..<a + ?n} \<subseteq> free_pages bm" using assms(3) by (auto simp: run_free_def)
  from AllocatePage_size_some [OF assms(1,2) refl this] obtain p where
    p: "AllocatePage_size sz bm = (page_addr p, set_run bm p ?n True)" "p \<le> a" "0 < p" "p + ?n \<le> TOTAL_PAGES" by blast
  have "p < TOTAL_PAGES"
  proof -
    have "unat (pages_for sz) \<noteq> 0" using assms(2) by (simp add: pages_for_eq word_gt_0 div_eq_0_iff unat_eq_zero)
    with p(4) show ?thesis by simp
  qed
  moreover have "bitmap_ok (set_run bm p ?n True)" using assms(1) p(4) by (auto intro: bitmap_ok_set_run)
  moreover have "run_free (set_run bm p ?n True) (a + ?n) k"
    using assms(3) p(2) by (auto simp: run_free_def free_pages_set_run)
  ultimately show thesis using that p(1,3) by simp
qed

lemma operator_new_run:
  assumes "heap_ok h" and "sz + sizeof_AllocatedMemoryInfo \<noteq> 0" and "run_free (hs_bitmap h) a (new_pages sz + k)"
  obtains p h' where "operator_new sz h = Inr (p, h')" and "p \<noteq> 0" and "heap_ok h'"
    and "run_free (hs_bitmap h') (a + new_pages sz) k"
proof -
  have n: "new_pages sz = unat (pages_for (sz + sizeof_AllocatedMemoryInfo))" by (simp add: new_pages_def pages_for_eq)
  have "bitmap_ok (hs_bitmap h)" "0 < sz + sizeof_AllocatedMemoryInfo" using assms(1,2) by (simp_all add: heap_ok_def word_gt_0)
  from AllocatePage_size_run [OF this assms(3) [unfolded n]] obtain p where
    "AllocatePage_size (sz + sizeof_AllocatedMemoryInfo) (hs_bitmap h) = (page_addr p, set_run (hs_bitmap h) p (new_pages sz) True)"
    "page_addr p \<noteq> 0" "bitmap_ok (set_run (hs_bitmap h) p (new_pages sz) True)"
    "run_free (set_run (hs_bitmap h) p (new_pages sz) True) (a + new_pages sz) k" unfolding n by blast
  with assms(1) that show thesis by (simp add: operator_new_def Let_def heap_ok_def)
qed

lemma new_Thread_pages:
  assumes "image_ok img"
  shows "sizeof_Thread img + sizeof_AllocatedMemoryInfo \<noteq> 0" and "new_pages (sizeof_Thread img) = 1"
proof -
  have "unat (sizeof_Thread img + 8) = unat (sizeof_Thread img) + 8"
    using assms by (subst unat_add_nowrap) (auto simp: image_ok_def word_le_nat_alt)
  then show "sizeof_Thread img + sizeof_AllocatedMemoryInfo \<noteq> 0" "new_pages (sizeof_Thread img) = 1"
    using assms by (auto simp: sizeof_AllocatedMemoryInfo_def new_pages_def image_ok_def word_le_nat_alt intro!: div_nat_eqI)
qed

lemma default_stack_pages: "unat (pages_for DEFAULT_STACK_SIZE) = 4" "0 < DEFAULT_STACK_SIZE"
  by (simp_all add: DEFAULT_STACK_SIZE_def pages_for_eq)

lemma KernelStack_Allocate_run:
  assumes "bitmap_ok bm" and "run_free bm a (4 + k)"
  obtains ks' bm' where "KernelStack_Allocate 0 ks bm = (True, ks', bm')" and "run_free bm' (a + 4) k"
proof -
  from AllocatePage_size_run [OF assms(1) default_stack_pages(2), of a k] assms(2) obtain p where
    "AllocatePage_size DEFAULT_STACK_SIZE bm = (page_addr p, set_run bm p 4 True)" "page_addr p \<noteq> 0"
    "run_free (set_run bm p 4 True) (a + 4) k" by (auto simp: default_stack_pages)
  with that show thesis by (simp add: KernelStack_Allocate_def)
qed

lemma CreateKernel_run:
  assumes "image_ok img" and "heap_ok (heap s)" and "gAllocator s \<noteq> 0" and "run_free (hs_bitmap (heap s)) a (5 + k)"
  obtains t s' where "CreateKernel img name entry arg 0 s = Inr (t, s')" and "t \<noteq> 0" and "run_free (hs_bitmap (heap s')) (a + 5) k"
proof -
  have "run_free (hs_bitmap (heap s)) a (new_pages (sizeof_Thread img) + (4 + k))"
    using assms(4) by (simp add: new_Thread_pages(2) [OF assms(1)] add.commute)
  from operator_new_run [OF assms(2) new_Thread_pages(1) [OF assms(1)] this] obtain t h1 where
    h1: "operator_new (sizeof_Thread img) (heap s) = Inr (t, h1)" "t \<noteq> 0" "heap_ok h1" "run_free (hs_bitmap h1) (a + 1) (4 + k)"
    by (auto simp: new_Thread_pages(2) [OF assms(1)])
  have "bitmap_ok (hs_bitmap h1)" using h1(3) by (simp add: heap_ok_def)
  from KernelStack_Allocate_run [OF this h1(4), of "KStack new_Thread"] obtain ks bm where
    ks: "KernelStack_Allocate 0 (KStack new_Thread) (hs_bitmap h1) = (True, ks, bm)" "run_free bm (a + 5) k"
    by (auto simp: add.commute)
  then show thesis using that h1(1,2) assms(3) by (simp add: CreateKernel_def Let_def case_prod_beta)
qed

subsection \<open>Entry functions are kept\<close>

lemma EnqueueReady_Entry [simp]: "Entry (threads (EnqueueReady t s) x) = Entry (threads s x)"
  by (simp add: EnqueueReady_def Push_def Let_def case_prod_beta set_thread_def)

lemma Yield_Entry: "Yield img s = Inr s' \<Longrightarrow> Entry (threads s' x) = Entry (threads s x)"
proof -
  assume y: "Yield img s = Inr s'"
  let ?s1 = "if Current s \<noteq> gIdleThread s \<and> Current s \<noteq> gBootstapThread s \<and> State (threads s (Current s)) = Running
     then EnqueueReady (Current s) s else s"
  have d: "Entry (threads (snd (DequeueNext u)) x) = Entry (threads u x)" for u
    by (simp add: DequeueNext_def PopFront_def Let_def case_prod_beta)
  have "SwitchTo img (fst (DequeueNext ?s1)) (snd (DequeueNext ?s1)) = Inr s'"
    using y by (auto simp: Yield_def Let_def case_prod_beta split: if_splits)
  then have "Entry (threads s' x) = Entry (threads (snd (DequeueNext ?s1)) x)"
    by (auto simp: SwitchTo_def Let_def case_prod_beta set_thread_def split: if_splits)
  then show ?thesis by (simp add: d)
qed

subsection \<open>Starting\<close>

lemma sched_Init_run:
  assumes "image_ok img" and "heap_ok (heap s)" and "gAllocator s \<noteq> 0" and "run_free (hs_bitmap (heap s)) a (6 + k)"
  obtains s' where "sched_Init img s = Inr s'" and "gIdleThread s' \<noteq> 0" and "run_free (hs_bitmap (heap s')) (a + 6) k"
proof -
  have "run_free (hs_bitmap (heap s)) a (new_pages (sizeof_Thread img) + (5 + k))"
    using assms(4) by (simp add: new_Thread_pages(2) [OF assms(1)] add.commute)
  from operator_new_run [OF assms(2) new_Thread_pages(1) [OF assms(1)] this] obtain b h1 where
    "b \<noteq> 0" and h1: "operator_new (sizeof_Thread img) (heap s) = Inr (b, h1)" "heap_ok h1" "run_free (hs_bitmap h1) (a + 1) (5 + k)"
    unfolding new_Thread_pages(2) [OF assms(1)] by blast
  define s3 where "s3 = (set_thread b (\<lambda>x. x\<lparr>Name := str_Bootstrap img, State := Running, CPUIndex := PerCPU_CPUIndex (cpu s)\<rparr>)
      (s\<lparr>heap := h1, threads := (threads s)(b := new_Thread), objs := new_object b (objs s), gBootstapThread := b\<rparr>))
      \<lparr>cpu := (cpu s)\<lparr>CurrentThread := b\<rparr>\<rparr>"
  have "heap s3 = h1" "gAllocator s3 \<noteq> 0" using assms(3) by (simp_all add: s3_def)
  with CreateKernel_run [OF assms(1), of s3 "a + 1" k "str_idle img" "addr_IdleMain img" 0] h1(2,3) obtain t s4 where
    c: "CreateKernel img (str_idle img) (addr_IdleMain img) 0 0 s3 = Inr (t, s4)" "t \<noteq> 0" "run_free (hs_bitmap (heap s4)) (a + 6) k"
    by (auto simp: add.commute)
  have "sched_Init img s = Inr (s4\<lparr>gIdleThread := t, objs := Release t (objs s4)\<rparr>)"
    using c(1,2) unfolding s3_def by (simp add: sched_Init_def h1(1) Let_def)
  then show thesis using that c(2,3) by simp
qed

lemma CreateAndEnqueue_run:
  assumes "image_ok img" and "heap_ok (heap s)" and "gAllocator s \<noteq> 0" and "run_free (hs_bitmap (heap s)) a (5 + k)"
  obtains t s' where "CreateAndEnqueue img name entry arg 0 s = Inr (t, s')" and "t \<noteq> 0"
    and "run_free (hs_bitmap (heap s')) (a + 5) k" and "\<And>x. x \<noteq> t \<Longrightarrow> Entry (threads s' x) = Entry (threads s x)"
    and "gIdleThread s' = gIdleThread s" and "gBootstapThread s' = gBootstapThread s"
proof -
  obtain t s1 where c: "CreateKernel img name entry arg 0 s = Inr (t, s1)" "t \<noteq> 0" "run_free (hs_bitmap (heap s1)) (a + 5) k"
    by (rule CreateKernel_run [OF assms])
  obtain q where q: "t = 0 \<or> t = page_addr q" "\<And>x. x \<noteq> page_addr q \<Longrightarrow> threads s1 x = threads s x"
    "gIdleThread s1 = gIdleThread s" "gBootstapThread s1 = gBootstapThread s"
    by (rule CreateKernel_props [OF assms(1-3) c(1)]) (use that in blast)
  have "CreateAndEnqueue img name entry arg 0 s = Inr (t, (EnqueueReady t s1)\<lparr>objs := Release t (objs (EnqueueReady t s1))\<rparr>)"
    using c(1,2) by (simp add: CreateAndEnqueue_def Let_def)
  moreover have "heap (EnqueueReady t s1) = heap s1" "gIdleThread (EnqueueReady t s1) = gIdleThread s1"
    "gBootstapThread (EnqueueReady t s1) = gBootstapThread s1"
    by (simp_all add: EnqueueReady_def Let_def case_prod_beta set_thread_def)
  ultimately show thesis using that c(2,3) q by auto
qed

text \<open>
  The kernel starts its threads: after the rest of the boot, with a working allocator, an empty run queue
  and sixteen consecutive free pages, \<open>KernelStartThreads\<close> neither panics nor faults; it leaves the processor
  running the thread whose entry function is the first worker, with the second worker alone in the
  ready queue.
\<close>

lemma KernelStartThreads_starts:
  assumes "image_ok img" and "heap_ok (heap s)" and "gAllocator s \<noteq> 0" and "gRunQueue s = new_RunQueue"
    and "{a..<a + 16} \<subseteq> free_pages (hs_bitmap (heap s))"
  shows "\<exists>s' u. KernelStartThreads img names workers s = Inr s' \<and>
    Entry (threads s' (Current s')) = fst workers \<and> State (threads s' (Current s')) = Running \<and>
    sched_ok s' [u] \<and> Entry (threads s' u) = snd workers \<and> u \<noteq> Current s' \<and> heap_ok (heap s') \<and> requeues s'"
proof -
  have "run_free (hs_bitmap (heap s)) a (6 + 10)" using assms(5) by (simp add: run_free_def)
  from sched_Init_run [OF assms(1-3) this] obtain s1 where
    s1: "sched_Init img s = Inr s1" "gIdleThread s1 \<noteq> 0" "run_free (hs_bitmap (heap s1)) (a + 6) (5 + 5)" by auto
  note i = Init_inv [OF assms(1-4) s1(1,2)]
  have h1: "heap_ok (heap s1)" "gAllocator s1 \<noteq> 0" using i(2) by (simp_all add: sched_mem_def)
  from CreateAndEnqueue_run [OF assms(1) h1 s1(3), of "fst names" "fst workers" 0] obtain t s2 where
    s2: "CreateAndEnqueue img (fst names) (fst workers) 0 0 s1 = Inr (t, s2)" "t \<noteq> 0" "run_free (hs_bitmap (heap s2)) (a + 6 + 5) 5"
      "gIdleThread s2 = gIdleThread s1" "gBootstapThread s2 = gBootstapThread s1" by blast
  then have run2: "run_free (hs_bitmap (heap s2)) (a + 6 + 5) (5 + 0)" by simp
  note c2 = CreateAndEnqueue_inv [OF assms(1) i(1,2) s2(1)]
  then have ok2: "sched_ok s2 [t]" "sched_mem s2 [t]" "Current s2 = Current s1" "Entry (threads s2 t) = fst workers" using s2(2) by auto
  have h2: "heap_ok (heap s2)" "gAllocator s2 \<noteq> 0" using ok2(2) by (simp_all add: sched_mem_def)
  from CreateAndEnqueue_run [OF assms(1) h2 run2, of "snd names" "snd workers" 0] obtain u s3 where
    s3: "CreateAndEnqueue img (snd names) (snd workers) 0 0 s2 = Inr (u, s3)" "u \<noteq> 0"
      "\<And>x. x \<noteq> u \<Longrightarrow> Entry (threads s3 x) = Entry (threads s2 x)"
      "gIdleThread s3 = gIdleThread s2" "gBootstapThread s3 = gBootstapThread s2" by blast
  note c3 = CreateAndEnqueue_inv [OF assms(1) ok2(1,2) s3(1)]
  then have ok3: "sched_ok s3 [t, u]" "Current s3 = Current s1" "Entry (threads s3 u) = snd workers" "u \<noteq> t"
    using s3(2) ok2(3) by auto
  have r: "\<not> requeues s3" using i(3) ok3(2) s2(5) s3(5) by (simp add: requeues_def ordinary_def)
  have h3: "heap_ok (heap s3)" using c3 s3(2) by (auto simp: sched_mem_def)
  obtain s' ys where y: "Yield img s3 = Inr s'" "spec_yield (gIdleThread s3) (requeues s3) (Current s3, [t, u]) = (Current s', ys)"
      "sched_ok s' ys" "State (threads s' (Current s')) =
           (if Current s' = Current s' \<and> Current s' \<noteq> Current s3 then Running
            else if Current s' = Current s3 \<and> requeues s3 then Ready else State (threads s3 (Current s')))"
      "hs_bitmap (heap s') = hs_bitmap (heap s3)" "gEarlyAlloc (heap s') = gEarlyAlloc (heap s3)" "same_globals s3 s'"
    by (rule Yield_refines [OF ok3(1), of img]) blast
  have e: "Current s' = t" "ys = [u]" using y(2) r by (simp_all add: spec_yield_def)
  have "t \<noteq> Current s3" using ok3(1) by (auto simp: sched_ok_def)
  then have "State (threads s' (Current s')) = Running" using y(4) e by simp
  moreover have "KernelStartThreads img names workers s = Inr s'"
    by (simp add: KernelStartThreads_def s1(1) s2(1) s3(1) Start_def y(1))
  moreover have "ordinary s' t" using ok3(1) y(7) by (auto simp: ordinary_def same_globals_def sched_ok_def)
  moreover have "heap_ok (heap s')" using h3 y(5,6) by (simp add: heap_ok_def)
  ultimately show ?thesis
    using y(3) e ok2(4) ok3(3,4) s3(3) [of t] Yield_Entry [OF y(1)] by (auto simp: requeues_def)
qed

text \<open>A machine whose pages 1 to 23 are free, before the scheduler is initialised.\<close>

definition roomy_bitmap :: byte_array where
  "roomy_bitmap = (\<lambda>i. if i = 0 then 0x01 else if i < 3 then 0 else 0xFF)"

definition roomy_sched :: sched_state where
  "roomy_sched = (example_sched [])\<lparr>heap := example_heap\<lparr>hs_bitmap := roomy_bitmap\<rparr>\<rparr>"

lemma roomy_free: "{1..<24} \<subseteq> free_pages roomy_bitmap"
proof
  fix p assume "p \<in> {1..<24 :: nat}"
  then have p: "0 < p" "p div 8 < 3" by auto
  show "p \<in> free_pages roomy_bitmap"
  proof (cases "p div 8 = 0")
    case True
    then have "p < 8" by auto
    then have "\<not> bit (1 :: u8) p" using p(1) by (simp add: bit_1_iff)
    with \<open>p < 8\<close> show ?thesis by (simp add: free_pages_def page_free_def bit_at_def Bit_iff roomy_bitmap_def page_consts)
  next
    case False
    then have "roomy_bitmap (p div 8) = 0" using p(2) by (simp add: roomy_bitmap_def)
    with p(2) show ?thesis by (simp add: free_pages_def page_free_def bit_at_def Bit_iff page_consts)
  qed
qed

lemma roomy_ok: "heap_ok (heap roomy_sched)" "gAllocator roomy_sched \<noteq> 0" "gRunQueue roomy_sched = new_RunQueue"
  by (simp_all add: heap_ok_def roomy_sched_def example_sched_def example_heap_def bitmap_ok_def page_free_def bit_at_def Bit_iff
      roomy_bitmap_def page_consts)

lemma KernelStartThreads_starts_example:
  "\<exists>s'. KernelStartThreads example_image (0x180020, 0x180030) (0x100300, 0x100400) roomy_sched = Inr s' \<and>
     Entry (threads s' (Current s')) = 0x100300"
proof -
  have "{1..<1 + 16} \<subseteq> free_pages (hs_bitmap (heap roomy_sched))"
    using roomy_free by (auto simp: roomy_sched_def)
  from KernelStartThreads_starts [OF example_image_ok roomy_ok this,
      of "(0x180020, 0x180030)" "(0x100300, 0x100400)"]
  show ?thesis by auto
qed

end
