(* ===== verification/Boot.thy ===== *)
theory Boot
  imports Consoles CPUInit Acpi Timers Paging StartThreads
begin

text \<open>
  \<open>Kernel/Core/KernelMain.cpp\<close>, \<open>Kernel/Core/CppRuntime.cpp\<close> and \<open>Kernel/Arch/x86_64/Boot/Boot.S\<close>: the boot sequence, which
  composes every other component, and the two worker threads it starts.

  The state puts the states of the components together. What they share is kept once: the page bitmap and
  memory are those of the heap inside the scheduler state, the trace of device accesses is that of the
  interrupt state, and the interrupt flag is in \<open>crit\<close>; \<open>consoles\<close> and \<open>put_consoles\<close> convert to and from the state
  of the console theory. A step ends, panics (\<open>Inl\<close>), or waits for a device forever (\<open>None\<close>).
\<close>

unbundle bit_operations_syntax

subsection \<open>The C++ runtime and the entry code\<close>

record guard =
  initialized :: u8

definition cxa_guard_acquire :: "guard \<Rightarrow> bool" where
  "cxa_guard_acquire g \<longleftrightarrow> initialized g = 0"

definition cxa_guard_release :: "guard \<Rightarrow> guard" where
  "cxa_guard_release g = g\<lparr>initialized := 1\<rparr>"

definition cxa_guard_abort :: "guard \<Rightarrow> guard" where
  "cxa_guard_abort g = g"

definition cxa_atexit :: "u64 \<Rightarrow> u64 \<Rightarrow> u64 \<Rightarrow> int" where
  "cxa_atexit f arg dso = 0"

definition cxa_finalize :: "u64 \<Rightarrow> 's \<Rightarrow> 's" where
  "cxa_finalize dso s = s"

definition cxa_pure_virtual :: "'s \<Rightarrow> 's" where
  "cxa_pure_virtual s = s"

text \<open>A failed assertion of the standard library stops the processor; the state is the one it sleeps in.\<close>

definition glibcxx_assert_fail :: "critical_state \<Rightarrow> critical_state" where
  "glibcxx_assert_fail c = c\<lparr>flags := unset_bit IF_BIT (flags c)\<rparr>"

text \<open>A static local: its initialiser runs when the guard is acquired.\<close>

definition static_local :: "(unit \<Rightarrow> 'a) \<Rightarrow> guard \<times> 'a \<Rightarrow> guard \<times> 'a" where
  "static_local init gv = (if cxa_guard_acquire (fst gv) then (cxa_guard_release (fst gv), init ()) else gv)"

definition start_rsp :: "u64 \<Rightarrow> u64" where
  "start_rsp KernelStackTop = KernelStackTop - 8"

subsection \<open>State\<close>

record BootInfo =
  MemInfo :: MemoryInfo
  ClockInfo :: HardwareClockInfo
  FrameBufferInfo :: GraphicInfo
  RSDP :: u64

record boot_state =
  intr :: intr_state
  tables :: cpu_tables
  early :: early_state
  crit :: critical_state
  frame_owner :: "KernelConsole option"
  uart_owner :: "SerialConsole option"
  CR3 :: u64
  gHwClockInfo :: clock_ptr
  ioapics :: "u64 \<times> IOAPIC list"
  acpiManager :: u64

record boot_env =
  be_hw :: hardware
  be_at :: link_addrs
  be_stackTop :: u64
  be_allocBuffer :: u64
  be_sizes :: object_sizes
  be_sizeofIOAPIC :: u64
  be_junk :: u64
  be_image :: image
  be_names :: "u64 \<times> u64"
  be_workers :: "u64 \<times> u64"

type_synonym 'a boot_result = "(kernel_error + 'a) option"

definition boot_bind :: "'a boot_result \<Rightarrow> ('a \<Rightarrow> 'b boot_result) \<Rightarrow> 'b boot_result" where
  "boot_bind r f = (case r of None \<Rightarrow> None | Some (Inl e) \<Rightarrow> Some (Inl e) | Some (Inr x) \<Rightarrow> f x)"

definition boot_heap :: "boot_state \<Rightarrow> heap_state" where
  "boot_heap b = sched_state.heap (sched (intr b))"

definition set_heap :: "heap_state \<Rightarrow> boot_state \<Rightarrow> boot_state" where
  "set_heap h b = b\<lparr>intr := (intr b)\<lparr>sched := (sched (intr b))\<lparr>sched_state.heap := h\<rparr>\<rparr>\<rparr>"

definition consoles :: "boot_state \<Rightarrow> console_state" where
  "consoles b = \<lparr>uart = \<lparr>trace = trace (intr b), rflags = flags (crit b)\<rparr>, heap = boot_heap b, in_critical = InCritical (crit b),
     console_owner = frame_owner b, serial_owner = uart_owner b\<rparr>"

definition put_consoles :: "console_state \<Rightarrow> boot_state \<Rightarrow> boot_state" where
  "put_consoles c b =
     (set_heap (console_state.heap c) b)
       \<lparr>intr := (intr (set_heap (console_state.heap c) b))\<lparr>trace := trace (uart c)\<rparr>,
        crit := \<lparr>InCritical = in_critical c, flags = rflags (uart c)\<rparr>,
        frame_owner := console_owner c, uart_owner := serial_owner c\<rparr>"

subsection \<open>The page table register\<close>

definition LoadCR3 :: "u64 \<Rightarrow> boot_state \<Rightarrow> boot_state" where
  "LoadCR3 pml4Phys b = b\<lparr>CR3 := pml4Phys\<rparr>"

definition ReadCR3 :: "boot_state \<Rightarrow> u64" where
  "ReadCR3 b = CR3 b"

definition FlushTLB :: "boot_state \<Rightarrow> boot_state" where
  "FlushTLB b = LoadCR3 (ReadCR3 b) b"

declare LoadCR3_def [simp] ReadCR3_def [simp]

subsection \<open>The steps of main\<close>

definition InitCPU :: "boot_env \<Rightarrow> boot_state \<Rightarrow> boot_state" where
  "InitCPU env b = b\<lparr>tables := InitIDT (be_at env) (InitGDTAndTSS (be_at env) (be_stackTop env) (tables b))\<rparr>"

definition InitMemory :: "boot_env \<Rightarrow> BootInfo \<Rightarrow> boot_state \<Rightarrow> kernel_error + boot_state" where
  "InitMemory env info b =
     (let h = boot_heap b;
          e = (early b)\<lparr>PhysicalMemoryPageBitmap := hs_bitmap h\<rparr>;
          p = ParseMemoryInfo (MemInfo info) (phys.truncate e);
          e1 = e\<lparr>PhysicalMemoryPageBitmap := PhysicalMemoryPageBitmap p, ParseMemoryInfo_called := ParseMemoryInfo_called p\<rparr>;
          e2 = InitEarlyPageAllocator (be_allocBuffer env) (MemInfo info) e1;
          allocator = GetEarlyPageAllocator e2;
          h1 = InitOperatorNew allocator (h\<lparr>hs_bitmap := PhysicalMemoryPageBitmap e2\<rparr>);
          (ok, cr3, m, bm) = BuildIdentityMap2M AllocatePage (Some (MemInfo info)) (be_junk env) (hs_mem h1) (hs_bitmap h1);
          b1 = (set_heap (h1\<lparr>hs_mem := m, hs_bitmap := bm\<rparr>) b)\<lparr>early := e2\<rparr>;
          b2 = b1\<lparr>intr := (intr b1)\<lparr>sched := (sched (intr b1))\<lparr>gAllocator := allocator\<rparr>\<rparr>\<rparr>
      in if ok then Inr (LoadCR3 cr3 b2) else Inl (Panic STATUS_ERROR 0))"

definition DIV_SHIFT :: u8 where "DIV_SHIFT = 3"
definition TARGET_US :: u32 where "TARGET_US = 1000"

definition InitPerCPUAndTime :: "boot_env \<Rightarrow> BootInfo \<Rightarrow> boot_state \<Rightarrow> boot_state option" where
  "InitPerCPUAndTime env info b =
     (let hw = be_hw env;
          s = InitPerCPU hw (intr b)
      in case CalibrateTimerInitialCountTSC hw (TSCFreq (ClockInfo info)) DIV_SHIFT TARGET_US 200 s of
           None \<Rightarrow> None
         | Some (ini, s1) \<Rightarrow>
             let s2 = InitTimerHandler VEC_TIMER s1
             in Some (b\<lparr>intr := exec (ConfigureTimer hw VEC_TIMER DIV_SHIFT ini True) s2\<rparr>))"

text \<open>A call on the console that \<open>main\<close> holds.\<close>

definition on_console :: "(console_state \<Rightarrow> console_state option) \<Rightarrow> boot_state \<Rightarrow> boot_state boot_result" where
  "on_console f b = (case f (consoles b) of None \<Rightarrow> None | Some c \<Rightarrow> Some (Inr (put_consoles c b)))"

definition init_consoles :: "boot_env \<Rightarrow> BootInfo \<Rightarrow> boot_state \<Rightarrow> kernel_error + console_state IOutputDevice \<times> boot_state" where
  "init_consoles env info b =
     (case InitKernelConsole (be_sizes env) (FrameBufferInfo info) (consoles b) of
        Inl e \<Rightarrow> Inl e
      | Inr c1 \<Rightarrow>
          (case InitSerialConsole (be_hw env) (be_sizes env) (be_junk env) c1 of
             Inl e \<Rightarrow> Inl e
           | Inr c2 \<Rightarrow>
               (case GetBootstrapConsole (be_hw env) (be_sizes env) c2 of
                  Inl e \<Rightarrow> Inl e
                | Inr ((p, out), c3) \<Rightarrow> Inr (out, put_consoles c3 b))))"

definition make_ioapics :: "boot_env \<Rightarrow> ParsedMADT \<Rightarrow> boot_state \<Rightarrow> boot_state" where
  "make_ioapics env madt b =
     (let (p, bm) = AllocatePage_size (be_sizeofIOAPIC env * of_nat (IOAPICCount madt)) (hs_bitmap (boot_heap b));
          objs = map (\<lambda>i. \<lparr>IOAPIC.m_Base = Phys (IOAPICs madt ! i), m_GSIBase = GSIBase (IOAPICs madt ! i)\<rparr>) [0..<IOAPICCount madt]
      in (set_heap ((boot_heap b)\<lparr>hs_bitmap := bm\<rparr>) b)\<lparr>ioapics := (p, objs)\<rparr>)"

text \<open>The processor brand string: three CPUID leaves, four registers each, least significant byte first.\<close>

definition leaf_bytes :: "u32 \<times> u32 \<times> u32 \<times> u32 \<Rightarrow> u8 list" where
  "leaf_bytes r = (case r of (a, b, c, d) \<Rightarrow> bytes32 a @ bytes32 b @ bytes32 c @ bytes32 d)"

definition procName :: "hardware \<Rightarrow> ('r, u8 list) hw" where
  "procName hw = do {
     r1 \<leftarrow> CPUID hw 0x80000002 0;
     r2 \<leftarrow> CPUID hw 0x80000003 0;
     r3 \<leftarrow> CPUID hw 0x80000004 0;
     State_Monad.return (leaf_bytes r1 @ leaf_bytes r2 @ leaf_bytes r3)
   }"

definition main_early :: "boot_env \<Rightarrow> BootInfo \<Rightarrow> boot_state \<Rightarrow> kernel_error + console_state IOutputDevice \<times> boot_state" where
  "main_early env info b =
     (let b1 = b\<lparr>crit := StartCriticalSection (crit b)\<rparr>;
          b2 = b1\<lparr>intr := exec DisableLegacyPIC (intr b1)\<rparr>;
          b3 = InitCPU env b2
      in case InitMemory env info b3 of
           Inl e \<Rightarrow> Inl e
         | Inr b4 \<Rightarrow> init_consoles env info b4)"

definition main_apic :: "boot_env \<Rightarrow> BootInfo \<Rightarrow> boot_state \<Rightarrow> boot_state boot_result" where
  "main_apic env info b =
     (let s = InitCoreExceptionHandlers (InitInterruptDispatch (APICController (be_hw env) (intr b)));
          b1 = b\<lparr>intr := s\<rparr>
      in case ParseMADT (hs_mem (boot_heap b1)) (RSDP info) new_ParsedMADT of
           None \<Rightarrow> None
         | Some (ok, madt) \<Rightarrow>
             if \<not> ok then Some (Inl (Panic STATUS_ERROR 0))
             else map_option Inr (InitPerCPUAndTime env info (make_ioapics env madt b1)))"

definition main_report :: "boot_env \<Rightarrow> BootInfo \<Rightarrow> console_state IOutputDevice \<Rightarrow> boot_state \<Rightarrow> boot_state boot_result" where
  "main_report env info out b0 =
     boot_bind (on_console (dev_PutString out (cstr ''PerCPU initialization finished. LAPIC ID='')) b0) (\<lambda>b.
     boot_bind (on_console (dev_PutString out (cstr (ULongToHexString (ucast (LAPICID (cpu (sched (intr b)))))))) b) (\<lambda>b.
     boot_bind (on_console (dev_PutChar out 0x0A) b) (\<lambda>b.
     let b1 = b\<lparr>gHwClockInfo := SetHardwareTimerInfo (Some (ClockInfo info)) (gHwClockInfo b)\<rparr>;
         b2 = b1\<lparr>acpiManager := ACPIManager (hs_mem (boot_heap b1)) (RSDP info)\<rparr>
     in boot_bind (on_console (dev_PutString out (cstr (''Finished kernel initialization.'' @ [CHR 0x0A]))) b2) (\<lambda>b.
     let (name, s) = run_state (procName (be_hw env)) (intr b);
         b3 = b\<lparr>intr := s\<rparr>
     in boot_bind (on_console (dev_PutString out (cstr ''Processor: '')) b3) (\<lambda>b.
     boot_bind (on_console (dev_PutString out (takeWhile (\<lambda>c. c \<noteq> 0) name)) b) (\<lambda>b.
     on_console (dev_Flush out) b))))))"

definition main :: "boot_env \<Rightarrow> BootInfo \<Rightarrow> boot_state \<Rightarrow> boot_state boot_result" where
  "main env info b0 =
     boot_bind (Some (main_early env info b0)) (\<lambda>(out, b).
     boot_bind (main_apic env info b) (\<lambda>b.
     boot_bind (main_report env info out b) (\<lambda>b.
     let b1 = b\<lparr>crit := EndCriticalSection (crit b)\<rparr>
     in case KernelStartThreads (be_image env) (be_names env) (be_workers env) (sched (intr b1)) of
          Inl e \<Rightarrow> Some (Inl e)
        | Inr s \<Rightarrow> Some (Inr (b1\<lparr>intr := (intr b1)\<lparr>sched := s\<rparr>\<rparr>)))))"

text \<open>
  The entry point of \<open>Boot.S\<close>: interrupts and the direction flag are cleared, the stack pointer is set, and \<open>call\<close> pushes
  the address of \<open>hang_loop\<close>, where the processor would halt for good if \<open>main\<close> returned.
\<close>

definition DF_BIT :: nat where "DF_BIT = 10"

definition start_entry :: "boot_env \<Rightarrow> u64 \<Rightarrow> boot_state \<Rightarrow> boot_state" where
  "start_entry env hang_loop b =
     (let s = sched (intr b);
          sp = start_rsp (be_stackTop env) - 8;
          h = (boot_heap b)\<lparr>hs_mem := write64 (hs_mem (boot_heap b)) sp hang_loop\<rparr>
      in b\<lparr>crit := (crit b)\<lparr>flags := unset_bit DF_BIT (unset_bit IF_BIT (flags (crit b)))\<rparr>,
           intr := (intr b)\<lparr>sched := s\<lparr>regs := (regs s)\<lparr>rsp := sp\<rparr>, sched_state.heap := h\<rparr>\<rparr>\<rparr>)"

definition start :: "boot_env \<Rightarrow> u64 \<Rightarrow> BootInfo \<Rightarrow> boot_state \<Rightarrow> boot_state boot_result" where
  "start env hang_loop info b = main env info (start_entry env hang_loop b)"

subsection \<open>The workers\<close>

text \<open>One round of each endless loop. \<open>resume\<close> is what other threads and interrupts do while the thread is switched out.\<close>

definition WorkerA_round :: "boot_env \<Rightarrow> (nat \<Rightarrow> sched_state \<Rightarrow> sched_state) \<Rightarrow> boot_state \<Rightarrow> boot_state boot_result" where
  "WorkerA_round env resume b =
     (case GetBootstrapConsole (be_hw env) (be_sizes env) (consoles b) of
        Inl e \<Rightarrow> Some (Inl e)
      | Inr ((p, con), c) \<Rightarrow>
          boot_bind (on_console (dev_PutString con
              (cstr (''Hello, Scheduled tasks! This message must be shown once per a second!'' @ [CHR 0x0A]))) (put_consoles c b)) (\<lambda>b1.
          case SleepMs (be_image env) resume 1000 (sched (intr b1)) of
            None \<Rightarrow> None
          | Some (Inl e) \<Rightarrow> Some (Inl e)
          | Some (Inr s) \<Rightarrow> Some (Inr (b1\<lparr>intr := (intr b1)\<lparr>sched := s\<rparr>\<rparr>))))"

definition WorkerB_start :: "boot_env \<Rightarrow> boot_state \<Rightarrow> kernel_error + console_state IOutputDevice \<times> u64 \<times> boot_state" where
  "WorkerB_start env b =
     (case GetBootstrapConsole (be_hw env) (be_sizes env) (consoles b) of
        Inl e \<Rightarrow> Inl e
      | Inr ((p, con), c) \<Rightarrow> Inr (con, TickCount (cpu (sched (intr b))) + 4000, put_consoles c b))"

definition WorkerB_round :: "boot_env \<Rightarrow> console_state IOutputDevice \<Rightarrow> u64 \<Rightarrow> boot_state \<Rightarrow> (u64 \<times> boot_state) boot_result" where
  "WorkerB_round env con nxt b0 =
     boot_bind
       (if TickCount (cpu (sched (intr b0))) \<ge> nxt
        then boot_bind (on_console (dev_PutString con (cstr (''Greetings from Worker B!'' @ [CHR 0x0A]))) b0)
               (\<lambda>b. Some (Inr (nxt + 4000, b)))
        else Some (Inr (nxt, b0)))
       (\<lambda>(nxt', b).
          case Yield (be_image env) (sched (intr b)) of
            Inl e \<Rightarrow> Some (Inl e)
          | Inr s \<Rightarrow> Some (Inr (nxt', b\<lparr>intr := (intr b)\<lparr>sched := s\<rparr>\<rparr>)))"

subsection \<open>Lemmas\<close>

lemma boot_heap_simps [simp]:
  "boot_heap (set_heap h b) = h" "boot_heap (b\<lparr>early := e\<rparr>) = boot_heap b" "boot_heap (b\<lparr>CR3 := v\<rparr>) = boot_heap b"
  "boot_heap (b\<lparr>intr := (intr b)\<lparr>sched := (sched (intr b))\<lparr>gAllocator := al\<rparr>\<rparr>\<rparr>) = boot_heap b"
  by (simp_all add: boot_heap_def set_heap_def)

lemma static_local_once:
  "static_local init (static_local init0 gv) = static_local init0 gv"
  by (simp add: static_local_def cxa_guard_acquire_def cxa_guard_release_def)

lemma start_rsp_misaligned:
  assumes "KernelStackTop \<noteq> 0" and "unat KernelStackTop mod 16 = 0"
  shows "unat (start_rsp KernelStackTop) mod 16 = 8"
proof -
  obtain k where k: "unat KernelStackTop = 16 * k" using assms(2) by (metis mod_0_imp_dvd dvd_def)
  have "k \<noteq> 0" using assms(1) k by (auto simp: word_unat_eq_iff)
  then obtain j where j: "unat KernelStackTop = 16 * j + 16" using k by (cases k) auto
  then have "(8 :: u64) \<le> KernelStackTop" by (simp add: word_le_nat_alt)
  then have "unat (start_rsp KernelStackTop) = 16 * j + 8" unfolding start_rsp_def using j by (subst unat_sub) auto
  then show ?thesis by simp
qed

text \<open>The dispatcher is initialised after the controller object has installed its acknowledgement.\<close>

lemma main_loses_EOI_emitter:
  "gEOI (InitCoreExceptionHandlers (InitInterruptDispatch (APICController hw s))) = None"
  by (simp add: InitCoreExceptionHandlers_def InitInterruptDispatch_def RegisterInterruptHandler_def Let_def)

text \<open>The pages of the memory map that the bitmap can describe.\<close>

definition usable_pages :: "MemoryInfo \<Rightarrow> nat set" where
  "usable_pages info = {p. p < TOTAL_PAGES \<and>
     (\<exists>i<unat (FreeRegionCount info). region_fits (FreeMemory info i) \<and> p \<in> region_pages (FreeMemory info i))}"

definition map_ok :: "MemoryInfo \<Rightarrow> bool" where
  "map_ok info \<longleftrightarrow> (\<forall>i<unat (FreeRegionCount info). region_wf (FreeMemory info i)) \<and>
     (\<forall>i<unat (FreeRegionCount info). \<not> region_stray (FreeMemory info i)) \<and>
     unat (CalcMaxPhys info) \<le> 549755813888 \<and> 2 + gib_count info \<le> card (usable_pages info)"

lemma early_memory:
  fixes e :: early_state
  assumes "\<not> isInitialized e" and "\<not> ParseMemoryInfo_called e" and "map_ok info"
    and "PhysicalMemoryPageBitmap e BITMAP_BYTES = 0xFF"
    and "p = ParseMemoryInfo info (phys.truncate e)"
    and "e2 = InitEarlyPageAllocator buf info
      (e\<lparr>PhysicalMemoryPageBitmap := PhysicalMemoryPageBitmap p, ParseMemoryInfo_called := ParseMemoryInfo_called p\<rparr>)"
  shows "bitmap_ok (PhysicalMemoryPageBitmap e2)" and "free_pages (PhysicalMemoryPageBitmap e2) = usable_pages info"
    and "GetEarlyPageAllocator e2 = buf"
proof -
  let ?e1 = "e\<lparr>PhysicalMemoryPageBitmap := PhysicalMemoryPageBitmap p, ParseMemoryInfo_called := ParseMemoryInfo_called p\<rparr>"
  have wf: "\<forall>i<unat (FreeRegionCount info). region_wf (FreeMemory info i)"
    "\<forall>i<unat (FreeRegionCount info). \<not> region_stray (FreeMemory info i)" using assms(3) by (simp_all add: map_ok_def)
  have c: "\<not> isInitialized ?e1" "\<not> ParseMemoryInfo_called ?e1"
    using assms(1,2) by (simp_all add: assms(5) ParseMemoryInfo_def phys.defs Let_def)
  have byte: "PhysicalMemoryPageBitmap ?e1 BITMAP_BYTES = 0xFF"
    using wf assms(4) by (simp add: assms(5) ParseMemoryInfo_def Let_def fold_ParseRegion_outside page_consts phys.defs)
  from InitEarlyPageAllocator_establishes [OF c wf byte, of buf] show "bitmap_ok (PhysicalMemoryPageBitmap e2)" "GetEarlyPageAllocator e2 = buf"
    by (simp_all add: assms(6))
  have "PhysicalMemoryPageBitmap e2 = PhysicalMemoryPageBitmap (ParseMemoryInfo info (phys.truncate ?e1))"
    using c(1) by (simp add: assms(6) InitEarlyPageAllocator_def Let_def)
  then show "free_pages (PhysicalMemoryPageBitmap e2) = usable_pages info"
    using page_free_ParseMemoryInfo [OF _ wf(1), of "phys.truncate ?e1"] c(2)
    by (auto simp: free_pages_def usable_pages_def phys.defs)
qed

text \<open>What \<open>InitMemory\<close> leaves behind.\<close>

lemma InitMemory_result:
  assumes "\<not> isInitialized (early b)" and "\<not> ParseMemoryInfo_called (early b)" and "map_ok (MemInfo info)"
    and "hs_bitmap (boot_heap b) BITMAP_BYTES = 0xFF"
  obtains P4 P3 bm0 m' bm' e2 where
    "InitMemory env info b = Inr (b\<lparr>early := e2, CR3 := page_addr P4, intr := (intr b)\<lparr>sched := (sched (intr b))
       \<lparr>sched_state.heap := (boot_heap b)\<lparr>gEarlyAlloc := be_allocBuffer env, hs_mem := m', hs_bitmap := bm'\<rparr>, gAllocator := be_allocBuffer env\<rparr>\<rparr>\<rparr>)"
    "BuildIdentityMap2M AllocatePage (Some (MemInfo info)) (be_junk env) (hs_mem (boot_heap b)) bm0 = (True, page_addr P4, m', bm')"
    "bitmap_ok bm0" "free_pages bm0 = usable_pages (MemInfo info)" "bitmap_ok bm'" "free_pages bm' \<subseteq> usable_pages (MemInfo info) - {P4, P3}"
    "same_except (usable_pages (MemInfo info)) (hs_mem (boot_heap b)) m'" "P4 \<in> usable_pages (MemInfo info)" "P3 \<in> usable_pages (MemInfo info)"
    "map_built (MemInfo info) (usable_pages (MemInfo info)) P4 P3 m'"
proof -
  let ?mi = "MemInfo info" and ?e = "(early b)\<lparr>PhysicalMemoryPageBitmap := hs_bitmap (boot_heap b)\<rparr>"
  define p where "p = ParseMemoryInfo ?mi (phys.truncate ?e)"
  define e2 where "e2 = InitEarlyPageAllocator (be_allocBuffer env) ?mi
      (?e\<lparr>PhysicalMemoryPageBitmap := PhysicalMemoryPageBitmap p, ParseMemoryInfo_called := ParseMemoryInfo_called p\<rparr>)"
  have "\<not> isInitialized ?e" "\<not> ParseMemoryInfo_called ?e" "PhysicalMemoryPageBitmap ?e BITMAP_BYTES = 0xFF"
    using assms(1,2,4) by simp_all
  note e = early_memory [OF this(1,2) assms(3) this(3) p_def e2_def]
  have mx: "unat (CalcMaxPhys ?mi) \<le> 549755813888" and cd: "2 + gib_count ?mi \<le> card (free_pages (PhysicalMemoryPageBitmap e2))"
    using assms(3) by (simp_all add: map_ok_def e(2))
  from early.BuildIdentityMap2M_True [OF e(1) mx cd, of "be_junk env" "hs_mem (boot_heap b)"] obtain P4 P3 m' bm' where
    r: "BuildIdentityMap2M AllocatePage (Some ?mi) (be_junk env) (hs_mem (boot_heap b)) (PhysicalMemoryPageBitmap e2) =
         (True, page_addr P4, m', bm')" "P4 \<in> usable_pages ?mi" "P3 \<in> usable_pages ?mi"
      "bitmap_ok bm'" "free_pages bm' \<subseteq> usable_pages ?mi - {P4, P3}" "same_except (usable_pages ?mi) (hs_mem (boot_heap b)) m'"
      "map_built ?mi (usable_pages ?mi) P4 P3 m'" unfolding e(2) by blast
  have "InitMemory env info b = Inr (b\<lparr>early := e2, CR3 := page_addr P4, intr := (intr b)\<lparr>sched := (sched (intr b))
       \<lparr>sched_state.heap := (boot_heap b)\<lparr>gEarlyAlloc := be_allocBuffer env, hs_mem := m', hs_bitmap := bm'\<rparr>, gAllocator := be_allocBuffer env\<rparr>\<rparr>\<rparr>)"
    unfolding InitMemory_def p_def [symmetric] e2_def [symmetric] Let_def InitOperatorNew_def
    by (simp add: e(3) r(1)) (simp add: set_heap_def boot_heap_def)
  with r e that show thesis by blast
qed

lemma identity_map:
  assumes "map_built info Q P4 P3 m" and "Q \<subseteq> {..<TOTAL_PAGES}" and "P4 \<in> Q" and "P3 \<in> Q"
    and "unat (CalcMaxPhys info) \<le> 549755813888" and "va < CalcMaxPhys info"
  shows "translate m (page_addr P4) va = Some va"
proof -
  let ?x = "unat (CalcMaxPhys info)"
  have "?x \<le> unat (AlignUp (CalcMaxPhys info) PAGE_2M)"
    using div_mult_mod_eq [of "?x + 2097151" 2097152] mod_less_divisor [of 2097152 "?x + 2097151"]
    unfolding limits(1) [OF assms(5)] by linarith
  then have "va < AlignUp (CalcMaxPhys info) PAGE_2M" "unat va < gib_count info * 1073741824"
    using assms(6) limits(4) [OF assms(5)] by (auto simp: word_less_nat_alt)
  with translate_map_built [OF assms(1,2) _ _ assms(5), of va] assms(2-4) show ?thesis by auto
qed

lemma usable_range: "usable_pages info \<subseteq> {..<TOTAL_PAGES}"
  by (auto simp: usable_pages_def)

subsection \<open>Properties\<close>


subsection \<open>A machine before boot\<close>

definition cold_tables :: cpu_tables where
  "cold_tables = \<lparr>gGDT = \<lambda>_. 0, gGDTPtr = \<lparr>GDTR_Limit = 0, GDTR_Base = 0\<rparr>, gTSS = zero_TSS,
     gIDT = replicate 256 (idt_gate 0 0), gIDTPtr = \<lparr>IDTR_Limit = 0, IDTR_Base = 0\<rparr>, reg_gdtr = \<lparr>GDTR_Limit = 0, GDTR_Base = 0\<rparr>,
     reg_idtr = \<lparr>IDTR_Limit = 0, IDTR_Base = 0\<rparr>, reg_cs = 0, reg_data = 0, reg_tr = 0\<rparr>"

definition cold_boot :: boot_state where
  "cold_boot = \<lparr>intr = sample_boot\<lparr>sched := (example_sched [])\<lparr>sched_state.heap := \<lparr>hs_bitmap = \<lambda>_. 0xFF, hs_mem = \<lambda>_. 0, gEarlyAlloc = 0\<rparr>\<rparr>\<rparr>,
     tables = cold_tables, early = example_early, crit = \<lparr>InCritical = False, flags = 2\<rparr>, frame_owner = None, uart_owner = None,
     CR3 = 0, gHwClockInfo = None, ioapics = (0, []), acpiManager = 0\<rparr>"

definition cold_env :: boot_env where
  "cold_env = \<lparr>be_hw = sample_uart_hw, be_at = \<lparr>addr_gGDT = 0x101000, addr_gTSS = 0x102000, addr_gIDT = 0x103000, addr_Handler = \<lambda>n. 0x110000 + of_nat n * 16\<rparr>,
     be_stackTop = 0x120000, be_allocBuffer = 0x200000, be_sizes = sample_sizes, be_sizeofIOAPIC = 24, be_junk = 0, be_image = example_image,
     be_names = (0x180020, 0x180030), be_workers = (0x100300, 0x100400)\<rparr>"

definition cold_info :: BootInfo where
  "cold_info = \<lparr>MemInfo = example_info, ClockInfo = \<lparr>InitialUNIXTime = 0, InitialTSC = 0, TSCFreq = 1000000\<rparr>,
     FrameBufferInfo = \<lparr>FrameBufferBase = 0xE0000000, FrameBufferSize = 0x400, PixelsPerScanLine = 16, HorizontalResolution = 16,
       VerticalResolution = 16, DisplayPixelFormat = BGR\<rparr>, RSDP = 0\<rparr>"

lemma example_usable: "usable_pages example_info = {2, 3, 4}"
proof -
  have "region_fits (FreeMemory example_info i)" for i by (simp add: example_info_def region_fits_def region_last_def page_consts)
  moreover have "region_pages (FreeMemory example_info i) = {2, 3, 4}" for i by (auto simp: example_info_def region_pages_def)
  ultimately show ?thesis by (auto simp: usable_pages_def example_info_def page_consts)
qed

lemma example_map_ok: "map_ok example_info"
  using example_info_wf example_paging(1,2) by (simp add: map_ok_def example_usable)


end
