(* ===== verification/BootMemory.thy ===== *)
theory BootMemory
  imports Boot
begin

text \<open>
  The memory of the boot sequence (\<open>InitMemory\<close> and the first objects of \<open>Kernel/Core/KernelMain.cpp\<close>), page by page. A run of
  free pages loses at most its first page to each allocation, which is what the proof of the whole boot
  sequence rests on; when the lowest free pages are consecutive, the pages of the tables and of the first
  object are known exactly.
\<close>

unbundle bit_operations_syntax

subsection \<open>Page by page\<close>

lemma AllocatePage_run:
  assumes "bitmap_ok bm" and "run_free bm a (Suc k)"
  obtains p bm' where "AllocatePage bm = (page_addr p, bm')" "p \<in> free_pages bm" "page_addr p \<noteq> 0" "bitmap_ok bm'"
    "free_pages bm' = free_pages bm - {p}" "p \<le> a" "run_free bm' (Suc a) k"
proof -
  let ?p = "Min (free_pages bm)"
  have a: "a \<in> free_pages bm" using assms(2) by (auto simp: run_free_def)
  then have ne: "free_pages bm \<noteq> {}" by auto
  obtain bm' where r: "AllocatePage bm = (page_addr ?p, bm')" "bitmap_ok bm'" "free_pages bm' = free_pages bm - {?p}"
    using early.alloc_some [OF assms(1) ne] by blast
  have p: "?p \<in> free_pages bm" by (rule AllocatePage_Min(1) [OF assms(1) ne])
  have le: "?p \<le> a" using a early.finite_FREE [OF assms(1)] by simp
  have "0 < ?p" "?p < TOTAL_PAGES" using p free_pages_range [OF assms(1)] by auto
  then have "page_addr ?p \<noteq> 0" by simp
  moreover have "run_free bm' (Suc a) k" using assms(2) r(3) le by (auto simp: run_free_def)
  ultimately show thesis using that r p le by blast
qed

lemma BuildPDPT_loop_run:
  "bitmap_ok bm \<Longrightarrow> run_free bm a (gib - g + k) \<Longrightarrow>
   run_free (snd (snd (BuildPDPT_loop AllocatePage info lim pdpt gib g m bm))) (a + (gib - g)) k"
proof (induction "gib - g" arbitrary: g a m bm)
  case 0
  then show ?case by (subst BuildPDPT_loop.simps) simp
next
  case (Suc d)
  then have g: "g < gib" "gib - g = Suc d" and d: "gib - Suc g = d" by simp_all
  from Suc.prems g(2) have "run_free bm a (Suc (d + k))" by simp
  from AllocatePage_run [OF Suc.prems(1) this] obtain p bm' where
    p: "AllocatePage bm = (page_addr p, bm')" "page_addr p \<noteq> 0" "bitmap_ok bm'" "run_free bm' (Suc a) (d + k)" by blast
  have "run_free (snd (snd (BuildPDPT_loop AllocatePage info lim pdpt gib (Suc g) m' bm'))) (Suc a + d) k" for m'
    using Suc.hyps(1) [OF d [symmetric] p(3), of "Suc a" m'] p(4) by (simp add: d)
  then show ?case using g p(1,2) by (subst BuildPDPT_loop.simps) (simp add: Let_def)
qed

lemma BuildIdentityMap2M_run:
  assumes "bitmap_ok bm" and "unat (CalcMaxPhys info) \<le> 549755813888" and "run_free bm a (2 + gib_count info + k)"
    and "BuildIdentityMap2M AllocatePage (Some info) c m bm = (True, cr3, m', bm')"
  shows "run_free bm' (a + 2 + gib_count info) k"
proof -
  have le: "\<not> ENTIRIES < AlignUp (CalcMaxPhys info) PAGE_1G div PAGE_1G"
    using limits(2,3) [OF assms(2)] by (simp add: word_less_nat_alt ENTIRIES_def)
  from assms(3) have "run_free bm a (Suc (Suc (gib_count info + k)))" by simp
  from AllocatePage_run [OF assms(1) this] obtain p bm1 where
    p: "AllocatePage bm = (page_addr p, bm1)" "page_addr p \<noteq> 0" "bitmap_ok bm1" "run_free bm1 (Suc a) (Suc (gib_count info + k))" by blast
  from AllocatePage_run [OF p(3,4)] obtain q bm2 where
    q: "AllocatePage bm1 = (page_addr q, bm2)" "bitmap_ok bm2" "run_free bm2 (Suc (Suc a)) (gib_count info - 0 + k)" by (metis diff_zero)
  from BuildPDPT_loop_run [OF q(2,3)] assms(4) le p(1,2) q(1) limits(2) [OF assms(2)] show ?thesis
    by (auto simp: BuildIdentityMap2M_def Let_def case_prod_beta split: if_splits) (metis snd_conv)
qed

subsection \<open>The lowest pages\<close>

text \<open>When the lowest free pages are consecutive, the allocator hands them out in order.\<close>

definition lowest_run :: "byte_array \<Rightarrow> nat \<Rightarrow> nat \<Rightarrow> bool" where
  "lowest_run bm a n \<longleftrightarrow> run_free bm a n \<and> (\<forall>p\<in>free_pages bm. a \<le> p)"

lemma AllocatePage_lowest:
  assumes "bitmap_ok bm" and "lowest_run bm a (Suc k)"
  obtains bm' where "AllocatePage bm = (page_addr a, bm')" "page_addr a \<noteq> 0" "a < TOTAL_PAGES" "bitmap_ok bm'" "lowest_run bm' (Suc a) k"
proof -
  from AllocatePage_run [OF assms(1), of a k] assms(2) obtain p bm' where
    p: "AllocatePage bm = (page_addr p, bm')" "p \<in> free_pages bm" "page_addr p \<noteq> 0" "bitmap_ok bm'"
      "free_pages bm' = free_pages bm - {p}" "p \<le> a" "run_free bm' (Suc a) k" by (auto simp: lowest_run_def)
  then have "p = a" using assms(2) by (auto simp: lowest_run_def)
  moreover have "lowest_run bm' (Suc a) k" using p(5,7) assms(2) \<open>p = a\<close> by (auto simp: lowest_run_def Suc_le_eq le_less)
  moreover have "p < TOTAL_PAGES" using p(2) free_pages_range [OF assms(1)] by auto
  ultimately show thesis using that p by simp
qed

lemma BuildPDPT_loop_lowest:
  assumes "bitmap_ok bm" and "gib \<le> 512" and "P < c" and "c \<le> TOTAL_PAGES" and "lowest_run bm c (gib - g + k)"
  shows "\<exists>m' bm'. BuildPDPT_loop AllocatePage info lim (page_addr P) gib g m bm = (True, m', bm') \<and> bitmap_ok bm' \<and>
    lowest_run bm' (c + (gib - g)) k \<and> same_except (insert P {c..<c + (gib - g)}) m m' \<and>
    (\<forall>j<512. j \<notin> {g..<gib} \<longrightarrow> read64 m' (entry_at P j) = read64 m (entry_at P j)) \<and>
    (\<forall>j\<in>{g..<gib}. directory_of info lim m' P j (c + (j - g)))"
  using assms
proof (induction "gib - g" arbitrary: g c m bm)
  case 0
  then show ?case by (subst BuildPDPT_loop.simps) auto
next
  case (Suc d)
  then have g: "g < gib" "gib - g = Suc d" "g < 512" and d: "gib - Suc g = d" by simp_all
  from Suc.prems(5) g(2) have "lowest_run bm c (Suc (d + k))" by simp
  from AllocatePage_lowest [OF Suc.prems(1) this] obtain bm1 where
    c: "AllocatePage bm = (page_addr c, bm1)" "page_addr c \<noteq> 0" "c < TOTAL_PAGES" "bitmap_ok bm1" "lowest_run bm1 (Suc c) (d + k)" by blast
  define m2 where "m2 = write64 (FillMemory m (page_addr c) PAGE_4K 0) (entry_at P g) (table_ref c)"
  define m3 where "m3 = BuildPD_loop info lim (of_nat g * PAGE_1G) (page_addr c) 0 m2"
  have Pc: "P \<noteq> c" "P < TOTAL_PAGES" using Suc.prems(3) c(3) by auto
  note st = directory_step [OF Pc c(3) g(3) m2_def m3_def]
  have "d = gib - Suc g" "P < Suc c" "Suc c \<le> TOTAL_PAGES" "lowest_run bm1 (Suc c) (gib - Suc g + k)"
    using d Suc.prems(3) c(3,5) by simp_all
  from Suc.hyps(1) [OF this(1) c(4) Suc.prems(2) this(2-4), of m3] obtain m' bm' where
    r: "BuildPDPT_loop AllocatePage info lim (page_addr P) gib (Suc g) m3 bm1 = (True, m', bm')" "bitmap_ok bm'"
      "lowest_run bm' (Suc c + (gib - Suc g)) k" "same_except (insert P {Suc c..<Suc c + (gib - Suc g)}) m3 m'"
      "\<forall>j<512. j \<notin> {Suc g..<gib} \<longrightarrow> read64 m' (entry_at P j) = read64 m3 (entry_at P j)"
      "\<forall>j\<in>{Suc g..<gib}. directory_of info lim m' P j (Suc c + (j - Suc g))" by blast
  have run: "BuildPDPT_loop AllocatePage info lim (page_addr P) gib g m bm = (True, m', bm')"
    using g c(1,2) r(1) by (subst BuildPDPT_loop.simps) (simp add: m2_def m3_def table_ref_def)
  have eq: "Suc c + (gib - Suc g) = c + (gib - g)" using g by simp
  have "directory_of info lim m' P g c"
    using r(4,5) Pc c(3) g by (intro directory_of_same_except [OF st(2)]) auto
  then have "directory_of info lim m' P j (c + (j - g))" if "j \<in> {g..<gib}" for j
    using that r(6) by (cases "j = g") (auto simp: Suc_diff_Suc dest!: bspec [of _ _ j])
  moreover have "same_except (insert P {c..<c + (gib - g)}) m m'"
    using st(1) r(4) g unfolding eq by (auto simp: same_except_def)
  moreover have "\<forall>j<512. j \<notin> {g..<gib} \<longrightarrow> read64 m' (entry_at P j) = read64 m (entry_at P j)"
    using r(5) st(3) g by auto
  ultimately show ?case using run r(2,3) unfolding eq by blast
qed

lemma BuildIdentityMap2M_lowest:
  assumes "bitmap_ok bm" and "unat (CalcMaxPhys info) \<le> 549755813888" and "lowest_run bm a (2 + gib_count info + k)"
    and "BuildIdentityMap2M AllocatePage (Some info) c m bm = (True, cr3, m', bm')"
  shows "cr3 = page_addr a" and "a < TOTAL_PAGES" and "Suc a < TOTAL_PAGES" and "read64 m' (entry_at a 0) = table_ref (Suc a)" and "bitmap_ok bm'"
    and "lowest_run bm' (a + 2 + gib_count info) k"
    and "j < gib_count info \<Longrightarrow> directory_of info (AlignUp (CalcMaxPhys info) PAGE_2M) m' (Suc a) j (a + 2 + j)"
proof -
  note lim = limits [OF assms(2)]
  have le: "\<not> ENTIRIES < AlignUp (CalcMaxPhys info) PAGE_1G div PAGE_1G"
    using lim(2,3) by (simp add: word_less_nat_alt ENTIRIES_def)
  from assms(3) have "lowest_run bm a (Suc (Suc (gib_count info + k)))" by simp
  from AllocatePage_lowest [OF assms(1) this] obtain bm1 where
    p: "AllocatePage bm = (page_addr a, bm1)" "page_addr a \<noteq> 0" "a < TOTAL_PAGES" "bitmap_ok bm1" "lowest_run bm1 (Suc a) (Suc (gib_count info + k))" by blast
  from AllocatePage_lowest [OF p(4,5)] obtain bm2 where
    q: "AllocatePage bm1 = (page_addr (Suc a), bm2)" "Suc a < TOTAL_PAGES" "bitmap_ok bm2" "lowest_run bm2 (Suc (Suc a)) (gib_count info - 0 + k)"
    by (metis diff_zero)
  define m1 where "m1 = write64 m (entry_at a 0) (table_ref (Suc a))"
  from BuildPDPT_loop_lowest [OF q(3) lim(3) lessI _ q(4), of info "AlignUp (CalcMaxPhys info) PAGE_2M" m1] q(2) obtain m2 bm3 where
    r: "BuildPDPT_loop AllocatePage info (AlignUp (CalcMaxPhys info) PAGE_2M) (page_addr (Suc a)) (gib_count info) 0 m1 bm2 = (True, m2, bm3)"
      "bitmap_ok bm3" "lowest_run bm3 (Suc (Suc a) + gib_count info) k" "same_except (insert (Suc a) {Suc (Suc a)..<Suc (Suc a) + gib_count info}) m1 m2"
      "\<forall>j\<in>{0..<gib_count info}. directory_of info (AlignUp (CalcMaxPhys info) PAGE_2M) m2 (Suc a) j (Suc (Suc a) + j)"
    by auto
  have e: "cr3 = page_addr a" "m' = m2" "bm' = bm3"
    using assms(4) le p(1,2) q(1) r(1) lim(2) by (simp_all add: BuildIdentityMap2M_def Let_def m1_def table_ref_def)
  show "cr3 = page_addr a" "bitmap_ok bm'" "lowest_run bm' (a + 2 + gib_count info) k" "a < TOTAL_PAGES" "Suc a < TOTAL_PAGES"
    using e r(2,3) p(3) q(2) by simp_all
  show "j < gib_count info \<Longrightarrow> directory_of info (AlignUp (CalcMaxPhys info) PAGE_2M) m' (Suc a) j (a + 2 + j)"
    using r(5) e(2) by auto
  have "read64 m2 (entry_at a 0) = read64 m1 (entry_at a 0)"
    using p(3) by (intro read64_same_except [OF r(4)]) auto
  then show "read64 m' (entry_at a 0) = table_ref (Suc a)" by (simp add: e(2) m1_def)
qed

subsection \<open>The header of a block and the page tables\<close>

lemma read64_header:
  "read64 (store_info m a \<lparr>Magic = KMEM, AllocatedPages = 1\<rparr>) a = 0x14D454D4B"
proof -
  have "KMEM @ le_bytes 4 (ucast (1 :: u32)) = [0x4B, 0x4D, 0x45, 0x4D, 1, 0, 0, 0]" (is "?l = _")
    by (simp add: KMEM_def le_bytes_def upt_rec)
  moreover have "read64 (store_info m a \<lparr>Magic = KMEM, AllocatedPages = 1\<rparr>) a = from_le ?l"
    unfolding store_info_def read64_def by (simp add: mem_simps)
  ultimately show ?thesis by simp
qed

lemma store_info_same_except:
  assumes "p < 4503599627370496"
  shows "same_except {p} m (store_info m (entry_at p 511) \<lparr>Magic = KMEM, AllocatedPages = n\<rparr>)"
  unfolding same_except_def store_info_def
proof (intro allI impI write_bytes_other)
  fix x :: u64 and k
  assume "unat x div 4096 \<notin> {p}" "k < length (Magic \<lparr>Magic = KMEM, AllocatedPages = n\<rparr> @ le_bytes 4 (ucast (AllocatedPages \<lparr>Magic = KMEM, AllocatedPages = n\<rparr>)))"
  then show "x \<noteq> entry_at p 511 + of_nat k" using entry_page [OF assms, of 511 k] by auto
qed

text \<open>A block of one page puts its header into the last entry of the page before.\<close>

lemma small_block:
  assumes "unat sz + 8 \<le> 4096"
  shows "sz + sizeof_AllocatedMemoryInfo \<noteq> 0" "0 < sz + sizeof_AllocatedMemoryInfo" "new_pages sz = 1"
    "pages_for (sz + sizeof_AllocatedMemoryInfo) = 1"
proof -
  have u: "unat (sz + 8) = unat sz + 8" using assms by (subst unat_add_nowrap) auto
  then show "sz + sizeof_AllocatedMemoryInfo \<noteq> 0" "0 < sz + sizeof_AllocatedMemoryInfo"
    by (auto simp: sizeof_AllocatedMemoryInfo_def word_gt_0)
  show n: "new_pages sz = 1"
    using u assms by (auto simp: sizeof_AllocatedMemoryInfo_def new_pages_def intro!: div_nat_eqI)
  show "pages_for (sz + sizeof_AllocatedMemoryInfo) = 1"
    using n by (simp add: word_unat_eq_iff pages_for_eq new_pages_def)
qed

lemma header_slot: "0 < p \<Longrightarrow> page_addr p - sizeof_AllocatedMemoryInfo = entry_at (p - 1) 511"
  by (cases p) (simp_all add: page_addr_def sizeof_AllocatedMemoryInfo_def algebra_simps)

lemma operator_new_page:
  assumes "heap_ok h" and "unat sz + 8 \<le> 4096" and "run_free (hs_bitmap h) a (Suc k)"
  obtains p bm' where "operator_new sz h = Inr (page_addr p, h\<lparr>hs_bitmap := bm',
        hs_mem := store_info (hs_mem h) (entry_at (p - 1) 511) \<lparr>Magic = KMEM, AllocatedPages = 1\<rparr>\<rparr>)"
    "0 < p" "p \<in> free_pages (hs_bitmap h)" "bitmap_ok bm'" "free_pages bm' = free_pages (hs_bitmap h) - {p}" "p \<le> a"
    "run_free bm' (Suc a) k"
proof -
  have ok: "bitmap_ok (hs_bitmap h)" "gEarlyAlloc h \<noteq> 0" using assms(1) by (simp_all add: heap_ok_def)
  obtain p bm' where p: "AllocatePage (hs_bitmap h) = (page_addr p, bm')" "p \<in> free_pages (hs_bitmap h)" "page_addr p \<noteq> 0"
      "bitmap_ok bm'" "free_pages bm' = free_pages (hs_bitmap h) - {p}" "p \<le> a" "run_free bm' (Suc a) k"
    by (rule AllocatePage_run [OF ok(1) assms(3)])
  have "0 < p" using p(3) by (cases p) simp_all
  moreover have "AllocatePage_size (sz + sizeof_AllocatedMemoryInfo) (hs_bitmap h) = (page_addr p, bm')"
    using p(1) by (simp add: AllocatePage_size_def small_block(4) [OF assms(2)])
  ultimately show thesis
    using that p(2-7) ok(2) by (simp add: operator_new_def Let_def small_block(4) [OF assms(2)] header_slot)
qed

text \<open>The walk for the last 2 MiB of the last directory, once its last entry holds a block header.\<close>

lemma translate_header:
  assumes "read64 m (entry_at a 0) = table_ref (Suc a)" and "read64 m (entry_at (Suc a) (G - 1)) = table_ref q"
    and "read64 m (entry_at q 511) = 0x14D454D4B" and "a < TOTAL_PAGES" and "Suc a < TOTAL_PAGES" and "q < TOTAL_PAGES"
    and "0 < G" and "G \<le> 512" and "unat va div 2097152 = G * 512 - 1"
  shows "translate m (page_addr a) va =
    (let pte = read64 m (0x14D454000 + 8 * table_index 0 va)
     in if bit pte 0 then Some ((pte AND PG_ADDR_MASK) OR (va AND 0xFFF)) else None)"
proof -
  obtain n where n: "G = Suc n" using assms(7) by (cases G) auto
  have d: "unat va div 2097152 = n * 512 + 511" using assms(9) n by simp
  have d30: "unat va div 1073741824 = n" and d39: "unat va div 549755813888 = 0"
  proof -
    have "unat va div 1073741824 = unat va div 2097152 div 512" by (simp add: div_mult2_eq [symmetric])
    then show "unat va div 1073741824 = n" by (simp add: d)
    moreover have "unat va div 549755813888 = unat va div 1073741824 div 512" by (simp add: div_mult2_eq [symmetric])
    ultimately show "unat va div 549755813888 = 0" using assms(8) n by simp
  qed
  have 3: "table_entry m (page_addr a) 3 va = table_ref (Suc a)"
    using d39 assms(1) by (subst table_entry_page [OF page_addr_masked [OF assms(4)]]) simp
  have 2: "table_entry m (table_ref (Suc a)) 2 va = table_ref q"
    using d30 assms(2,8) n by (subst table_entry_page [OF table_ref_bits(1) [OF assms(5)]]) simp
  have 1: "table_entry m (table_ref q) 1 va = 0x14D454D4B"
    using d assms(3) by (subst table_entry_page [OF table_ref_bits(1) [OF assms(6)]]) simp
  have e: "bit (0x14D454D4B :: u64) 0" "\<not> bit (0x14D454D4B :: u64) 7" "(0x14D454D4B AND PG_ADDR_MASK :: u64) = 0x14D454000"
    by (simp_all add: PG_ADDR_MASK_def bit_numeral_rec)
  show ?thesis
    using 3 2 1 e table_ref_bits [OF assms(5)] table_ref_bits [OF assms(6)]
    by (simp add: translate_def Let_def table_entry_def [of m "0x14D454D4B" 0])
qed

subsection \<open>Properties\<close>


text \<open>A machine with 1 GiB of memory, of which pages 16 to 79 are free.\<close>

definition roomy_info :: MemoryInfo where
  "roomy_info = \<lparr>FreeMemory = (\<lambda>_. \<lparr>Base = 0x10000, Length = 0x40000\<rparr>), FreeRegionCount = 1,
     ReservedMemory = (\<lambda>_. \<lparr>Base = 0x3FF00000, Length = 0x100000\<rparr>), ReservedRegionCount = 1\<rparr>"

lemma roomy_usable: "usable_pages roomy_info = {16..<80}"
proof -
  have "region_fits (FreeMemory roomy_info i)" for i by (simp add: roomy_info_def region_fits_def region_last_def page_consts)
  moreover have "region_pages (FreeMemory roomy_info i) = {16..<80}" for i
    by (simp add: roomy_info_def region_pages_eq region_first_def region_last_def)
  moreover have "unat (FreeRegionCount roomy_info) = 1" by (simp add: roomy_info_def)
  ultimately show ?thesis by (auto simp: usable_pages_def page_consts)
qed

lemma roomy_max: "CalcMaxPhys roomy_info = 0x40000000" "gib_count roomy_info = 1"
  by (simp_all add: gib_count_def CalcMaxPhys_def roomy_info_def)

lemma roomy_map_ok: "map_ok roomy_info"
  using roomy_max by (simp add: map_ok_def roomy_usable)
    (simp add: roomy_info_def region_wf_def region_stray_def region_first_def region_last_def page_consts)

definition roomy_boot_info :: BootInfo where
  "roomy_boot_info = cold_info\<lparr>MemInfo := roomy_info\<rparr>"

end
