(* ===== verification/ConsoleWf.thy ===== *)
theory ConsoleWf
  imports Consoles
begin

text \<open>
  Well-formed consoles: the types and ranges that the fields of the console objects must have for the
  output interface (\<open>IOutputDevice.hpp\<close>) to be usable, and the proof that every operation of the combined boot
  console returns and keeps them, whether or not a serial port was found. What an operation leaves alone
  is the relation \<open>console_kept\<close>; the boot sequence is verified over it.
\<close>

subsection \<open>Operations of the interface\<close>

datatype dev_op = OpPutChar u8 | OpPutString "u8 list" | OpFlush | OpReset | OpShutdown

fun do_op :: "'s IOutputDevice \<Rightarrow> dev_op \<Rightarrow> 's \<Rightarrow> 's option" where
  "do_op dev (OpPutChar c) = dev_PutChar dev c"
| "do_op dev (OpPutString cs) = dev_PutString dev cs"
| "do_op dev OpFlush = dev_Flush dev"
| "do_op dev OpReset = dev_Reset dev"
| "do_op dev OpShutdown = dev_Shutdown dev"

primrec do_ops :: "'s IOutputDevice \<Rightarrow> dev_op list \<Rightarrow> 's \<Rightarrow> 's option" where
  "do_ops dev [] s = Some s"
| "do_ops dev (x # xs) s = (case do_op dev x s of None \<Rightarrow> None | Some s1 \<Rightarrow> do_ops dev xs s1)"

fun op_bytes :: "(u8 \<Rightarrow> u8 list) \<Rightarrow> dev_op \<Rightarrow> u8 list" where
  "op_bytes enc (OpPutChar c) = enc c"
| "op_bytes enc (OpPutString cs) = concat (map enc cs)"
| "op_bytes enc OpFlush = []"
| "op_bytes enc OpReset = []"
| "op_bytes enc OpShutdown = []"

text \<open>
  The contract of a device over a state with an invariant: every operation returns, keeps \<open>wf\<close> and what \<open>kept\<close>
  relates, and, where the device sends at all, appends its bytes to \<open>out\<close>.
\<close>

locale device_contract =
  fixes dev :: "'s IOutputDevice"
    and wf :: "'s \<Rightarrow> bool"
    and kept :: "'s \<Rightarrow> 's \<Rightarrow> bool"
    and sends :: "'s \<Rightarrow> bool"
    and out :: "'s \<Rightarrow> u8 list"
    and enc :: "u8 \<Rightarrow> u8 list"
  assumes op: "wf s \<Longrightarrow> \<exists>s'. do_op dev x s = Some s' \<and> wf s' \<and> kept s s' \<and> (sends s \<longrightarrow> out s' = out s @ op_bytes enc x)"
    and kept_refl: "kept s s"
    and kept_trans: "kept s s1 \<Longrightarrow> kept s1 s2 \<Longrightarrow> kept s s2"
    and kept_sends: "kept s s' \<Longrightarrow> sends s' \<longleftrightarrow> sends s"
begin

lemma ops:
  "wf s \<Longrightarrow> \<exists>s'. do_ops dev xs s = Some s' \<and> wf s' \<and> kept s s' \<and> (sends s \<longrightarrow> out s' = out s @ concat (map (op_bytes enc) xs))"
proof (induction xs arbitrary: s)
  case Nil
  then show ?case by (simp add: kept_refl)
next
  case (Cons x xs)
  from op [OF Cons.prems, of x] obtain s1 where
    s1: "do_op dev x s = Some s1" "wf s1" "kept s s1" "sends s \<longrightarrow> out s1 = out s @ op_bytes enc x" by blast
  from Cons.IH [OF s1(2)] obtain s2 where
    "do_ops dev xs s1 = Some s2" "wf s2" "kept s1 s2" "sends s1 \<longrightarrow> out s2 = out s1 @ concat (map (op_bytes enc) xs)" by blast
  with s1 show ?case by (auto simp: kept_sends dest: kept_trans)
qed

end

subsection \<open>The serial side\<close>

definition port_wf :: "hardware \<Rightarrow> Serial16550 \<Rightarrow> bool" where
  "port_wf hw u \<longleftrightarrow> (m_IsReady u \<longrightarrow> Owner (m_SpinLock u) = Next (m_SpinLock u) \<and> uart_live hw (line_status u))"

text \<open>Port traffic that writes no device register in memory and leaves the flags as they were.\<close>

definition quiet :: "uart_state \<Rightarrow> uart_state \<Rightarrow> bool" where
  "quiet s s' \<longleftrightarrow> mmio_writes (trace s') = mmio_writes (trace s) \<and> rflags s' = rflags s"

lemma quiet_refl [simp]: "quiet s s"
  by (simp add: quiet_def)

lemma quiet_trans: "quiet s s1 \<Longrightarrow> quiet s1 s2 \<Longrightarrow> quiet s s2"
  by (simp add: quiet_def)

text \<open>An operation on a well-formed port that sends \<open>bs\<close> if the port is there, and is quiet otherwise.\<close>

definition port_safe :: "hardware \<Rightarrow> (SerialConsole \<Rightarrow> uart_state \<Rightarrow> (SerialConsole \<times> uart_state) option) \<Rightarrow> u8 list \<Rightarrow> bool" where
  "port_safe hw f bs \<longleftrightarrow>
     (\<forall>d u us. m_Port d = Some u \<and> port_wf hw u \<longrightarrow>
        (\<exists>d' u' us'. f d us = Some (d', us') \<and> m_Port d' = Some u' \<and> port_wf hw u' \<and> m_IsReady u' = m_IsReady u \<and>
           quiet us us' \<and> (m_IsReady u \<longrightarrow> console_out (d', us') = console_out (d, us) @ bs)))"

lemma wait_tx_quiet: "wait_tx hw u s = Some s' \<Longrightarrow> quiet s s'"
proof (induction hw u s s' rule: wait_tx.raw_induct [rotated, consumes 1, case_names step])
  case (step rec hw u s s')
  have c: "quiet s (snd (run_state (CanTx hw u) s))"
    by (simp add: quiet_def CanTx_def hw_run)
  from step.hyps have "rec hw u (snd (run_state (CanTx hw u) s)) = Some s' \<or> s' = snd (run_state (CanTx hw u) s)"
    by (simp add: Let_def case_prod_beta split: if_splits)
  then show ?case using step.IH c quiet_trans by blast
qed

lemma WriteByte_quiet: "WriteByte hw v u s = Some s' \<Longrightarrow> quiet s s'"
  by (auto simp: WriteByte_def hw_run quiet_def dest!: wait_tx_quiet split: if_splits option.splits)

lemma Write_loop_quiet: "Write_loop hw u cs s = Some s' \<Longrightarrow> quiet s s'"
  by (induction cs arbitrary: s) (auto dest!: WriteByte_quiet intro: quiet_trans split: if_splits option.splits)

text \<open>\<open>Write\<close> disables interrupts while it holds the lock of the port and restores the flags at its end.\<close>

lemma IRQRestore_saved:
  assumes "IRQSaveAndDisable fl = (st, fl')"
  shows "IRQRestore st fl' = fl"
proof -
  have "fl AND push_bit 9 1 = 0 \<longleftrightarrow> \<not> bit fl 9" by (simp add: bit_iff_and_push_bit_not_eq_0)
  moreover have "st = \<lparr>RFlags = fl\<rparr>" "fl' = unset_bit 9 fl" using assms by (auto simp: IRQSaveAndDisable_def IF_BIT_def)
  ultimately show ?thesis unfolding IRQRestore_def IF_BIT_def by (auto intro!: bit_word_eqI simp: bit_simps)
qed

lemma Write_quiet:
  assumes "Write hw cs u s = Some (u', s')"
  shows "quiet s s'"
proof (cases "m_IsReady u")
  case True
  obtain st fl where f: "IRQSaveAndDisable (rflags s) = (st, fl)" by (cases "IRQSaveAndDisable (rflags s)")
  from assms True obtain l s1 where "Write_loop hw u cs (s\<lparr>rflags := fl\<rparr>) = Some s1" "s' = s1\<lparr>rflags := IRQRestore st (rflags s1)\<rparr>"
    by (auto simp: Write_def LockIRQSave_def f UnlockIRQRestore_def Let_def case_prod_beta split: if_splits option.splits)
  then show ?thesis using IRQRestore_saved [OF f] by (auto simp: quiet_def dest!: Write_loop_quiet)
qed (use assms in \<open>simp add: Write_def\<close>)

lemma serial_quiet:
  "SerialConsole_PutChar hw c d s = Some (d', s') \<Longrightarrow> quiet s s'"
  "SerialConsole_PutString hw cs d s = Some (d', s') \<Longrightarrow> quiet s s'"
  "SerialConsole_Flush hw d s = Some (d', s') \<Longrightarrow> quiet s s'"
  by (auto simp: SerialConsole_PutChar_def SerialConsole_PutString_def SerialConsole_Flush_def Serial_Flush_def
      dest!: WriteByte_quiet Write_quiet wait_tx_quiet intro: quiet_trans split: if_splits option.splits prod.splits)

lemma port_safeI:
  assumes "\<And>d us. console_ready hw (d, us) \<Longrightarrow>
      \<exists>d' us'. f d us = Some (d', us') \<and> console_ready hw (d', us') \<and> console_out (d', us') = console_out (d, us) @ bs"
    and "\<And>d us d' us'. f d us = Some (d', us') \<Longrightarrow> quiet us us'"
    and "\<And>d u us. m_Port d = Some u \<Longrightarrow> \<not> m_IsReady u \<Longrightarrow> f d us = Some (d, us)"
  shows "port_safe hw f bs"
  unfolding port_safe_def
proof (intro allI impI)
  fix d :: SerialConsole and u and us :: uart_state
  assume u: "m_Port d = Some u \<and> port_wf hw u"
  show "\<exists>d' u' us'. f d us = Some (d', us') \<and> m_Port d' = Some u' \<and> port_wf hw u' \<and> m_IsReady u' = m_IsReady u \<and>
     quiet us us' \<and> (m_IsReady u \<longrightarrow> console_out (d', us') = console_out (d, us) @ bs)"
  proof (cases "m_IsReady u")
    case True
    with u have "console_ready hw (d, us)" by (simp add: console_ready_def port_wf_def)
    from assms(1) [OF this] obtain d' us' where
      r: "f d us = Some (d', us')" "console_ready hw (d', us')" "console_out (d', us') = console_out (d, us) @ bs" by blast
    then obtain u' where "m_Port d' = Some u'" "m_IsReady u'" "port_wf hw u'"
      by (auto simp: console_ready_def port_wf_def split: option.splits)
    with r assms(2) [OF r(1)] True show ?thesis by blast
  next
    case False
    with u assms(3) [of d u us] show ?thesis by (intro exI [of _ d] exI [of _ u] exI [of _ us]) simp
  qed
qed

lemma serial_safe:
  "port_safe hw (SerialConsole_PutChar hw c) (crlf c)"
  "port_safe hw (SerialConsole_PutString hw cs) (concat (map crlf cs))"
  "port_safe hw (SerialConsole_Flush hw) []"
  "port_safe hw SerialConsole_Reset []" "port_safe hw SerialConsole_Shutdown []"
proof -
  show "port_safe hw (SerialConsole_PutChar hw c) (crlf c)"
    using serial.char_law [of hw _ c] serial_quiet(1)
    by (intro port_safeI) (fastforce simp: SerialConsole_PutChar_def WriteByte_def)+
  show "port_safe hw (SerialConsole_PutString hw cs) (concat (map crlf cs))"
    using serial.string_law [of hw _ cs] serial_quiet(2)
    by (intro port_safeI) (fastforce simp: SerialConsole_PutString_def Write_def)+
  show "port_safe hw (SerialConsole_Flush hw) []"
    using Serial_Flush_ends serial_quiet(3) by (intro port_safeI) (auto simp: SerialConsole_Flush_def Serial_Flush_def)
  show "port_safe hw SerialConsole_Reset []" "port_safe hw SerialConsole_Shutdown []"
    by (auto intro!: port_safeI simp: SerialConsole_Reset_def SerialConsole_Shutdown_def)
qed

subsection \<open>The frame buffer side\<close>

definition frame_safe :: "GraphicInfo \<Rightarrow> (KernelConsole \<Rightarrow> memory \<Rightarrow> KernelConsole \<times> memory) \<Rightarrow> bool" where
  "frame_safe info f \<longleftrightarrow>
     (\<forall>k m. m_Info k = info \<and> cursor_ok k \<longrightarrow>
        m_Info (fst (f k m)) = info \<and> cursor_ok (fst (f k m)) \<and> only_frame info m (snd (f k m)))"

lemma frame_ops_safe:
  assumes "screen_ok info"
  shows "frame_safe info (PutChar c)" "frame_safe info (PutString cs)" "frame_safe info Flush" "frame_safe info Reset"
    "frame_safe info Shutdown"
  using assms PutChar_ok PutString_ok Reset_ok
  by (auto simp: frame_safe_def Flush_def Shutdown_def room_ok_def)

subsection \<open>Both consoles\<close>

definition console_wf :: "hardware \<Rightarrow> GraphicInfo \<Rightarrow> console_state \<Rightarrow> bool" where
  "console_wf hw info s \<longleftrightarrow> screen_ok info \<and>
     (\<exists>k. console_owner s = Some k \<and> m_Info k = info \<and> cursor_ok k) \<and>
     (\<exists>d u. serial_owner s = Some d \<and> m_Port d = Some u \<and> port_wf hw u)"

definition port_ready :: "console_state \<Rightarrow> bool" where
  "port_ready s \<longleftrightarrow> (\<exists>d u. serial_owner s = Some d \<and> m_Port d = Some u \<and> m_IsReady u)"

text \<open>
  What no device operation touches: the critical-section flag, the processor flags, the page bitmap, memory outside the frame
  buffer, the registers of other devices, and whether a serial port is there.
\<close>

definition console_kept :: "GraphicInfo \<Rightarrow> console_state \<Rightarrow> console_state \<Rightarrow> bool" where
  "console_kept info s s' \<longleftrightarrow> in_critical s' = in_critical s \<and> hs_bitmap (heap s') = hs_bitmap (heap s) \<and>
     gEarlyAlloc (heap s') = gEarlyAlloc (heap s) \<and> only_frame info (hs_mem (heap s)) (hs_mem (heap s')) \<and>
     mmio_writes (trace (uart s')) = mmio_writes (trace (uart s)) \<and> rflags (uart s') = rflags (uart s) \<and> port_ready s' = port_ready s"

lemma console_kept_refl: "console_kept info s s"
  by (simp add: console_kept_def)

lemma console_kept_trans: "console_kept info s s1 \<Longrightarrow> console_kept info s1 s2 \<Longrightarrow> console_kept info s s2"
  by (auto simp: console_kept_def intro: only_frame_trans)

text \<open>The combined device runs the serial operation \<open>f\<close> and then the frame buffer operation \<open>g\<close>.\<close>

lemma both_safe:
  assumes "console_wf hw info s" and "port_safe hw f bs" and "frame_safe info g"
  shows "\<exists>s'. (case on_serial f s of None \<Rightarrow> None | Some s1 \<Rightarrow> on_frame g s1) = Some s' \<and> console_wf hw info s' \<and>
    console_kept info s s' \<and> (port_ready s \<longrightarrow> serial_out s' = serial_out s @ bs)"
proof -
  from assms(1) obtain k d u where
    k: "console_owner s = Some k" "m_Info k = info" "cursor_ok k" and
    d: "serial_owner s = Some d" "m_Port d = Some u" "port_wf hw u" and sc: "screen_ok info"
    by (auto simp: console_wf_def)
  from assms(2) d obtain d' u' us' where
    f: "f d (uart s) = Some (d', us')" "m_Port d' = Some u'" "port_wf hw u'" "m_IsReady u' = m_IsReady u"
      "quiet (uart s) us'"
      "m_IsReady u \<longrightarrow> console_out (d', us') = console_out (d, uart s) @ bs"
    unfolding port_safe_def by meson
  let ?r = "g k (hs_mem (heap s))"
  let ?s = "s\<lparr>serial_owner := Some d', uart := us', console_owner := Some (fst ?r), heap := (heap s)\<lparr>hs_mem := snd ?r\<rparr>\<rparr>"
  have g: "m_Info (fst ?r) = info" "cursor_ok (fst ?r)" "only_frame info (hs_mem (heap s)) (snd ?r)"
    using assms(3) k by (simp_all add: frame_safe_def)
  have "(case on_serial f s of None \<Rightarrow> None | Some s1 \<Rightarrow> on_frame g s1) = Some ?s"
    by (simp add: on_serial_def on_frame_def d f(1) k(1) case_prod_beta)
  moreover have "console_wf hw info ?s" using sc g f(2,3) by (simp add: console_wf_def)
  moreover have "port_ready ?s = port_ready s" using d f by (simp add: port_ready_def)
  then have "console_kept info s ?s" using g f(5) by (simp add: console_kept_def quiet_def)
  moreover have "port_ready s \<longrightarrow> serial_out ?s = serial_out s @ bs"
    using d f(2,6) by (simp add: port_ready_def serial_out_def)
  ultimately show ?thesis by blast
qed

interpretation boot_console: device_contract "bootstrap_device hw" "console_wf hw info" "console_kept info" port_ready serial_out crlf
  for hw info
proof unfold_locales
  fix s x
  assume w: "console_wf hw info s"
  then have "screen_ok info" by (simp add: console_wf_def)
  note safe = both_safe [OF w serial_safe(1) frame_ops_safe(1) [OF this]] both_safe [OF w serial_safe(2) frame_ops_safe(2) [OF this]]
    both_safe [OF w serial_safe(3) frame_ops_safe(3) [OF this]] both_safe [OF w serial_safe(4) frame_ops_safe(4) [OF this]]
    both_safe [OF w serial_safe(5) frame_ops_safe(5) [OF this]]
  show "\<exists>s'. do_op (bootstrap_device hw) x s = Some s' \<and> console_wf hw info s' \<and> console_kept info s s' \<and>
      (port_ready s \<longrightarrow> serial_out s' = serial_out s @ op_bytes crlf x)"
    using safe by (cases x) (simp_all add: RedundantOutput_def RedundantOutput_defs cong: option.case_cong)
next
  fix s s1 s2
  show "console_kept info s s" by (rule console_kept_refl)
  show "console_kept info s s1 \<Longrightarrow> console_kept info s1 s2 \<Longrightarrow> console_kept info s s2" by (rule console_kept_trans)
  show "console_kept info s s1 \<Longrightarrow> port_ready s1 \<longleftrightarrow> port_ready s" by (simp add: console_kept_def)
qed

subsection \<open>Properties\<close>

lemma sample_console_wf:
  "console_wf sample_uart_hw (m_Info (the (console_owner (sample_consoles h)))) (sample_consoles h)" "port_ready (sample_consoles h)"
proof -
  show "console_wf sample_uart_hw (m_Info (the (console_owner (sample_consoles h)))) (sample_consoles h)"
    by (simp add: console_wf_def sample_consoles_def screen_ok_def cursor_ok_def port_wf_def sample_uart_live)
      (simp add: sample_uart_def new_lock_def)
  show "port_ready (sample_consoles h)" by (simp add: port_ready_def sample_consoles_def sample_uart_def)
qed

text \<open>
  C17. The boot console keeps its objects well formed: on a console with a frame buffer cursor on a character cell
  and a serial port whose lock is free, if there is a port, every sequence of interface calls
  (characters, strings, \<open>Flush\<close>, \<open>Reset\<close>, \<open>Shutdown\<close>) returns in such a state again, has changed no memory outside the frame
  buffer, no page of the allocator and no critical-section flag, and has sent exactly the bytes of its
  output calls when a port is there.
\<close>

theorem boot_console_wellformed:
  assumes "console_wf hw info s"
  shows "\<exists>s'. do_ops (bootstrap_device hw) ops s = Some s' \<and> console_wf hw info s' \<and> console_kept info s s' \<and>
    (port_ready s \<longrightarrow> serial_out s' = serial_out s @ concat (map (op_bytes crlf) ops))"
  by (rule boot_console.ops [OF assms])

theorem boot_console_wellformed_witness:
  "\<exists>s'. do_ops (bootstrap_device sample_uart_hw) [OpReset, OpPutString [0x48, 0x69, 0x0A], OpFlush] (sample_consoles example_heap) = Some s' \<and>
     serial_out s' = [0x48, 0x69, 0x0D, 0x0A] \<and> hs_bitmap (heap s') = example_bitmap"
proof -
  let ?s = "sample_consoles example_heap"
  have "hs_bitmap (heap ?s) = example_bitmap" by (simp add: sample_consoles_def example_heap_def)
  then show ?thesis
    using boot_console_wellformed [OF sample_console_wf(1), of "[OpReset, OpPutString [0x48, 0x69, 0x0A], OpFlush]" example_heap] sample_console_wf(2)
    by (fastforce simp: crlf_def console_kept_def)
qed

end
