(* ===== verification/BootSteps.thy ===== *)
theory BootSteps
  imports BootMemory ConsoleWf
begin

text \<open>
  The phases of \<open>main\<close> (\<open>Kernel/Core/KernelMain.cpp\<close>), each proved to complete: neither a panic nor an endless wait. \<open>completes\<close> is
  total correctness of one step; the phases are followed by what they leave of the free pages
  (\<open>heap_at\<close>), of memory (\<open>mem_kept\<close>), of the consoles (\<open>console_wf\<close>) and of the device registers.
\<close>

unbundle bit_operations_syntax

subsection \<open>Steps that complete\<close>

definition completes :: "'a boot_result \<Rightarrow> ('a \<Rightarrow> bool) \<Rightarrow> bool" where
  "completes r Q \<longleftrightarrow> (\<exists>x. r = Some (Inr x) \<and> Q x)"

lemma completesI: "r = Some (Inr x) \<Longrightarrow> Q x \<Longrightarrow> completes r Q"
  by (auto simp: completes_def)

lemma completes_bind: "completes r Q \<Longrightarrow> (\<And>x. Q x \<Longrightarrow> completes (f x) R) \<Longrightarrow> completes (boot_bind r f) R"
  by (auto simp: completes_def boot_bind_def)

lemma completes_mono: "completes r Q \<Longrightarrow> (\<And>x. Q x \<Longrightarrow> R x) \<Longrightarrow> completes r R"
  by (auto simp: completes_def)

subsection \<open>Memory the boot sequence may write\<close>

text \<open>
  \<open>U\<close> are the usable pages and \<open>g\<close> is the frame buffer. The page before a usable page belongs to what may be
  written, because of the headers.
\<close>

definition untouched :: "nat set \<Rightarrow> GraphicInfo \<Rightarrow> u64 \<Rightarrow> bool" where
  "untouched U g x \<longleftrightarrow> unat x div 4096 \<notin> U \<and> Suc (unat x div 4096) \<notin> U \<and> \<not> in_frame g x"

definition mem_kept :: "nat set \<Rightarrow> GraphicInfo \<Rightarrow> memory \<Rightarrow> memory \<Rightarrow> bool" where
  "mem_kept U g m m' \<longleftrightarrow> (\<forall>x. untouched U g x \<longrightarrow> m' x = m x)"

lemma mem_kept_refl [simp]: "mem_kept U g m m"
  by (simp add: mem_kept_def)

lemma mem_kept_trans: "mem_kept U g m m1 \<Longrightarrow> mem_kept U g m1 m2 \<Longrightarrow> mem_kept U g m m2"
  by (simp add: mem_kept_def)

lemma mem_kept_same_except: "same_except U m m' \<Longrightarrow> mem_kept U g m m'"
  by (simp add: mem_kept_def same_except_def untouched_def)

lemma mem_kept_frame: "only_frame g m m' \<Longrightarrow> mem_kept U g m m'"
  by (simp add: mem_kept_def only_frame_def untouched_def)

lemma mem_kept_header: "same_except {p - 1} m m' \<Longrightarrow> 0 < p \<Longrightarrow> p \<in> U \<Longrightarrow> mem_kept U g m m'"
  by (cases p) (auto simp: mem_kept_def same_except_def untouched_def, metis)

text \<open>A heap whose free pages are usable ones and include \<open>k\<close> consecutive pages from \<open>a\<close> on.\<close>

definition heap_at :: "nat set \<Rightarrow> nat \<Rightarrow> nat \<Rightarrow> heap_state \<Rightarrow> bool" where
  "heap_at U a k h \<longleftrightarrow> heap_ok h \<and> run_free (hs_bitmap h) a k \<and> free_pages (hs_bitmap h) \<subseteq> U"

lemma heap_at_cong:
  "hs_bitmap h' = hs_bitmap h \<Longrightarrow> gEarlyAlloc h' = gEarlyAlloc h \<Longrightarrow> heap_at U a k h' \<longleftrightarrow> heap_at U a k h"
  by (simp add: heap_at_def heap_ok_def)

lemma new_step:
  assumes "heap_at U a (Suc k) h" and "unat sz + 8 \<le> 4096" and "U \<subseteq> {..<TOTAL_PAGES}"
  obtains p h' where "operator_new sz h = Inr (p, h')" "heap_at U (Suc a) k h'" "mem_kept U g (hs_mem h) (hs_mem h')"
proof -
  have h: "heap_ok h" "run_free (hs_bitmap h) a (Suc k)" "free_pages (hs_bitmap h) \<subseteq> U" using assms(1) by (simp_all add: heap_at_def)
  from operator_new_page [OF h(1) assms(2) h(2)] obtain p bm' where
    p: "operator_new sz h = Inr (page_addr p, h\<lparr>hs_bitmap := bm',
          hs_mem := store_info (hs_mem h) (entry_at (p - 1) 511) \<lparr>Magic = KMEM, AllocatedPages = 1\<rparr>\<rparr>)"
      "0 < p" "p \<in> free_pages (hs_bitmap h)" "bitmap_ok bm'" "free_pages bm' = free_pages (hs_bitmap h) - {p}" "run_free bm' (Suc a) k" by blast
  have "p \<in> U" "p < TOTAL_PAGES" using p(3) h(3) assms(3) by auto
  then have "mem_kept U g (hs_mem h) (store_info (hs_mem h) (entry_at (p - 1) 511) \<lparr>Magic = KMEM, AllocatedPages = 1\<rparr>)"
    using p(2) by (intro mem_kept_header [OF store_info_same_except]) (simp_all add: page_consts)
  with that p h(1,3) show thesis by (auto simp: heap_at_def heap_ok_def)
qed

subsection \<open>What a step leaves alone\<close>

text \<open>The tables of the interrupt dispatcher, and the state of them in which the timer interrupt is served.\<close>

definition wiring :: "intr_state \<Rightarrow> (u8 \<Rightarrow> handler_fn option) \<times> eoi_fn option \<times> logger_fn option" where
  "wiring s = (gHandlers s, gEOI s, gLogger s)"

definition timer_wired :: "u64 \<Rightarrow> intr_state \<Rightarrow> bool" where
  "timer_wired base s \<longleftrightarrow> gLAPICMMIO s = base \<and> gHandlers s VEC_TIMER = Some Fn_OnTimer \<and> gEOI s = None \<and> gLogger s = None"

lemma wiring_update [simp]:
  "wiring (s\<lparr>trace := tr\<rparr>) = wiring s" "wiring (s\<lparr>gLAPICMMIO := a\<rparr>) = wiring s" "wiring (s\<lparr>sched := sc\<rparr>) = wiring s"
  "wiring (s\<lparr>gLAPICReady := r\<rparr>) = wiring s"
  by (simp_all add: wiring_def)

lemma timer_wired_cong: "wiring s' = wiring s \<Longrightarrow> gLAPICMMIO s' = gLAPICMMIO s \<Longrightarrow> timer_wired base s' \<longleftrightarrow> timer_wired base s"
  by (simp add: timer_wired_def wiring_def)

text \<open>A step of device output: the trace, the heap, the interrupt flag and the console objects may change.\<close>

definition io_only :: "boot_state \<Rightarrow> boot_state \<Rightarrow> bool" where
  "io_only b b' \<longleftrightarrow>
     (\<exists>h tr fl ko so. b' = b\<lparr>intr := (intr b)\<lparr>trace := tr, sched := (sched (intr b))\<lparr>sched_state.heap := h\<rparr>\<rparr>,
        crit := \<lparr>InCritical = InCritical (crit b), flags = fl\<rparr>, frame_owner := ko, uart_owner := so\<rparr>)"

lemma io_only_fields:
  assumes "io_only b b'"
  shows "wiring (intr b') = wiring (intr b)" "gLAPICMMIO (intr b') = gLAPICMMIO (intr b)"
    "apic_isInitialized (intr b') = apic_isInitialized (intr b)"
    "gRunQueue (sched (intr b')) = gRunQueue (sched (intr b))" "gAllocator (sched (intr b')) = gAllocator (sched (intr b))"
    "tables b' = tables b" "CR3 b' = CR3 b" "ioapics b' = ioapics b"
  using assms by (auto simp: io_only_def)

lemma io_only_trans: "io_only b b1 \<Longrightarrow> io_only b1 b2 \<Longrightarrow> io_only b b2"
  unfolding io_only_def by (elim exE) (simp, blast)

lemma put_consoles_io_only: "in_critical c = InCritical (crit b) \<Longrightarrow> io_only b (put_consoles c b)"
  unfolding io_only_def put_consoles_def set_heap_def
  by (intro exI [of _ "console_state.heap c"] exI [of _ "trace (uart c)"] exI [of _ "rflags (uart c)"]
      exI [of _ "console_owner c"] exI [of _ "serial_owner c"]) simp

lemma consoles_put_consoles [simp]: "consoles (put_consoles c b) = c"
  by (simp add: consoles_def put_consoles_def set_heap_def boot_heap_def)

lemma consoles_fields [simp]:
  "console_state.heap (consoles b) = boot_heap b" "in_critical (consoles b) = InCritical (crit b)"
  "console_owner (consoles b) = frame_owner b" "serial_owner (consoles b) = uart_owner b" "trace (uart (consoles b)) = trace (intr b)"
  "rflags (uart (consoles b)) = flags (crit b)"
  by (simp_all add: consoles_def)

lemma boot_heap_put_consoles [simp]: "boot_heap (put_consoles c b) = console_state.heap c"
  by (simp add: put_consoles_def set_heap_def boot_heap_def)

text \<open>
  A step of the report: consoles stay well formed, the scheduler and the handlers are left alone, and \<open>bs\<close> is
  what comes out of the serial port.
\<close>

definition printed :: "hardware \<Rightarrow> GraphicInfo \<Rightarrow> u8 list \<Rightarrow> boot_state \<Rightarrow> boot_state \<Rightarrow> bool" where
  "printed hw g bs b b' \<longleftrightarrow> console_wf hw g (consoles b') \<and> console_kept g (consoles b) (consoles b') \<and>
     wiring (intr b') = wiring (intr b) \<and> gLAPICMMIO (intr b') = gLAPICMMIO (intr b) \<and> gRunQueue (sched (intr b')) = gRunQueue (sched (intr b)) \<and>
     gAllocator (sched (intr b')) = gAllocator (sched (intr b)) \<and> tables b' = tables b \<and>
     (port_ready (consoles b) \<longrightarrow> serial_out (consoles b') = serial_out (consoles b) @ bs)"

lemma printed_trans: "printed hw g bs b b1 \<Longrightarrow> printed hw g bs' b1 b2 \<Longrightarrow> printed hw g (bs @ bs') b b2"
  by (auto simp: printed_def console_kept_def intro: only_frame_trans)

lemma on_console_op:
  assumes "console_wf hw g (consoles b)"
  shows "completes (on_console (do_op (bootstrap_device hw) x) b) (printed hw g (op_bytes crlf x) b)"
proof -
  from boot_console.op [OF assms, of x] obtain c where
    c: "do_op (bootstrap_device hw) x (consoles b) = Some c" "console_wf hw g c" "console_kept g (consoles b) c"
      "port_ready (consoles b) \<longrightarrow> serial_out c = serial_out (consoles b) @ op_bytes crlf x" by blast
  then have "io_only b (put_consoles c b)" by (intro put_consoles_io_only) (simp add: console_kept_def)
  from io_only_fields [OF this] c show ?thesis
    by (intro completesI [of _ "put_consoles c b"]) (simp_all add: on_console_def printed_def)
qed

lemmas on_console_calls =
  on_console_op [where x = "OpPutString cs" for cs, simplified]
  on_console_op [where x = "OpPutChar c" for c, simplified]
  on_console_op [where x = OpFlush, simplified]

subsection \<open>The consoles\<close>

definition ports_live :: "hardware \<Rightarrow> bool" where
  "ports_live hw \<longleftrightarrow> (\<forall>p\<in>set baseCand. uart_live hw (p + 5))"

definition sizes_ok :: "object_sizes \<Rightarrow> bool" where
  "sizes_ok sz \<longleftrightarrow> unat (sizeof_KernelConsole sz) + 8 \<le> 4096 \<and> unat (sizeof_SerialConsole sz) + 8 \<le> 4096 \<and>
     unat (sizeof_Serial16550 sz) + 8 \<le> 4096 \<and> unat (sizeof_RedundantOutput sz) + 8 \<le> 4096"

lemma probe_loop_result: "fst (run_state (probe_loop hw bs base) s) \<in> insert base (set bs)"
  by (induction bs arbitrary: base s) (auto split: if_splits)

text \<open>A device access that only extends the trace, and writes no register in memory.\<close>

definition ports_only :: "'r hw_state_scheme \<Rightarrow> 'r hw_state_scheme \<Rightarrow> bool" where
  "ports_only s s' \<longleftrightarrow> s' = s\<lparr>trace := trace s'\<rparr> \<and> mmio_writes (trace s') = mmio_writes (trace s)"

lemma ports_only_refl: "ports_only s s"
  by (simp add: ports_only_def)

lemma ports_only_trans:
  assumes "ports_only s s1" and "ports_only s1 s2"
  shows "ports_only s s2"
proof -
  have "s2 = s\<lparr>trace := trace s1\<rparr>\<lparr>trace := trace s2\<rparr>" using assms unfolding ports_only_def by metis
  then have "s2 = s\<lparr>trace := trace s2\<rparr>" by (metis hw_state.update_convs(1) hw_state.cases_scheme)
  with assms show ?thesis unfolding ports_only_def by simp
qed

lemma Probe_ports: "ports_only s (snd (run_state (Probe hw p) s))"
  by (simp add: Probe_def hw_run ports_only_def)

lemma probe_loop_ports: "ports_only s (snd (run_state (probe_loop hw bs base) s))"
proof (induction bs arbitrary: base s)
  case (Cons p bs)
  show ?case using Cons.IH [of "snd (run_state (Probe hw p) s)"] Probe_ports [of s hw p] by (auto intro: ports_only_trans)
qed (simp add: ports_only_refl)

lemma setup_line_ports: "ports_only s (snd (run_state (setup_line hw base baud) s))"
  by (simp add: setup_line_def hw_run ports_only_def Let_def)

lemma Serial16550_probe_wf:
  assumes "ports_live hw" and "run_state (Serial16550_probe hw junk baud) s = (u, s')"
  shows "port_wf hw u" and "ports_only s s'"
proof -
  let ?base = "fst (run_state (probe_loop hw baseCand 0) s)"
  have e: "u = fst (run_state (Serial16550_probe hw junk baud) s)" "s' = snd (run_state (Serial16550_probe hw junk baud) s)"
    using assms(2) by simp_all
  show "port_wf hw u"
  proof (cases "?base = 0")
    case False
    then have "?base \<in> set baseCand" using probe_loop_result [of hw baseCand 0 s] by auto
    then have "uart_live hw (?base + 5)" "ucast (ucast ?base + 5 :: u64) = ?base + 5"
      using assms(1) by (auto simp: ports_live_def baseCand_def)
    with False show ?thesis by (simp add: e(1) Serial16550_probe_def port_wf_def line_status_def new_lock_def)
  qed (simp add: e(1) Serial16550_probe_def port_wf_def)
  show "ports_only s s'"
    using probe_loop_ports [of s hw baseCand 0] ports_only_trans [OF probe_loop_ports setup_line_ports]
    by (auto simp: e(2) Serial16550_probe_def)
qed

lemma init_consoles_run:
  assumes "frame_owner b = None" and "uart_owner b = None" and "heap_at U a (4 + k) (boot_heap b)" and "sizes_ok (be_sizes env)"
    and "ports_live (be_hw env)" and "g = FrameBufferInfo info" and "screen_ok g" and "U \<subseteq> {..<TOTAL_PAGES}"
  obtains b' where "init_consoles env info b = Inr (bootstrap_device (be_hw env), b')" "io_only b b'"
    "console_wf (be_hw env) g (consoles b')" "heap_at U (a + 4) k (boot_heap b')"
    "mem_kept U g (hs_mem (boot_heap b)) (hs_mem (boot_heap b'))" "mmio_writes (trace (intr b')) = mmio_writes (trace (intr b))"
proof -
  let ?sz = "be_sizes env" and ?hw = "be_hw env" and ?c = "consoles b"
  have sz: "unat (sizeof_KernelConsole ?sz) + 8 \<le> 4096" "unat (sizeof_SerialConsole ?sz) + 8 \<le> 4096"
    "unat (sizeof_Serial16550 ?sz) + 8 \<le> 4096" "unat (sizeof_RedundantOutput ?sz) + 8 \<le> 4096" using assms(4) by (simp_all add: sizes_ok_def)
  have "heap_at U a (Suc (Suc (Suc (Suc k)))) (boot_heap b)" using assms(3) by (simp add: numeral_eq_Suc)
  then obtain p1 h1 where h1: "operator_new (sizeof_KernelConsole ?sz) (boot_heap b) = Inr (p1, h1)"
      "heap_at U (Suc a) (Suc (Suc (Suc k))) h1" "mem_kept U g (hs_mem (boot_heap b)) (hs_mem h1)"
    using new_step [OF _ sz(1) assms(8)] by metis
  obtain kc m1 where kc: "KernelConsole_new g (hs_mem h1) = (kc, m1)" by (cases "KernelConsole_new g (hs_mem h1)")
  then have kc_ok: "m_Info kc = g" "cursor_ok kc" "only_frame g (hs_mem h1) m1"
    using assms(7) by (auto simp: KernelConsole_new_def cursor_ok_def screen_ok_def clear_screen_only_frame)
  let ?h1 = "h1\<lparr>hs_mem := m1\<rparr>"
  have "heap_at U (Suc a) (Suc (Suc (Suc k))) ?h1" using h1(2) by (simp add: heap_at_def heap_ok_def)
  then obtain p2 h2 where h2: "operator_new (sizeof_SerialConsole ?sz) ?h1 = Inr (p2, h2)"
      "heap_at U (Suc (Suc a)) (Suc (Suc k)) h2" "mem_kept U g m1 (hs_mem h2)"
    using new_step [OF _ sz(2) assms(8)] by (metis heap_state.select_convs(2) heap_state.surjective heap_state.update_convs(2))
  then obtain p3 h3 where h3: "operator_new (sizeof_Serial16550 ?sz) h2 = Inr (p3, h3)"
      "heap_at U (Suc (Suc (Suc a))) (Suc k) h3" "mem_kept U g (hs_mem h2) (hs_mem h3)"
    using new_step [OF _ sz(3) assms(8)] by metis
  then obtain p4 h4 where h4: "operator_new (sizeof_RedundantOutput ?sz) h3 = Inr (p4, h4)"
      "heap_at U (Suc (Suc (Suc (Suc a)))) k h4" "mem_kept U g (hs_mem h3) (hs_mem h4)"
    using new_step [OF _ sz(4) assms(8)] by metis
  obtain u us where u: "run_state (Serial16550_probe ?hw (be_junk env) 115200) (uart ?c) = (u, us)" by (metis prod.exhaust)
  note pw = Serial16550_probe_wf [OF assms(5) u]
  define c where "c = ?c\<lparr>console_owner := Some kc, uart := us, serial_owner := Some \<lparr>m_Port = Some u\<rparr>, console_state.heap := h4\<rparr>"
  have "init_consoles env info b = Inr (bootstrap_device ?hw, put_consoles c b)"
    using assms(1,2) h1(1) h2(1) h3(1) h4(1) u kc
    by (simp add: init_consoles_def InitKernelConsole_def InitSerialConsole_def SerialConsole_new_def GetBootstrapConsole_def
        GetSerialConsole_def GetKernelConsole_def assms(6) [symmetric] c_def)
  moreover have "io_only b (put_consoles c b)" by (intro put_consoles_io_only) (simp add: c_def)
  moreover have "console_wf ?hw g (consoles (put_consoles c b))" using assms(7) kc_ok pw(1) by (simp add: console_wf_def c_def)
  moreover have "heap_at U (a + 4) k (boot_heap (put_consoles c b))" using h4(2) by (simp add: c_def numeral_eq_Suc)
  moreover have "mem_kept U g (hs_mem (boot_heap b)) (hs_mem (boot_heap (put_consoles c b)))"
    using mem_kept_trans [OF h1(3) mem_kept_trans [OF mem_kept_frame [OF kc_ok(3)] mem_kept_trans [OF h2(3) mem_kept_trans [OF h3(3) h4(3)]]]]
    by (simp add: c_def)
  moreover have "trace (intr (put_consoles c b)) = trace us" by (simp add: put_consoles_def c_def)
  moreover have "mmio_writes (trace us) = mmio_writes (trace (intr b))" using pw(2) by (simp add: ports_only_def)
  ultimately show thesis using that by simp
qed

subsection \<open>Up to the consoles\<close>

definition cold_state :: "boot_state \<Rightarrow> bool" where
  "cold_state b \<longleftrightarrow> \<not> isInitialized (early b) \<and> \<not> ParseMemoryInfo_called (early b) \<and> hs_bitmap (boot_heap b) BITMAP_BYTES = 0xFF \<and>
     frame_owner b = None \<and> uart_owner b = None \<and> \<not> apic_isInitialized (intr b) \<and> gRunQueue (sched (intr b)) = new_RunQueue"

definition env_ok :: "boot_env \<Rightarrow> bool" where
  "env_ok env \<longleftrightarrow> be_allocBuffer env \<noteq> 0 \<and> sizes_ok (be_sizes env) \<and> image_ok (be_image env) \<and>
     0 < unat (be_sizeofIOAPIC env) \<and> 8 * unat (be_sizeofIOAPIC env) \<le> 4096"

lemma main_early_run:
  assumes "cold_state b" and "env_ok env" and "map_ok (MemInfo info)" and "U = usable_pages (MemInfo info)"
    and "{a..<a + (6 + gib_count (MemInfo info) + k)} \<subseteq> U" and "ports_live (be_hw env)" and "g = FrameBufferInfo info" and "screen_ok g"
  obtains b' a' where "main_early env info b = Inr (bootstrap_device (be_hw env), b')" "console_wf (be_hw env) g (consoles b')"
    "heap_at U a' k (boot_heap b')" "mem_kept U g (hs_mem (boot_heap b)) (hs_mem (boot_heap b'))"
    "mmio_writes (trace (intr b')) = mmio_writes (trace (intr b))" "gAllocator (sched (intr b')) \<noteq> 0" "gRunQueue (sched (intr b')) = new_RunQueue"
    "\<not> apic_isInitialized (intr b')" "tables b' = tables (InitCPU env b)"
proof -
  let ?mi = "MemInfo info"
  define b3 where "b3 = InitCPU env (b\<lparr>crit := StartCriticalSection (crit b), intr := exec DisableLegacyPIC (intr b)\<rparr>)"
  have b3: "early b3 = early b" "boot_heap b3 = boot_heap b" "frame_owner b3 = None" "uart_owner b3 = None"
      "\<not> apic_isInitialized (intr b3)" "gRunQueue (sched (intr b3)) = new_RunQueue" "mmio_writes (trace (intr b3)) = mmio_writes (trace (intr b))"
      "tables b3 = tables (InitCPU env b)"
    using assms(1) by (simp_all add: b3_def InitCPU_def cold_state_def exec_def DisableLegacyPIC_def hw_run boot_heap_def)
  have c: "\<not> isInitialized (early b3)" "\<not> ParseMemoryInfo_called (early b3)" "hs_bitmap (boot_heap b3) BITMAP_BYTES = 0xFF"
    using assms(1) b3(1,2) by (simp_all add: cold_state_def)
  obtain P4 P3 bm0 m' bm' e2 where
    r: "InitMemory env info b3 = Inr (b3\<lparr>early := e2, CR3 := page_addr P4, intr := (intr b3)\<lparr>sched := (sched (intr b3))
         \<lparr>sched_state.heap := (boot_heap b3)\<lparr>gEarlyAlloc := be_allocBuffer env, hs_mem := m', hs_bitmap := bm'\<rparr>, gAllocator := be_allocBuffer env\<rparr>\<rparr>\<rparr>)"
        (is "_ = Inr ?b4")
      "BuildIdentityMap2M AllocatePage (Some ?mi) (be_junk env) (hs_mem (boot_heap b3)) bm0 = (True, page_addr P4, m', bm')"
      "bitmap_ok bm0" "free_pages bm0 = U" "bitmap_ok bm'" "free_pages bm' \<subseteq> U - {P4, P3}" "same_except U (hs_mem (boot_heap b3)) m'"
    unfolding assms(4) by (rule InitMemory_result [OF c(1,2) assms(3) c(3), of env]) (use that in blast)
  have mx: "unat (CalcMaxPhys ?mi) \<le> 549755813888" using assms(3) by (simp add: map_ok_def)
  have "6 + gib_count ?mi + k = 2 + gib_count ?mi + (4 + k)" by simp
  then have "run_free bm0 a (2 + gib_count ?mi + (4 + k))" using assms(5) r(4) by (simp only: run_free_def)
  from BuildIdentityMap2M_run [OF r(3) mx this r(2)] have "heap_at U (a + 2 + gib_count ?mi) (4 + k) (boot_heap ?b4)"
    using r(5,6) assms(2) by (auto simp: heap_at_def heap_ok_def boot_heap_def env_ok_def)
  moreover have "U \<subseteq> {..<TOTAL_PAGES}" unfolding assms(4) by (rule usable_range)
  moreover have "frame_owner ?b4 = None" "uart_owner ?b4 = None" using b3 by simp_all
  moreover have "sizes_ok (be_sizes env)" using assms(2) by (simp add: env_ok_def)
  ultimately obtain b' where
    b': "init_consoles env info ?b4 = Inr (bootstrap_device (be_hw env), b')" "io_only ?b4 b'" "console_wf (be_hw env) g (consoles b')"
      "heap_at U (a + 2 + gib_count ?mi + 4) k (boot_heap b')" "mem_kept U g (hs_mem (boot_heap ?b4)) (hs_mem (boot_heap b'))"
      "mmio_writes (trace (intr b')) = mmio_writes (trace (intr ?b4))"
    using init_consoles_run [OF _ _ _ _ assms(6-8)] by metis
  have "main_early env info b = Inr (bootstrap_device (be_hw env), b')"
    using r(1) b'(1) by (simp add: main_early_def b3_def)
  moreover have hm: "hs_mem (boot_heap ?b4) = m'" by (simp add: boot_heap_def)
  have "mem_kept U g (hs_mem (boot_heap b)) (hs_mem (boot_heap b'))"
    using mem_kept_trans [OF mem_kept_same_except [OF r(7)] b'(5) [unfolded hm]] by (simp add: b3(2))
  moreover note io_only_fields [OF b'(2)]
  ultimately show thesis using that b'(3,4,6) b3 assms(2) by (simp add: env_ok_def)
qed

subsection \<open>The interrupt controller and the timer\<close>

lemma lapic_keeps [hw_run]:
  fixes s :: intr_state
  shows "sched (snd (run_state (LAPICMMIOWrite hw off v) s)) = sched s" "wiring (snd (run_state (LAPICMMIOWrite hw off v) s)) = wiring s"
    "sched (snd (run_state (LAPICMMIORead hw off) s)) = sched s" "wiring (snd (run_state (LAPICMMIORead hw off) s)) = wiring s"
    "sched (snd (run_state (Enable hw) s)) = sched s" "wiring (snd (run_state (Enable hw) s)) = wiring s"
  by (simp_all add: LAPICMMIOWrite_def LAPICMMIORead_def Enable_def hw_run Let_def)

lemma ports_only_intr:
  assumes "ports_only s (s' :: intr_state)"
  shows "sched s' = sched s" "wiring s' = wiring s" "gLAPICMMIO s' = gLAPICMMIO s"
proof -
  have e: "s' = s\<lparr>trace := trace s'\<rparr>" using assms by (simp add: ports_only_def)
  show "sched s' = sched s" "wiring s' = wiring s" "gLAPICMMIO s' = gLAPICMMIO s" by (subst e, simp)+
qed

lemma wait_tsc_ports: "wait_tsc hw t0 d s = Some s' \<Longrightarrow> ports_only s s'"
proof (induction hw t0 d s s' rule: wait_tsc.raw_induct [rotated, consumes 1, case_names step])
  case (step rec hw t0 d s s')
  have c: "ports_only s (snd (run_state (ReadTSC hw) s))" by (simp add: hw_run ports_only_def)
  from step.hyps have "rec hw t0 d (snd (run_state (ReadTSC hw) s)) = Some s' \<or> s' = snd (run_state (ReadTSC hw) s)"
    by (simp add: Let_def case_prod_beta split: if_splits)
  then show ?case using step.IH c by (auto intro: ports_only_trans)
qed

definition apic_at :: "hardware \<Rightarrow> u64 \<Rightarrow> bool" where
  "apic_at hw b \<longleftrightarrow> b \<noteq> 0 \<and> (\<forall>tr. snd (snd (snd (hw_cpuid hw tr 1 0))) AND push_bit 9 1 \<noteq> 0) \<and>
     (\<forall>tr. apic_base (hw_rdmsr hw tr MSR_IA32_APIC_BASE) = b)"

lemma InitEarly_keeps:
  fixes s :: intr_state
  assumes "gLAPICMMIO s \<noteq> 0"
  shows "sched (snd (run_state (InitEarly hw sv ev) s)) = sched s" "wiring (snd (run_state (InitEarly hw sv ev) s)) = wiring s"
    "gLAPICMMIO (snd (run_state (InitEarly hw sv ev) s)) = gLAPICMMIO s"
  using assms by (simp_all add: InitEarly_def hw_run Let_def)

lemma InitAPIC_keeps:
  fixes s :: intr_state
  assumes "apic_at hw base"
  shows "sched (exec (InitAPIC hw) s) = sched s" "gLAPICMMIO (exec (InitAPIC hw) s) = base"
proof -
  define s1 where "s1 = snd (run_state (Enable hw) (snd (run_state (IsPresent hw) s)))"
  have p: "fst (run_state (IsPresent hw) s)" "sched (snd (run_state (IsPresent hw) s)) = sched s"
    using assms by (simp_all add: apic_at_def IsPresent_def hw_run)
  have s1: "gLAPICMMIO s1 = base" "sched s1 = sched s" using assms p(2) by (simp_all add: s1_def hw_run apic_at_def)
  then have "gLAPICMMIO s1 \<noteq> 0" using assms by (simp add: apic_at_def)
  note k = InitEarly_keeps [OF this, of hw APIC_VEC_SPURIOUS APIC_VEC_ERROR]
  show "sched (exec (InitAPIC hw) s) = sched s" "gLAPICMMIO (exec (InitAPIC hw) s) = base"
    using p(1) k s1 by (simp_all add: exec_def InitAPIC_def DisableLegacyPIC_def hw_run s1_def [symmetric])
qed

lemma APICController_ready:
  assumes "apic_at hw base" and "\<not> apic_isInitialized s" and "s' = InitCoreExceptionHandlers (InitInterruptDispatch (APICController hw s))"
  shows "sched s' = sched s" "gLAPICMMIO s' = base" "gEOI s' = None" "gLogger s' = None"
  using assms(2) InitAPIC_keeps [OF assms(1), of s]
  by (simp_all add: assms(3) APICController_def InitCoreExceptionHandlers_def InitInterruptDispatch_def RegisterInterruptHandler_def
      SetEOIEmitter_def Let_def)

lemma initial_count_pos: "initial_count d ms us \<noteq> 0"
proof -
  define i where "i = ((d * 1000) div ucast ms * ucast us) div 1000000"
  have u: "(ucast w :: u32) \<noteq> 0" if "w \<noteq> 0" "w \<le> 0xFFFFFFFF" for w :: u64
  proof -
    have "unat (ucast w :: u32) = unat w" using that(2) by (simp add: unsigned_ucast_eq take_bit_nat_eq_self word_le_nat_alt)
    with that(1) show ?thesis by (metis unat_0 word_unat_eq_iff)
  qed
  show ?thesis
    using u [of i] by (auto simp: initial_count_def FALLBACK_INITIAL_COUNT_def Let_def i_def [symmetric] not_less)
qed

lemma Calibrate_run:
  fixes s :: intr_state
  assumes "gLAPICMMIO s = base" and "tsc_advances hw m" and "unat ((tscHz * ucast ms) div 1000) + m < 2 ^ 64"
  obtains n s' where "CalibrateTimerInitialCountTSC hw tscHz shift us ms s = Some (n, s')" "n \<noteq> 0" "sched s' = sched s"
    "wiring s' = wiring s" "gLAPICMMIO s' = base"
proof (cases "gLAPICMMIO s = 0 \<or> tscHz = 0 \<or> us = 0 \<or> ms = 0")
  case True
  then show thesis using that [of FALLBACK_INITIAL_COUNT s] assms(1) by (simp add: CalibrateTimerInitialCountTSC_def FALLBACK_INITIAL_COUNT_def)
next
  case False
  define s1 where "s1 = snd (run_state (LAPICMMIOWrite hw LAPIC_TIMER_DIV (ucast (shift AND 7))) s)"
  define v where "v = fst (run_state (LAPICMMIORead hw LAPIC_LVT_TIMER) s1)"
  define s2 where "s2 = snd (run_state (LAPICMMIORead hw LAPIC_LVT_TIMER) s1)"
  define s3 where "s3 = snd (run_state (LAPICMMIOWrite hw LAPIC_LVT_TIMER
      ((((v AND NOT LVT_PERIODIC) OR LVT_MASKED) AND 0xFFFFFF00) OR ucast VEC_TIMER)) s2)"
  define s4 where "s4 = snd (run_state (LAPICMMIOWrite hw LAPIC_TIMER_INIT 0x7FFFFFFF) s3)"
  define t0 where "t0 = fst (run_state (ReadTSC hw) s4)"
  define s5 where "s5 = snd (run_state (ReadTSC hw) s4)"
  from wait_tsc_returns [OF assms(2,3), of t0 s5] obtain s6 where s6: "wait_tsc hw t0 ((tscHz * ucast ms) div 1000) s5 = Some s6" by blast
  define s7 where "s7 = snd (run_state (LAPICMMIORead hw LAPIC_TIMER_CURR) s6)"
  define n where "n = initial_count (ucast (0x7FFFFFFF - fst (run_state (LAPICMMIORead hw LAPIC_TIMER_CURR) s6))) ms us"
  have "CalibrateTimerInitialCountTSC hw tscHz shift us ms s = Some (n, s7)"
    using False s6 unfolding CalibrateTimerInitialCountTSC_def Let_def
    by (simp add: case_prod_beta s1_def s2_def s3_def s4_def s5_def t0_def v_def n_def s7_def)
  moreover have "sched s7 = sched s" "wiring s7 = wiring s" "gLAPICMMIO s7 = base"
    using ports_only_intr [OF wait_tsc_ports [OF s6]] assms(1)
    by (simp_all add: s7_def hw_run) (simp_all add: s5_def s4_def s3_def s2_def s1_def hw_run)
  ultimately show thesis using that initial_count_pos by (simp add: n_def)
qed

lemma ConfigureTimer_effect:
  fixes s :: intr_state
  assumes "apic_at hw base" and "gLAPICMMIO s = base" and "s' = exec (ConfigureTimer hw vec shift n True) s"
  shows "sched s' = sched s" "wiring s' = wiring s" "gLAPICMMIO s' = base"
    "mmio_writes (trace s') = mmio_writes (trace s) @ [(base + 0x3E0, ucast (shift AND 7)), (base + 0x320, ucast vec OR 0x20000 OR 0x10000),
       (base + 0x380, n), (base + 0x320, ucast vec OR 0x20000)]"
  using assms(1,2) by (simp_all add: assms(3) exec_def ConfigureTimer_def hw_run Let_def apic_at_def lapic_regs or.assoc)


lemma ParseMADT_loop_count:
  "ParseMADT_loop m p e out = Some out' \<Longrightarrow> length (IOAPICs out) = 8 \<Longrightarrow> IOAPICCount out \<le> 8 \<Longrightarrow> IOAPICCount out' \<le> 8"
proof (induction m p e out out' rule: ParseMADT_loop.raw_induct [rotated, consumes 1, case_names step])
  case (step rec m p e out out')
  have k: "length (IOAPICs (ParseMADT_entry m p out)) = 8" "IOAPICCount (ParseMADT_entry m p out) \<le> 8"
    using step.prems by (auto simp: ParseMADT_entry_def Let_def)
  from step.hyps have "out' = out \<or> rec m (p + field MADTEntryHeader ''Length'' m p) e (ParseMADT_entry m p out) = Some out'"
    by (auto simp: Let_def split: if_splits)
  then show ?case using step.prems step.IH k by blast
qed

lemma ParseMADT_count: "ParseMADT m rsdp new_ParsedMADT = Some (True, madt) \<Longrightarrow> IOAPICCount madt \<le> 8"
  by (auto simp: ParseMADT_def Let_def new_ParsedMADT_def dest!: ParseMADT_loop_count split: if_splits option.splits)

lemma AllocatePage_step:
  assumes "heap_at U a (Suc k) h"
  obtains p bm where "AllocatePage (hs_bitmap h) = (page_addr p, bm)" "heap_at U (Suc a) k (h\<lparr>hs_bitmap := bm\<rparr>)"
proof -
  have h: "bitmap_ok (hs_bitmap h)" "run_free (hs_bitmap h) a (Suc k)" using assms by (simp_all add: heap_at_def heap_ok_def)
  from AllocatePage_run [OF this] obtain p bm where "AllocatePage (hs_bitmap h) = (page_addr p, bm)" "bitmap_ok bm"
    "free_pages bm = free_pages (hs_bitmap h) - {p}" "run_free bm (Suc a) k" by blast
  with that assms show thesis by (auto simp: heap_at_def heap_ok_def)
qed

lemma make_ioapics_run:
  assumes "heap_at U a (Suc k) (boot_heap b)" and "env_ok env" and "0 < IOAPICCount madt" and "IOAPICCount madt \<le> 8"
  obtains bm ios where "make_ioapics env madt b = (set_heap ((boot_heap b)\<lparr>hs_bitmap := bm\<rparr>) b)\<lparr>ioapics := ios\<rparr>"
    "heap_at U (Suc a) k ((boot_heap b)\<lparr>hs_bitmap := bm\<rparr>)"
proof -
  let ?sz = "be_sizeofIOAPIC env * of_nat (IOAPICCount madt)"
  have e: "0 < unat (be_sizeofIOAPIC env)" "8 * unat (be_sizeofIOAPIC env) \<le> 4096" using assms(2) by (simp_all add: env_ok_def)
  have "unat (be_sizeofIOAPIC env) * IOAPICCount madt \<le> unat (be_sizeofIOAPIC env) * 8" by (rule mult_le_mono2 [OF assms(4)])
  also have "\<dots> \<le> 4096" using e(2) by simp
  finally have l: "unat (be_sizeofIOAPIC env) * IOAPICCount madt \<le> 4096" "0 < unat (be_sizeofIOAPIC env) * IOAPICCount madt"
    using e(1) assms(3) by simp_all
  moreover have "unat (of_nat (IOAPICCount madt) :: u64) = IOAPICCount madt" using assms(4) by (simp add: unat_of_nat_nowrap)
  ultimately have u: "unat ?sz = unat (be_sizeofIOAPIC env) * IOAPICCount madt" by (subst unat_mult_nowrap) simp_all
  have "(unat ?sz + 4095) div 4096 = 1" using l by (intro div_nat_eqI) (simp_all add: u)
  then have "unat (pages_for ?sz) = 1" by (simp add: pages_for_eq)
  then have "pages_for ?sz = 1" by (simp add: word_unat_eq_iff)
  then have "AllocatePage_size ?sz (hs_bitmap (boot_heap b)) = AllocatePage (hs_bitmap (boot_heap b))" by (simp add: AllocatePage_size_def)
  moreover obtain p bm where "AllocatePage (hs_bitmap (boot_heap b)) = (page_addr p, bm)" "heap_at U (Suc a) k ((boot_heap b)\<lparr>hs_bitmap := bm\<rparr>)"
    by (rule AllocatePage_step [OF assms(1)])
  ultimately show thesis using that by (simp add: make_ioapics_def)
qed

lemma InitPerCPU_run:
  fixes s :: intr_state
  assumes "heap_at U a (Suc k) (sched_state.heap (sched s))"
  obtains bm where "sched_state.heap (sched (InitPerCPU hw s)) = (sched_state.heap (sched s))\<lparr>hs_bitmap := bm\<rparr>"
    "heap_at U (Suc a) k ((sched_state.heap (sched s))\<lparr>hs_bitmap := bm\<rparr>)" "gLAPICMMIO (InitPerCPU hw s) = gLAPICMMIO s"
    "wiring (InitPerCPU hw s) = wiring s"
    "gRunQueue (sched (InitPerCPU hw s)) = gRunQueue (sched s)" "gAllocator (sched (InitPerCPU hw s)) = gAllocator (sched s)"
proof -
  obtain p bm where p: "AllocatePage (hs_bitmap (sched_state.heap (sched s))) = (page_addr p, bm)"
      "heap_at U (Suc a) k ((sched_state.heap (sched s))\<lparr>hs_bitmap := bm\<rparr>)" by (rule AllocatePage_step [OF assms])
  have k: "sched (snd (run_state (ReadLAPICID hw) s)) = sched s" "gLAPICMMIO (snd (run_state (ReadLAPICID hw) s)) = gLAPICMMIO s"
    "wiring (snd (run_state (ReadLAPICID hw) s)) = wiring s"
    by (simp_all add: ReadLAPICID_def hw_run)
  show thesis by (rule that [of bm]) (simp_all add: InitPerCPU_def Let_def case_prod_beta p exec_def SetPerCPUBase_def hw_run k)
qed

definition timer_running :: "u64 \<Rightarrow> io_event list \<Rightarrow> bool" where
  "timer_running base tr \<longleftrightarrow> last_write tr (base + 0x320) = Some 0x20060 \<and> (\<exists>n. last_write tr (base + 0x380) = Some n \<and> n \<noteq> 0)"

definition tsc_ok :: "hardware \<Rightarrow> u64 \<Rightarrow> bool" where
  "tsc_ok hw hz \<longleftrightarrow> (\<exists>m. tsc_advances hw m \<and> unat ((hz * 200) div 1000) + m < 2 ^ 64)"

lemma InitPerCPUAndTime_run:
  assumes "apic_at (be_hw env) base" and "gLAPICMMIO (intr b) = base" and "tsc_ok (be_hw env) (TSCFreq (ClockInfo info))"
    and "heap_at U a (Suc k) (boot_heap b)" and "gEOI (intr b) = None" and "gLogger (intr b) = None"
  obtains s where "InitPerCPUAndTime env info b = Some (b\<lparr>intr := s\<rparr>)" "heap_at U (Suc a) k (sched_state.heap (sched s))"
    "hs_mem (sched_state.heap (sched s)) = hs_mem (boot_heap b)" "gRunQueue (sched s) = gRunQueue (sched (intr b))"
    "gAllocator (sched s) = gAllocator (sched (intr b))" "timer_wired base s" "timer_running base (trace s)"
proof -
  let ?hw = "be_hw env" and ?s = "InitPerCPU (be_hw env) (intr b)"
  obtain bm where p: "sched_state.heap (sched ?s) = (boot_heap b)\<lparr>hs_bitmap := bm\<rparr>" "heap_at U (Suc a) k ((boot_heap b)\<lparr>hs_bitmap := bm\<rparr>)"
      "gLAPICMMIO ?s = base" "wiring ?s = wiring (intr b)" "gRunQueue (sched ?s) = gRunQueue (sched (intr b))" "gAllocator (sched ?s) = gAllocator (sched (intr b))"
    using InitPerCPU_run [of U a k "intr b" ?hw] assms(2,4) by (auto simp: boot_heap_def)
  from assms(3) obtain m where "tsc_advances ?hw m" "unat ((TSCFreq (ClockInfo info) * ucast (200 :: u32)) div 1000) + m < 2 ^ 64"
    by (auto simp: tsc_ok_def)
  from Calibrate_run [OF p(3) this, of DIV_SHIFT TARGET_US] obtain n s1 where
    c: "CalibrateTimerInitialCountTSC ?hw (TSCFreq (ClockInfo info)) DIV_SHIFT TARGET_US 200 ?s = Some (n, s1)" "n \<noteq> 0"
      "sched s1 = sched ?s" "wiring s1 = wiring ?s" "gLAPICMMIO s1 = base" by blast
  define s2 where "s2 = InitTimerHandler VEC_TIMER s1"
  have s2: "sched s2 = sched ?s" "gLAPICMMIO s2 = base" "timer_wired base s2"
    using c(3-5) p(4) assms(5,6) by (simp_all add: s2_def InitTimerHandler_def RegisterInterruptHandler_def timer_wired_def wiring_def)
  note t = ConfigureTimer_effect [OF assms(1) s2(2) refl, of VEC_TIMER DIV_SHIFT n]
  have "InitPerCPUAndTime env info b = Some (b\<lparr>intr := exec (ConfigureTimer ?hw VEC_TIMER DIV_SHIFT n True) s2\<rparr>)"
    by (simp add: InitPerCPUAndTime_def c(1) s2_def)
  moreover have "timer_running base (trace (exec (ConfigureTimer ?hw VEC_TIMER DIV_SHIFT n True) s2))"
    using c(2) unfolding timer_running_def last_write_def t(4) by (simp add: VEC_TIMER_def)
  moreover have "timer_wired base (exec (ConfigureTimer ?hw VEC_TIMER DIV_SHIFT n True) s2)"
    using s2(3) timer_wired_cong [OF t(2)] t(3) s2(2) by simp
  ultimately show thesis using that t(1) s2(1) p by simp
qed


definition firmware_ok :: "nat set \<Rightarrow> GraphicInfo \<Rightarrow> memory \<Rightarrow> u64 \<Rightarrow> bool" where
  "firmware_ok U g m0 rsdp \<longleftrightarrow>
     (\<forall>m. mem_kept U g m0 m \<longrightarrow> (\<exists>madt. ParseMADT m rsdp new_ParsedMADT = Some (True, madt) \<and> 0 < IOAPICCount madt))"

lemma main_apic_run:
  assumes "apic_at (be_hw env) base" and "tsc_ok (be_hw env) (TSCFreq (ClockInfo info))" and "env_ok env"
    and "\<not> apic_isInitialized (intr b)" and "heap_at U a (2 + k) (boot_heap b)"
    and "ParseMADT (hs_mem (boot_heap b)) (RSDP info) new_ParsedMADT = Some (True, madt)" and "0 < IOAPICCount madt"
  shows "completes (main_apic env info b) (\<lambda>b'. heap_at U (a + 2) k (boot_heap b') \<and>
    gRunQueue (sched (intr b')) = gRunQueue (sched (intr b)) \<and> gAllocator (sched (intr b')) = gAllocator (sched (intr b)) \<and>
    frame_owner b' = frame_owner b \<and> uart_owner b' = uart_owner b \<and> tables b' = tables b \<and>
    timer_wired base (intr b') \<and> timer_running base (trace (intr b')))"
proof -
  define s where "s = InitCoreExceptionHandlers (InitInterruptDispatch (APICController (be_hw env) (intr b)))"
  let ?b1 = "b\<lparr>intr := s\<rparr>"
  note s = APICController_ready [OF assms(1,4) s_def]
  have h: "boot_heap ?b1 = boot_heap b" by (simp add: boot_heap_def s(1))
  have "heap_at U a (Suc (Suc k)) (boot_heap ?b1)" using assms(5) by (simp add: h)
  from make_ioapics_run [OF this assms(3,7) ParseMADT_count [OF assms(6)]] obtain bm ios where
    io: "make_ioapics env madt ?b1 = (set_heap ((boot_heap ?b1)\<lparr>hs_bitmap := bm\<rparr>) ?b1)\<lparr>ioapics := ios\<rparr>" (is "_ = ?b2")
      "heap_at U (Suc a) (Suc k) ((boot_heap ?b1)\<lparr>hs_bitmap := bm\<rparr>)" by blast
  have b2: "boot_heap ?b2 = (boot_heap ?b1)\<lparr>hs_bitmap := bm\<rparr>" "gLAPICMMIO (intr ?b2) = base" "gEOI (intr ?b2) = None" "gLogger (intr ?b2) = None"
      "gRunQueue (sched (intr ?b2)) = gRunQueue (sched (intr b))" "gAllocator (sched (intr ?b2)) = gAllocator (sched (intr b))"
    by (simp_all add: set_heap_def boot_heap_def s)
  have "heap_at U (Suc a) (Suc k) (boot_heap ?b2)" using io(2) b2(1) by simp
  from InitPerCPUAndTime_run [OF assms(1) b2(2) assms(2) this b2(3,4)] obtain s' where
    s': "InitPerCPUAndTime env info ?b2 = Some (?b2\<lparr>intr := s'\<rparr>)" "heap_at U (Suc (Suc a)) k (sched_state.heap (sched s'))"
      "gRunQueue (sched s') = gRunQueue (sched (intr ?b2))" "gAllocator (sched s') = gAllocator (sched (intr ?b2))"
      "timer_wired base s'" "timer_running base (trace s')" by blast
  have "main_apic env info b = Some (Inr (?b2\<lparr>intr := s'\<rparr>))"
    using assms(6) s'(1) by (simp add: main_apic_def s_def [symmetric] h io(1))
  then show ?thesis using s'(2-6) b2(5,6) by (simp add: completes_def boot_heap_def set_heap_def numeral_eq_Suc)
qed

subsection \<open>The report\<close>

definition boot_banner :: "u32 \<Rightarrow> u8 list \<Rightarrow> u8 list" where
  "boot_banner lapic name = concat (map crlf (cstr ''PerCPU initialization finished. LAPIC ID='' @ cstr (ULongToHexString (ucast lapic)) @ [0x0A] @
     cstr (''Finished kernel initialization.'' @ [CHR 0x0A]) @ cstr ''Processor: '' @ name))"

lemma procName_effect:
  "ports_only s (snd (run_state (procName hw) s))" "length (fst (run_state (procName hw) s)) = 48"
  by (simp_all add: procName_def hw_run ports_only_def leaf_bytes_def bytes32_def case_prod_beta)

lemma procName_sent: "sent p (trace (snd (run_state (procName hw) s))) = sent p (trace s)"
  by (simp add: procName_def hw_run) (simp add: sent_def)

lemma printed_procName:
  assumes "console_wf hw g (consoles b)"
  shows "printed hw g [] b (b\<lparr>intr := snd (run_state (procName hw) (intr b))\<rparr>)"
proof -
  let ?b = "b\<lparr>intr := snd (run_state (procName hw) (intr b))\<rparr>"
  have p: "ports_only (intr b) (intr ?b)" by (simp add: procName_effect(1))
  note k = ports_only_intr [OF this]
  have h: "boot_heap ?b = boot_heap b" using k(1) by (simp add: boot_heap_def)
  have "serial_out (consoles ?b) = serial_out (consoles b)"
    by (simp add: serial_out_def console_out_def procName_sent cong: option.case_cong)
  moreover have "mmio_writes (trace (intr ?b)) = mmio_writes (trace (intr b))" using p by (simp add: ports_only_def)
  ultimately show ?thesis
    using assms k h by (simp add: printed_def console_kept_def console_wf_def port_ready_def only_frame_def)
qed

lemma printed_fields:
  assumes "console_wf hw g (consoles b)"
  shows "printed hw g [] b (b\<lparr>gHwClockInfo := x, acpiManager := y\<rparr>)"
proof -
  have "consoles (b\<lparr>gHwClockInfo := x, acpiManager := y\<rparr>) = consoles b" by (simp add: consoles_def boot_heap_def)
  with assms show ?thesis by (simp add: printed_def console_kept_refl)
qed

lemma printed_wf: "printed hw g bs b b' \<Longrightarrow> console_wf hw g (consoles b')"
  by (simp add: printed_def)

lemma completes_printed:
  assumes "printed hw g bs b b1" and "completes r (printed hw g bs' b1)"
  shows "completes r (printed hw g (bs @ bs') b)"
  using assms by (auto simp: completes_def intro: printed_trans)

lemma report_call:
  assumes "printed hw g bs b b1" and "\<And>b2. printed hw g (bs @ op_bytes crlf x) b b2 \<Longrightarrow> completes (h b2) R"
  shows "completes (boot_bind (on_console (do_op (bootstrap_device hw) x) b1) h) R"
  using completes_printed [OF assms(1) on_console_op [OF printed_wf [OF assms(1)]]] assms(2) by (rule completes_bind)

lemmas report_calls = report_call [where x = "OpPutString cs" for cs, simplified] report_call [where x = "OpPutChar c" for c, simplified]

lemma report_update: "printed hw g bs b b1 \<Longrightarrow> printed hw g bs b (b1\<lparr>gHwClockInfo := x, acpiManager := y\<rparr>)"
  "printed hw g bs b b1 \<Longrightarrow> printed hw g bs b (b1\<lparr>intr := snd (run_state (procName hw) (intr b1))\<rparr>)"
  using printed_trans [OF _ printed_fields [OF printed_wf]] printed_trans [OF _ printed_procName [OF printed_wf]] by fastforce+

lemma main_report_run:
  assumes "console_wf (be_hw env) g (consoles b)"
  shows "completes (main_report env info (bootstrap_device (be_hw env)) b)
    (\<lambda>b'. \<exists>lapic name. length name \<le> 48 \<and> printed (be_hw env) g (boot_banner lapic name) b b')"
proof -
  have 0: "printed (be_hw env) g [] b b" using assms by (simp add: printed_def console_kept_refl)
  have flush: "completes (on_console (dev_Flush (bootstrap_device (be_hw env))) b1)
      (\<lambda>b'. \<exists>lapic name. length name \<le> 48 \<and> printed (be_hw env) g (boot_banner lapic name) b b')"
    if "printed (be_hw env) g (boot_banner lapic name) b b1" "length name \<le> 48" for b1 lapic name
    using completes_printed [OF that(1) on_console_calls(3) [OF printed_wf [OF that(1)]]] that(2) by (auto elim!: completes_mono)
  have len: "length (takeWhile (\<lambda>c. c \<noteq> 0) (fst (run_state (procName hw) s))) \<le> 48" for hw and s :: intr_state
    using length_takeWhile_le [of "\<lambda>c. c \<noteq> 0" "fst (run_state (procName hw) s)"] by (simp add: procName_effect(2))
  show ?thesis
    unfolding main_report_def Let_def case_prod_beta
    apply (rule report_calls(1) [OF 0])
    apply (erule report_calls(1))
    apply (erule report_calls(2))
    apply (rule report_calls(1), erule report_update(1))
    apply (rule report_calls(1), erule report_update(2))
    apply (erule report_calls(1))
    apply (rule flush [OF _ len])
    apply (simp add: boot_banner_def)
    done
qed

end
