(* ===== verification/BootSequence.thy ===== *)
theory BootSequence
  imports BootSteps
begin

text \<open>
  The boot sequence as a whole: \<open>main\<close> of \<open>Kernel/Core/KernelMain.cpp\<close> from the state the loader leaves to the first worker thread,
  and a machine on which all its conditions hold.
\<close>

subsection \<open>The whole sequence\<close>

lemma timer_running_cong: "mmio_writes tr' = mmio_writes tr \<Longrightarrow> timer_running base tr' \<longleftrightarrow> timer_running base tr"
  by (simp add: timer_running_def last_write_def)

text \<open>The state a worker thread relies on: sound consoles, heap and scheduler.\<close>

definition worker_ready :: "boot_env \<Rightarrow> GraphicInfo \<Rightarrow> boot_state \<Rightarrow> bool" where
  "worker_ready env g b \<longleftrightarrow> console_wf (be_hw env) g (consoles b) \<and> heap_ok (boot_heap b) \<and> (\<exists>xs. sched_ok (sched (intr b)) xs)"

lemma main_runs:
  assumes "cold_state b" and "env_ok env" and "map_ok (MemInfo info)"
    and "{a..<a + (24 + gib_count (MemInfo info))} \<subseteq> usable_pages (MemInfo info)" and "screen_ok (FrameBufferInfo info)"
    and "ports_live (be_hw env)" and "apic_at (be_hw env) base" and "tsc_ok (be_hw env) (TSCFreq (ClockInfo info))"
    and "firmware_ok (usable_pages (MemInfo info)) (FrameBufferInfo info) (hs_mem (boot_heap b)) (RSDP info)"
  shows "\<exists>b' t u pre lapic name. main env info b = Some (Inr b') \<and>
    t = Current (sched (intr b')) \<and> Entry (threads (sched (intr b')) t) = fst (be_workers env) \<and> State (threads (sched (intr b')) t) = Running \<and>
    sched_ok (sched (intr b')) [u] \<and> Entry (threads (sched (intr b')) u) = snd (be_workers env) \<and> u \<noteq> t \<and>
    bit (flags (crit b')) IF_BIT \<and> \<not> InCritical (crit b') \<and> tables b' = tables (InitCPU env b) \<and>
    timer_wired base (intr b') \<and> timer_running base (trace (intr b')) \<and> length name \<le> 48 \<and>
    (port_ready (consoles b') \<longrightarrow> serial_out (consoles b') = pre @ boot_banner lapic name) \<and>
    worker_ready env (FrameBufferInfo info) b' \<and> requeues (sched (intr b'))"
proof -
  let ?U = "usable_pages (MemInfo info)" and ?g = "FrameBufferInfo info" and ?hw = "be_hw env"
  have "24 + gib_count (MemInfo info) = 6 + gib_count (MemInfo info) + 18" by simp
  with assms(4) have run: "{a..<a + (6 + gib_count (MemInfo info) + 18)} \<subseteq> ?U" by (simp only:)
  obtain b1 a1 where b1: "main_early env info b = Inr (bootstrap_device ?hw, b1)" "console_wf ?hw ?g (consoles b1)"
      "heap_at ?U a1 18 (boot_heap b1)" "mem_kept ?U ?g (hs_mem (boot_heap b)) (hs_mem (boot_heap b1))" "gAllocator (sched (intr b1)) \<noteq> 0"
      "gRunQueue (sched (intr b1)) = new_RunQueue" "\<not> apic_isInitialized (intr b1)" "tables b1 = tables (InitCPU env b)"
    by (rule main_early_run [OF assms(1-3) refl run assms(6) refl assms(5)])
  from assms(9) b1(4) obtain madt where
    madt: "ParseMADT (hs_mem (boot_heap b1)) (RSDP info) new_ParsedMADT = Some (True, madt)" "0 < IOAPICCount madt"
    by (auto simp: firmware_ok_def)
  have "heap_at ?U a1 (2 + 16) (boot_heap b1)" using b1(3) by simp
  from main_apic_run [OF assms(7,8,2) b1(7) this madt] obtain b2 where
    b2: "main_apic env info b1 = Some (Inr b2)" "heap_at ?U (a1 + 2) 16 (boot_heap b2)" "gAllocator (sched (intr b2)) \<noteq> 0"
      "gRunQueue (sched (intr b2)) = new_RunQueue" "frame_owner b2 = frame_owner b1" "uart_owner b2 = uart_owner b1" "tables b2 = tables b1"
      "timer_wired base (intr b2)" "timer_running base (trace (intr b2))"
    using b1(5,6) by (auto simp: completes_def)
  have "console_wf ?hw ?g (consoles b2)" using b1(2) b2(5,6) by (simp add: console_wf_def)
  from main_report_run [OF this, of info] obtain b3 lapic name where
    b3: "main_report env info (bootstrap_device ?hw) b2 = Some (Inr b3)" "length name \<le> 48" "printed ?hw ?g (boot_banner lapic name) b2 b3"
    by (auto simp: completes_def)
  have k: "hs_bitmap (boot_heap b3) = hs_bitmap (boot_heap b2)" "gEarlyAlloc (boot_heap b3) = gEarlyAlloc (boot_heap b2)"
      "mmio_writes (trace (intr b3)) = mmio_writes (trace (intr b2))" "port_ready (consoles b3) = port_ready (consoles b2)"
    using b3(3) by (simp_all add: printed_def console_kept_def)
  have s3: "heap_ok (sched_state.heap (sched (intr b3)))" "gAllocator (sched (intr b3)) \<noteq> 0" "gRunQueue (sched (intr b3)) = new_RunQueue"
      "{a1 + 2..<a1 + 2 + 16} \<subseteq> free_pages (hs_bitmap (sched_state.heap (sched (intr b3))))"
    using b2(2-4) b3(3) k(1,2) by (simp_all add: heap_at_def heap_ok_def run_free_def printed_def boot_heap_def)
  have img: "image_ok (be_image env)" using assms(2) by (simp add: env_ok_def)
  from KernelStartThreads_starts [OF img s3, of "be_names env" "be_workers env"] obtain s' u where
    s': "KernelStartThreads (be_image env) (be_names env) (be_workers env) (sched (intr b3)) = Inr s'"
      "Entry (threads s' (Current s')) = fst (be_workers env)" "State (threads s' (Current s')) = Running" "sched_ok s' [u]"
      "Entry (threads s' u) = snd (be_workers env)" "u \<noteq> Current s'" "heap_ok (sched_state.heap s')" "requeues s'" by blast
  define b' where "b' = b3\<lparr>crit := EndCriticalSection (crit b3), intr := (intr b3)\<lparr>sched := s'\<rparr>\<rparr>"
  have "main env info b = Some (Inr b')"
    using b1(1) b2(1) b3(1) s'(1) by (simp add: main_def boot_bind_def b'_def Let_def)
  moreover have "bit (flags (crit b')) IF_BIT" "\<not> InCritical (crit b')"
    by (simp_all add: b'_def EndCriticalSection_def bit_set_bit_iff IF_BIT_def)
  moreover have "tables b' = tables (InitCPU env b)" "timer_running base (trace (intr b'))" "timer_wired base (intr b')"
    using b1(8) b2(7-9) b3(3) timer_running_cong [OF k(3)] by (simp_all add: b'_def printed_def timer_wired_def wiring_def)
  moreover have "serial_out (consoles b') = serial_out (consoles b3)" "port_ready (consoles b') = port_ready (consoles b3)"
    by (simp_all add: b'_def serial_out_def console_out_def port_ready_def cong: option.case_cong)
  then have "port_ready (consoles b') \<longrightarrow> serial_out (consoles b') = serial_out (consoles b2) @ boot_banner lapic name"
    using b3(3) k(4) by (simp add: printed_def)
  moreover have s: "sched (intr b') = s'" by (simp add: b'_def)
  moreover have "console_wf ?hw ?g (consoles b')" using printed_wf [OF b3(3)] by (simp add: b'_def console_wf_def)
  then have "worker_ready env ?g b'" using s s'(4,7) by (auto simp: worker_ready_def boot_heap_def)
  ultimately show ?thesis using s'(2-6,8) b3(2) by blast
qed


subsection \<open>A machine that boots\<close>

definition boot_hw :: hardware where
  "boot_hw = sample_hw\<lparr>hw_in8 := \<lambda>tr _. if even (length tr) then 0x20 else 0\<rparr>"

definition boot_start :: boot_state where
  "boot_start = cold_boot\<lparr>intr := (intr cold_boot)\<lparr>apic_isInitialized := False,
     sched := (sched (intr cold_boot))\<lparr>sched_state.heap := \<lparr>hs_bitmap = \<lambda>_. 0xFF, hs_mem = sample_tables, gEarlyAlloc = 0\<rparr>\<rparr>\<rparr>\<rparr>"

definition boot_machine :: boot_env where
  "boot_machine = cold_env\<lparr>be_hw := boot_hw\<rparr>"

definition boot_info :: BootInfo where
  "boot_info = roomy_boot_info\<lparr>RSDP := 0x1000\<rparr>"

lemma boot_hw_ok: "ports_live boot_hw" "apic_at boot_hw 0xFEE00000" "tsc_ok boot_hw 1000000"
proof -
  have "uart_live boot_hw p" for p
    unfolding uart_live_def
  proof
    fix tr :: "io_event list"
    show "\<exists>n. hw_in8 boot_hw (polls boot_hw p n tr) p AND 0x20 \<noteq> 0"
      by (cases "even (length tr)") (auto intro: exI [of _ 0] exI [of _ "Suc 0"] simp: boot_hw_def)
  qed
  then show "ports_live boot_hw" by (simp add: ports_live_def)
  show "apic_at boot_hw 0xFEE00000"
    by (simp add: apic_at_def boot_hw_def sample_hw_def apic_base_def APIC_BASE_EN_def APIC_BASE_EXTD_def APIC_BASE_ADDR_MASK_def)
  have "tsc_advances boot_hw 1" by (simp add: tsc_advances_def boot_hw_def sample_hw_def)
  then show "tsc_ok boot_hw 1000000" by (auto simp: tsc_ok_def intro!: exI [of _ 1])
qed

lemma sample_firmware_ok:
  assumes "\<And>x. unat x < 61440 \<Longrightarrow> m0 x = sample_tables x"
  shows "firmware_ok {16..<80} (FrameBufferInfo cold_info) m0 0x1000"
  unfolding firmware_ok_def
proof (intro allI impI)
  fix m assume kept: "mem_kept {16..<80} (FrameBufferInfo cold_info) m0 m"
  have same: "m x = sample_tables x" if "unat x < 61440" for x
  proof -
    have "unat x div 4096 < 15" using that by (simp add: less_mult_imp_div_less)
    moreover have "\<not> in_frame (FrameBufferInfo cold_info) x" using that by (simp add: in_frame_def cold_info_def)
    ultimately show ?thesis using kept assms [OF that] by (simp add: mem_kept_def untouched_def)
  qed
  have rb: "read_bytes m a n = read_bytes sample_tables a n" if "unat a + n \<le> 61440" for a n
  proof -
    have "m (a + of_nat i) = sample_tables (a + of_nat i)" if "i < n" for i
    proof (rule same)
      have "unat (a + of_nat i) = unat a + i" using that \<open>unat a + n \<le> 61440\<close> by (subst unat_add_nowrap) (simp_all add: unat_of_nat_nowrap)
      then show "unat (a + of_nat i) < 61440" using that \<open>unat a + n \<le> 61440\<close> by simp
    qed
    then show ?thesis by (simp add: read_bytes_def)
  qed
  have f: "field fs nm m p = field fs nm sample_tables p" if "unat (p + of_nat (field_offset fs nm)) + field_size fs nm \<le> 61440" for fs nm p
    unfolding field_def by (simp only: rb [OF that])
  have root: "field RSDPtr ''Revision'' m 0x1000 = 2" "field RSDPtr ''XSDTAddress'' m 0x1000 = 0x2000"
    "field SDTHeader ''Length'' m 0x2000 = 44" "read64 m 0x2024 = 0x3000" "field SDTHeader ''Length'' m 0x3000 = 66"
    "field MADTEntryHeader ''Length'' m 0x302C = 12" "field MADTEntryHeader ''Type'' m 0x302C = 1"
    "field MADTEntryHeader ''Length'' m 0x3038 = 10" "field MADTEntryHeader ''Type'' m 0x3038 = 2"
    "read_bytes m 0x3000 (length ACPI_SIG_MADT) = ACPI_SIG_MADT"
    using sample_root sample_entries sample_sig
    by (simp_all add: f rb RSDPtr_def SDTHeader_def MADTEntryHeader_def read64_def ACPI_SIG_MADT_def)
  have "FindTable m 0x1000 (Some ACPI_SIG_MADT) = 0x3000"
    by (simp add: FindTable_def Let_def root table_entries_def FindTable_loop.simps CheckSigEq_iff)
  moreover have "madt_entries m 0x302C 22 = [0x302C, 0x3038]"
    by (simp add: madt_entries.simps [of _ _ 22] madt_entries.simps [of _ _ 10] madt_entries.simps [of _ _ 0] root)
  ultimately show "\<exists>madt. ParseMADT m 0x1000 new_ParsedMADT = Some (True, madt) \<and> 0 < IOAPICCount madt"
    using ParseMADT_result [of "0x3000" m "0x1000" 66] root by (fastforce simp: is_ioapic_def is_iso_def madt_holds_def)
qed

lemma boot_machine_ok:
  "cold_state boot_start" "env_ok boot_machine" "map_ok (MemInfo boot_info)"
  "{16..<16 + (24 + gib_count (MemInfo boot_info))} \<subseteq> usable_pages (MemInfo boot_info)" "screen_ok (FrameBufferInfo boot_info)"
  "ports_live (be_hw boot_machine)" "apic_at (be_hw boot_machine) 0xFEE00000" "tsc_ok (be_hw boot_machine) (TSCFreq (ClockInfo boot_info))"
  "firmware_ok (usable_pages (MemInfo boot_info)) (FrameBufferInfo boot_info) (hs_mem (boot_heap boot_start)) (RSDP boot_info)"
proof -
  have heap: "boot_heap boot_start = \<lparr>hs_bitmap = \<lambda>_. 0xFF, hs_mem = sample_tables, gEarlyAlloc = 0\<rparr>" by (simp add: boot_start_def boot_heap_def)
  show "cold_state boot_start"
    using roomy_ok(3) by (simp add: cold_state_def heap) (simp add: boot_start_def cold_boot_def example_early_def roomy_sched_def)
  show "env_ok boot_machine"
    using example_image_ok by (simp add: env_ok_def boot_machine_def cold_env_def sizes_ok_def sample_sizes_def)
  have mi: "MemInfo boot_info = roomy_info" by (simp add: boot_info_def roomy_boot_info_def)
  show "map_ok (MemInfo boot_info)" by (simp add: mi roomy_map_ok)
  show "{16..<16 + (24 + gib_count (MemInfo boot_info))} \<subseteq> usable_pages (MemInfo boot_info)" by (simp add: mi roomy_usable roomy_max)
  have g: "FrameBufferInfo boot_info = FrameBufferInfo cold_info" "RSDP boot_info = 0x1000" "TSCFreq (ClockInfo boot_info) = 1000000"
    by (simp_all add: boot_info_def roomy_boot_info_def cold_info_def)
  show "screen_ok (FrameBufferInfo boot_info)" by (simp add: g) (simp add: screen_ok_def cold_info_def)
  have "be_hw boot_machine = boot_hw" by (simp add: boot_machine_def)
  with boot_hw_ok show "ports_live (be_hw boot_machine)" "apic_at (be_hw boot_machine) 0xFEE00000"
    "tsc_ok (be_hw boot_machine) (TSCFreq (ClockInfo boot_info))" by (simp_all add: g)
  show "firmware_ok (usable_pages (MemInfo boot_info)) (FrameBufferInfo boot_info) (hs_mem (boot_heap boot_start)) (RSDP boot_info)"
    using sample_firmware_ok [of sample_tables] by (simp add: heap g mi roomy_usable)
qed


end
