(* ===== verification/Workers.thy ===== *)
theory Workers
  imports BootSequence
begin

text \<open>
  The two worker threads of \<open>Kernel/Core/KernelMain.cpp\<close> after boot. Each endless loop is modelled by its rounds; what other
  threads and interrupts do while a worker is switched out is the argument \<open>resume\<close>, of which the theorems
  assume that the timer ticks, that the scheduler stays sound and that no page is given back.
\<close>

subsection \<open>Rounds\<close>

abbreviation pages :: "boot_state \<Rightarrow> nat set" where
  "pages b \<equiv> free_pages (hs_bitmap (boot_heap b))"

definition set_sched :: "sched_state \<Rightarrow> boot_state \<Rightarrow> boot_state" where
  "set_sched s b = b\<lparr>intr := (intr b)\<lparr>sched := s\<rparr>\<rparr>"

definition MessageA :: "u8 list" where
  "MessageA = cstr (''Hello, Scheduled tasks! This message must be shown once per a second!'' @ [CHR 0x0A])"

definition MessageB :: "u8 list" where
  "MessageB = cstr (''Greetings from Worker B!'' @ [CHR 0x0A])"

text \<open>The part of worker A's loop before it sleeps.\<close>

definition WorkerA_print :: "boot_env \<Rightarrow> boot_state \<Rightarrow> boot_state boot_result" where
  "WorkerA_print env b =
     (case GetBootstrapConsole (be_hw env) (be_sizes env) (consoles b) of
        Inl e \<Rightarrow> Some (Inl e)
      | Inr ((p, con), c) \<Rightarrow> on_console (dev_PutString con MessageA) (put_consoles c b))"

lemma WorkerA_round_split:
  "WorkerA_round env resume b = boot_bind (WorkerA_print env b) (\<lambda>b1.
     case SleepMs (be_image env) resume 1000 (sched (intr b1)) of
       None \<Rightarrow> None | Some (Inl e) \<Rightarrow> Some (Inl e) | Some (Inr s) \<Rightarrow> Some (Inr (set_sched s b1)))"
  unfolding WorkerA_round_def WorkerA_print_def MessageA_def set_sched_def boot_bind_def by (auto split: sum.split)

primrec WorkerA_rounds :: "boot_env \<Rightarrow> (nat \<Rightarrow> nat \<Rightarrow> sched_state \<Rightarrow> sched_state) \<Rightarrow> nat \<Rightarrow> boot_state \<Rightarrow> boot_state boot_result" where
  "WorkerA_rounds env resume 0 b = Some (Inr b)"
| "WorkerA_rounds env resume (Suc n) b = boot_bind (WorkerA_round env (resume n) b) (WorkerA_rounds env resume n)"

definition frees_nothing :: "(nat \<Rightarrow> sched_state \<Rightarrow> sched_state) \<Rightarrow> bool" where
  "frees_nothing resume \<longleftrightarrow> (\<forall>k s. heap_ok (heap s) \<longrightarrow>
     heap_ok (heap (resume k s)) \<and> free_pages (hs_bitmap (heap (resume k s))) \<subseteq> free_pages (hs_bitmap (heap s)))"

lemma sched_ok_heap [simp]: "sched_ok (s\<lparr>heap := h\<rparr>) xs \<longleftrightarrow> sched_ok s xs"
  by (simp add: sched_ok_def Current_def)

lemma NowTick_heap [simp]: "NowTick (s\<lparr>heap := h\<rparr>) = NowTick s"
  by (simp add: NowTick_def)

lemma on_console_sched: "on_console f b = Some (Inr b') \<Longrightarrow> sched (intr b') = (sched (intr b))\<lparr>heap := boot_heap b'\<rparr>"
  by (auto simp: on_console_def put_consoles_def set_heap_def boot_heap_def split: option.splits)

subsection \<open>Sleeping keeps memory\<close>

lemma SleepUntilTick_loop_heap:
  "SleepUntilTick_loop img resume target k s = Some r \<Longrightarrow> r = Inr s' \<Longrightarrow> \<exists>xs. sched_ok s xs \<Longrightarrow> ticking target resume \<Longrightarrow> frees_nothing resume \<Longrightarrow>
   heap_ok (heap s) \<Longrightarrow> heap_ok (heap s') \<and> free_pages (hs_bitmap (heap s')) \<subseteq> free_pages (hs_bitmap (heap s))"
proof (induction img resume target k s r rule: SleepUntilTick_loop.raw_induct [rotated, consumes 1, case_names step])
  case (step rec img resume target k s r)
  show ?case
  proof (cases "NowTick s < target")
    case True
    from step.prems(2) obtain xs where "sched_ok s xs" by blast
    from Yield_refines [OF this, of img] obtain s1 ys where
      y: "Yield img s = Inr s1" "sched_ok s1 ys" "hs_bitmap (heap s1) = hs_bitmap (heap s)" "gEarlyAlloc (heap s1) = gEarlyAlloc (heap s)" by metis
    have h1: "heap_ok (heap s1)" using step.prems(5) y(3,4) by (simp add: heap_ok_def)
    have r: "heap_ok (heap (resume k s1))" "free_pages (hs_bitmap (heap (resume k s1))) \<subseteq> free_pages (hs_bitmap (heap s))"
      using step.prems(4) [unfolded frees_nothing_def, rule_format, OF h1, of k] y(3) by simp_all
    have "\<exists>xs. sched_ok (resume k s1) xs" using step.prems(3) y(2) by (auto simp: ticking_def)
    moreover have "rec img resume target (Suc k) (resume k s1) = Some r" using step.hyps True y(1) by simp
    ultimately show ?thesis using step.IH [OF _ step.prems(1)] step.prems(3,4) r by blast
  next
    case False
    with step.hyps step.prems(1,5) show ?thesis by simp
  qed
qed

lemma SleepMs_run:
  assumes "sched_ok s xs" and "ticking (NowTick s + ms) resume" and "frees_nothing resume" and "heap_ok (heap s)"
  obtains s' ys where "SleepMs img resume ms s = Some (Inr s')" "sched_ok s' ys" "NowTick s + ms \<le> NowTick s'" "heap_ok (heap s')"
    "free_pages (hs_bitmap (heap s')) \<subseteq> free_pages (hs_bitmap (heap s))"
proof -
  from SleepUntilTick_loop_returns [OF assms(2,1), of img 0] obtain s' ys where
    r: "SleepUntilTick_loop img resume (NowTick s + ms) 0 s = Some (Inr s')" "sched_ok s' ys" "NowTick s + ms \<le> NowTick s'" by blast
  from SleepUntilTick_loop_heap [OF r(1) refl _ assms(2-4)] assms(1) r that show thesis
    by (auto simp: SleepMs_def SleepUntilTick_def Let_def)
qed

subsection \<open>The console of a worker\<close>

text \<open>What neither a print nor a new console changes: dispatcher, flags and the presence of a serial port.\<close>

definition worker_kept :: "boot_state \<Rightarrow> boot_state \<Rightarrow> bool" where
  "worker_kept b b' \<longleftrightarrow> wiring (intr b') = wiring (intr b) \<and> gLAPICMMIO (intr b') = gLAPICMMIO (intr b) \<and>
     flags (crit b') = flags (crit b) \<and> port_ready (consoles b') = port_ready (consoles b)"

lemma worker_kept_trans: "worker_kept b b1 \<Longrightarrow> worker_kept b1 b2 \<Longrightarrow> worker_kept b b2"
  by (simp add: worker_kept_def)

text \<open>The scheduler of \<open>b'\<close> is that of \<open>b\<close> on another heap.\<close>

definition same_sched :: "boot_state \<Rightarrow> boot_state \<Rightarrow> bool" where
  "same_sched b b' \<longleftrightarrow> sched (intr b') = (sched (intr b))\<lparr>sched_state.heap := boot_heap b'\<rparr>"

lemma same_sched_trans: "same_sched b b1 \<Longrightarrow> same_sched b1 b2 \<Longrightarrow> same_sched b b2"
  by (simp add: same_sched_def)

lemma same_sched_facts:
  assumes "same_sched b b'"
  shows "sched_ok (sched (intr b')) xs \<longleftrightarrow> sched_ok (sched (intr b)) xs" "NowTick (sched (intr b')) = NowTick (sched (intr b))"
    "Current (sched (intr b')) = Current (sched (intr b))" "requeues (sched (intr b')) = requeues (sched (intr b))"
    "gIdleThread (sched (intr b')) = gIdleThread (sched (intr b))"
  using assms unfolding same_sched_def by (simp_all add: requeues_def ordinary_def Current_def)

lemma put_consoles_heap:
  "same_sched b (put_consoles ((consoles b)\<lparr>console_state.heap := h\<rparr>) b)" "worker_kept b (put_consoles ((consoles b)\<lparr>console_state.heap := h\<rparr>) b)"
proof -
  let ?b = "put_consoles ((consoles b)\<lparr>console_state.heap := h\<rparr>) b"
  have "sched (intr ?b) = (sched (intr b))\<lparr>sched_state.heap := h\<rparr>" by (simp add: put_consoles_def set_heap_def)
  then show "same_sched b ?b" by (simp add: same_sched_def)
  have "io_only b ?b" by (rule put_consoles_io_only) simp
  moreover have "flags (crit ?b) = flags (crit b)" by (simp add: put_consoles_def)
  ultimately show "worker_kept b ?b" by (simp add: worker_kept_def io_only_fields port_ready_def)
qed

lemma worker_new_console:
  assumes "worker_ready env g b" and "env_ok env"
  shows "pages b = {} \<Longrightarrow> GetBootstrapConsole (be_hw env) (be_sizes env) (consoles b) = Inl (Panic STATUS_ERROR 0)"
    and "q \<in> pages b \<Longrightarrow> \<exists>a c p. GetBootstrapConsole (be_hw env) (be_sizes env) (consoles b) = Inr ((a, bootstrap_device (be_hw env)), c) \<and>
      worker_ready env g (put_consoles c b) \<and> same_sched b (put_consoles c b) \<and> worker_kept b (put_consoles c b) \<and>
      serial_out (consoles (put_consoles c b)) = serial_out (consoles b) \<and> p \<in> pages b \<and> pages (put_consoles c b) = pages b - {p}"
proof -
  let ?h = "boot_heap b" and ?sz = "sizeof_RedundantOutput (be_sizes env)"
  have w: "console_wf (be_hw env) g (consoles b)" "heap_ok ?h" "\<exists>xs. sched_ok (sched (intr b)) xs"
    using assms(1) by (simp_all add: worker_ready_def)
  have sz: "unat ?sz + 8 \<le> 4096" using assms(2) by (simp add: env_ok_def sizes_ok_def)
  show "GetBootstrapConsole (be_hw env) (be_sizes env) (consoles b) = Inl (Panic STATUS_ERROR 0)" if "pages b = {}"
  proof -
    have "operator_new ?sz ?h = Inl (Panic STATUS_ERROR 0)"
      using operator_new_Inl [OF w(2) small_block(1) [OF sz]] small_block [OF sz] that by simp
    then show ?thesis by (simp add: GetBootstrapConsole_def)
  qed
  assume "q \<in> pages b"
  then have "run_free (hs_bitmap ?h) q (Suc 0)" by (simp add: run_free_def)
  from operator_new_page [OF w(2) sz this] obtain p bm where
    p: "operator_new ?sz ?h = Inr (page_addr p, ?h\<lparr>hs_bitmap := bm,
          hs_mem := store_info (hs_mem ?h) (entry_at (p - 1) 511) \<lparr>Magic = KMEM, AllocatedPages = 1\<rparr>\<rparr>)"
      "p \<in> pages b" "bitmap_ok bm" "free_pages bm = pages b - {p}" by blast
  define h where "h = ?h\<lparr>hs_bitmap := bm, hs_mem := store_info (hs_mem ?h) (entry_at (p - 1) 511) \<lparr>Magic = KMEM, AllocatedPages = 1\<rparr>\<rparr>"
  let ?c = "(consoles b)\<lparr>console_state.heap := h\<rparr>"
  have "GetSerialConsole (be_hw env) (consoles b) = Some (serial_device (be_hw env))" "GetKernelConsole (consoles b) = Some frame_device"
    using w(1) by (auto simp: console_wf_def GetSerialConsole_def GetKernelConsole_def)
  then have "GetBootstrapConsole (be_hw env) (be_sizes env) (consoles b) = Inr ((page_addr p, bootstrap_device (be_hw env)), ?c)"
    using p(1) by (simp add: GetBootstrapConsole_def h_def)
  moreover have "heap_ok h" "free_pages (hs_bitmap h) = pages b - {p}" using w(2) p(3,4) by (simp_all add: heap_ok_def h_def)
  moreover have "console_wf (be_hw env) g ?c" "serial_out ?c = serial_out (consoles b)"
    using w(1) by (simp_all add: console_wf_def serial_out_def console_out_def cong: option.case_cong)
  moreover note k = put_consoles_heap [of b h]
  ultimately show "\<exists>a c p. GetBootstrapConsole (be_hw env) (be_sizes env) (consoles b) = Inr ((a, bootstrap_device (be_hw env)), c) \<and>
      worker_ready env g (put_consoles c b) \<and> same_sched b (put_consoles c b) \<and> worker_kept b (put_consoles c b) \<and>
      serial_out (consoles (put_consoles c b)) = serial_out (consoles b) \<and> p \<in> pages b \<and> pages (put_consoles c b) = pages b - {p}"
    using w(3) p(2) by (intro exI [of _ "page_addr p"] exI [of _ ?c] exI [of _ p]) (simp add: worker_ready_def same_sched_facts(1) [OF k(1)])
qed

subsection \<open>A print of a worker\<close>

lemma worker_print:
  assumes "worker_ready env g b"
  obtains b' where "on_console (dev_PutString (bootstrap_device (be_hw env)) cs) b = Some (Inr b')" "worker_ready env g b'"
    "same_sched b b'" "worker_kept b b'" "hs_bitmap (boot_heap b') = hs_bitmap (boot_heap b)"
    "port_ready (consoles b) \<longrightarrow> serial_out (consoles b') = serial_out (consoles b) @ concat (map crlf cs)"
proof -
  have w: "console_wf (be_hw env) g (consoles b)" "heap_ok (boot_heap b)" "\<exists>xs. sched_ok (sched (intr b)) xs"
    using assms by (simp_all add: worker_ready_def)
  from on_console_calls(1) [OF w(1), of cs] obtain b' where
    b': "on_console (dev_PutString (bootstrap_device (be_hw env)) cs) b = Some (Inr b')"
      "printed (be_hw env) g (concat (map crlf cs)) b b'" by (auto simp: completes_def)
  have s: "same_sched b b'" using on_console_sched [OF b'(1)] by (simp add: same_sched_def)
  have h: "hs_bitmap (boot_heap b') = hs_bitmap (boot_heap b)" "gEarlyAlloc (boot_heap b') = gEarlyAlloc (boot_heap b)"
    using b'(2) by (simp_all add: printed_def console_kept_def)
  have "worker_ready env g b'" using w b'(2) h same_sched_facts(1) [OF s] by (simp add: worker_ready_def printed_def heap_ok_def)
  moreover have "worker_kept b b'" using b'(2) by (simp add: worker_kept_def printed_def console_kept_def)
  ultimately show thesis using that b' s h(1) by (simp add: printed_def)
qed

lemma set_sched_simps [simp]:
  "sched (intr (set_sched s b)) = s" "boot_heap (set_sched s b) = sched_state.heap s" "crit (set_sched s b) = crit b"
  "console_wf hw g (consoles (set_sched s b)) = console_wf hw g (consoles b)" "serial_out (consoles (set_sched s b)) = serial_out (consoles b)"
  by (simp_all add: set_sched_def console_wf_def serial_out_def console_out_def boot_heap_def cong: option.case_cong)

lemma set_sched_kept: "worker_kept b (set_sched s b)"
  by (simp add: worker_kept_def set_sched_def port_ready_def)

lemma worker_ready_set_sched:
  "worker_ready env g b \<Longrightarrow> sched_ok s xs \<Longrightarrow> heap_ok (sched_state.heap s) \<Longrightarrow> worker_ready env g (set_sched s b)"
  by (auto simp: worker_ready_def)

lemma WorkerA_print_run:
  assumes "worker_ready env g b" and "env_ok env" and "q \<in> pages b"
  obtains b' p where "WorkerA_print env b = Some (Inr b')" "worker_ready env g b'" "same_sched b b'" "worker_kept b b'"
    "p \<in> pages b" "pages b' = pages b - {p}"
    "port_ready (consoles b) \<longrightarrow> serial_out (consoles b') = serial_out (consoles b) @ concat (map crlf MessageA)"
proof -
  from worker_new_console(2) [OF assms] obtain a c p where
    c: "GetBootstrapConsole (be_hw env) (be_sizes env) (consoles b) = Inr ((a, bootstrap_device (be_hw env)), c)"
      "worker_ready env g (put_consoles c b)" "same_sched b (put_consoles c b)" "worker_kept b (put_consoles c b)"
      "serial_out (consoles (put_consoles c b)) = serial_out (consoles b)" "p \<in> pages b" "pages (put_consoles c b) = pages b - {p}" by blast
  from worker_print [OF c(2), of MessageA] obtain b' where
    b': "on_console (dev_PutString (bootstrap_device (be_hw env)) MessageA) (put_consoles c b) = Some (Inr b')" "worker_ready env g b'"
      "same_sched (put_consoles c b) b'" "worker_kept (put_consoles c b) b'" "hs_bitmap (boot_heap b') = hs_bitmap (boot_heap (put_consoles c b))"
      "port_ready (consoles (put_consoles c b)) \<longrightarrow>
         serial_out (consoles b') = serial_out (consoles (put_consoles c b)) @ concat (map crlf MessageA)" .
  have "port_ready (consoles (put_consoles c b)) = port_ready (consoles b)" using c(4) by (simp add: worker_kept_def)
  with b'(6) c(5) have "port_ready (consoles b) \<longrightarrow> serial_out (consoles b') = serial_out (consoles b) @ concat (map crlf MessageA)" by metis
  moreover have "WorkerA_print env b = Some (Inr b')" using c(1) b'(1) by (simp add: WorkerA_print_def)
  moreover have "pages b' = pages b - {p}" using b'(5) c(7) by (simp only:)
  ultimately show thesis
    using that b'(2) same_sched_trans [OF c(3) b'(3)] worker_kept_trans [OF c(4) b'(4)] c(6) by blast
qed

text \<open>
  A round of worker A prints its message and sleeps for at least a second: on a sound state with a page left,
  if the timer goes on while the thread is switched out, the round ends with the tick advanced by at least
  1000 (modulo the wrap-around of the counter), the message has been sent when a serial port is there, and
  one page at least is no longer free, for the console object that the round has created.
\<close>

lemma WorkerA_round_run:
  assumes "worker_ready env g b" and "env_ok env" and "q \<in> pages b"
    and "ticking (NowTick (sched (intr b)) + 1000) resume" and "frees_nothing resume"
  obtains b' p where "WorkerA_round env resume b = Some (Inr b')" "worker_ready env g b'"
    "NowTick (sched (intr b)) + 1000 \<le> NowTick (sched (intr b'))" "p \<in> pages b" "pages b' \<subseteq> pages b - {p}"
    "port_ready (consoles b) \<longrightarrow> serial_out (consoles b') = serial_out (consoles b) @ concat (map crlf MessageA)"
proof -
  obtain b1 p where b1: "WorkerA_print env b = Some (Inr b1)" "worker_ready env g b1" "same_sched b b1" "p \<in> pages b" "pages b1 = pages b - {p}"
      "port_ready (consoles b) \<longrightarrow> serial_out (consoles b1) = serial_out (consoles b) @ concat (map crlf MessageA)"
    by (rule WorkerA_print_run [OF assms(1-3)])
  note n = same_sched_facts(2) [OF b1(3)]
  obtain xs where xs: "sched_ok (sched (intr b1)) xs" "heap_ok (sched_state.heap (sched (intr b1)))"
    using b1(2) by (auto simp: worker_ready_def boot_heap_def)
  have "ticking (NowTick (sched (intr b1)) + 1000) resume" using assms(4) n by simp
  from SleepMs_run [OF xs(1) this assms(5) xs(2)] obtain s ys where
    s: "SleepMs (be_image env) resume 1000 (sched (intr b1)) = Some (Inr s)" "sched_ok s ys" "NowTick (sched (intr b1)) + 1000 \<le> NowTick s"
      "heap_ok (sched_state.heap s)" "free_pages (hs_bitmap (sched_state.heap s)) \<subseteq> free_pages (hs_bitmap (sched_state.heap (sched (intr b1))))"
    by blast
  have "WorkerA_round env resume b = Some (Inr (set_sched s b1))"
    by (simp add: WorkerA_round_split b1(1) boot_bind_def s(1))
  moreover have "pages (set_sched s b1) \<subseteq> pages b - {p}" using s(5) b1(5) by (simp add: boot_heap_def)
  ultimately show thesis
    using that worker_ready_set_sched [OF b1(2) s(2,4)] s(3) n b1(4,6) by simp
qed

subsection \<open>A running machine\<close>

text \<open>The state of a worker on the sample machine, and a timer that ticks once whenever the thread is switched out.\<close>

definition worker_state :: boot_state where
  "worker_state = put_consoles (sample_consoles example_heap) (cold_boot\<lparr>intr := (intr cold_boot)\<lparr>
     sched := example_sched [0x9000], gLAPICMMIO := 0xFEE00000, gHandlers := [VEC_TIMER \<mapsto> Fn_OnTimer], gEOI := None, gLogger := None\<rparr>\<rparr>)"

definition tick_once :: "nat \<Rightarrow> sched_state \<Rightarrow> sched_state" where
  "tick_once k s = s\<lparr>cpu := (cpu s)\<lparr>TickCount := (if NowTick s = - 1 then - 1 else NowTick s + 1)\<rparr>\<rparr>"

lemma tick_once_ticks: "ticking t tick_once" "frees_nothing tick_once"
proof -
  have "NowTick s < NowTick (tick_once k s)" if "NowTick s < t" for s k
  proof -
    have "unat (NowTick s) < unat t" using that by (simp add: word_less_nat_alt)
    moreover have "unat t < 18446744073709551616" by (rule unsigned_less [where w = t, simplified])
    ultimately have "unat (NowTick s) + unat (1 :: u64) < 18446744073709551616" unfolding unsigned_1 by linarith
    then have "unat (NowTick s + 1) = unat (NowTick s) + 1" by (subst unat_add_nowrap) simp_all
    moreover have "NowTick s \<noteq> - 1" using that word_order.extremum_strict [of t] by auto
    ultimately show ?thesis by (simp add: tick_once_def NowTick_def word_less_nat_alt)
  qed
  then show "ticking t tick_once" by (auto simp: ticking_def tick_once_def sched_ok_def Current_def)
  show "frees_nothing tick_once" by (simp add: frees_nothing_def tick_once_def)
qed

lemma worker_state_ready:
  "worker_ready cold_env (FrameBufferInfo cold_info) worker_state" "env_ok cold_env" "sched_ok (sched (intr worker_state)) [0x9000]"
  "pages worker_state = {1, 2, 3, 4}" "NowTick (sched (intr worker_state)) = 0"
  "port_ready (consoles worker_state)" "serial_out (consoles worker_state) = []"
proof -
  have c: "consoles worker_state = sample_consoles example_heap" "boot_heap worker_state = example_heap"
    "sched (intr worker_state) = (example_sched [0x9000])\<lparr>sched_state.heap := example_heap\<rparr>"
    by (simp_all add: worker_state_def sample_consoles_def) (simp add: put_consoles_def set_heap_def)
  show s: "sched_ok (sched (intr worker_state)) [0x9000]" using example_sched_ok(1) [of "[0x9000]"] by (simp add: c)
  have "console_wf sample_uart_hw (FrameBufferInfo cold_info) (sample_consoles example_heap)"
    using sample_console_wf(1) [of example_heap] by (simp add: sample_consoles_def cold_info_def)
  then show "worker_ready cold_env (FrameBufferInfo cold_info) worker_state"
    using s example_heap_ok by (auto simp: worker_ready_def c cold_env_def)
  show "env_ok cold_env" using example_image_ok by (simp add: env_ok_def cold_env_def sizes_ok_def sample_sizes_def)
  show "pages worker_state = {1, 2, 3, 4}" by (simp add: c example_heap_def example_free_pages)
  show "NowTick (sched (intr worker_state)) = 0" by (simp add: c) (simp add: example_sched_def NowTick_def Let_def split: prod.split)
  show "port_ready (consoles worker_state)" by (simp add: c sample_console_wf(2))
  show "serial_out (consoles worker_state) = []" by (simp add: c)
qed

subsection \<open>Theorems\<close>

lemma WorkerA_panics:
  assumes "worker_ready env g b" and "env_ok env" and "\<And>k t. ticking t (resume k)" and "\<And>k. frees_nothing (resume k)"
    and "card (pages b) < n"
  shows "WorkerA_rounds env resume n b = Some (Inl (Panic STATUS_ERROR 0))"
  using assms(1,5)
proof (induction n arbitrary: b)
  case (Suc n)
  show ?case
  proof (cases "pages b = {}")
    case True
    from worker_new_console(1) [OF Suc.prems(1) assms(2) this] have "WorkerA_round env (resume n) b = Some (Inl (Panic STATUS_ERROR 0))"
      by (simp add: WorkerA_round_def)
    then show ?thesis by (simp add: boot_bind_def)
  next
    case False
    then obtain q where "q \<in> pages b" by blast
    from WorkerA_round_run [OF Suc.prems(1) assms(2) this assms(3,4)] obtain b' p where
      b': "WorkerA_round env (resume n) b = Some (Inr b')" "worker_ready env g b'" "p \<in> pages b"
        "pages b' \<subseteq> pages b - {p}" by metis
    have "finite (pages b)"
      using Suc.prems(1) by (intro finite_subset [OF free_pages_range]) (simp_all add: worker_ready_def heap_ok_def)
    then have "card (pages b') < card (pages b)"
      using b'(3,4) by (intro psubset_card_mono) auto
    with Suc.IH [OF b'(2)] Suc.prems(2) b'(1) show ?thesis by (simp add: boot_bind_def)
  qed
qed simp

text \<open>
  Worker A ends the system: each of its rounds takes a page that is never given back, so with \<open>n\<close> pages free,
  however long the other threads run in between, it panics within \<open>n + 1\<close> rounds.
\<close>

lemma WorkerA_ends_in_panic:
  assumes "worker_ready env g b" and "env_ok env" and "\<forall>k t. ticking t (resume k)" and "\<forall>k. frees_nothing (resume k)"
    and "card (pages b) < n"
  shows "WorkerA_rounds env resume n b = Some (Inl (Panic STATUS_ERROR 0))"
  using assms(3,4) by (intro WorkerA_panics [OF assms(1,2) _ _ assms(5)]) blast+

lemma WorkerA_ends_in_panic_example:
  "WorkerA_rounds cold_env (\<lambda>_. tick_once) 5 worker_state = Some (Inl (Panic STATUS_ERROR 0))"
  by (rule WorkerA_ends_in_panic [OF worker_state_ready(1,2)]) (simp_all add: tick_once_ticks worker_state_ready(4))

text \<open>
  A round of worker B always ends and takes no page: it prints its greeting exactly when the tick has reached
  \<open>next\<close>, which it then moves on by 4000, and it hands the processor on as the round-robin specification says.
\<close>

lemma WorkerB_round_run:
  assumes "worker_ready env g b" and "sched_ok (sched (intr b)) xs"
  obtains b' ys b1 where "WorkerB_round env (bootstrap_device (be_hw env)) nxt b =
      Some (Inr (if nxt \<le> NowTick (sched (intr b)) then nxt + 4000 else nxt, b'))" "worker_ready env g b'" "worker_kept b b'"
    "spec_yield (gIdleThread (sched (intr b))) (requeues (sched (intr b))) (Current (sched (intr b)), xs) = (Current (sched (intr b')), ys)"
    "sched_ok (sched (intr b')) ys" "same_sched b b1" "Yield (be_image env) (sched (intr b1)) = Inr (sched (intr b'))"
    "hs_bitmap (boot_heap b') = hs_bitmap (boot_heap b)"
    "port_ready (consoles b) \<longrightarrow> serial_out (consoles b') =
       serial_out (consoles b) @ (if nxt \<le> NowTick (sched (intr b)) then concat (map crlf MessageB) else [])"
proof -
  let ?due = "nxt \<le> NowTick (sched (intr b))"
  obtain b1 where
    b1: "(if ?due then boot_bind (on_console (dev_PutString (bootstrap_device (be_hw env)) MessageB) b) (\<lambda>b. Some (Inr (nxt + 4000, b)))
          else Some (Inr (nxt, b))) = Some (Inr (if ?due then nxt + 4000 else nxt, b1))" "worker_ready env g b1"
      "same_sched b b1" "worker_kept b b1" "hs_bitmap (boot_heap b1) = hs_bitmap (boot_heap b)"
      "port_ready (consoles b) \<longrightarrow> serial_out (consoles b1) = serial_out (consoles b) @ (if ?due then concat (map crlf MessageB) else [])"
  proof (cases ?due)
    case True
    obtain b1 where "on_console (dev_PutString (bootstrap_device (be_hw env)) MessageB) b = Some (Inr b1)" "worker_ready env g b1"
        "same_sched b b1" "worker_kept b b1" "hs_bitmap (boot_heap b1) = hs_bitmap (boot_heap b)"
        "port_ready (consoles b) \<longrightarrow> serial_out (consoles b1) = serial_out (consoles b) @ concat (map crlf MessageB)"
      by (rule worker_print [OF assms(1)])
    with True that show thesis by (simp add: boot_bind_def)
  next
    case False
    with that [of b] assms(1) show thesis by (simp add: same_sched_def boot_heap_def worker_kept_def)
  qed
  note f = same_sched_facts [OF b1(3)]
  have "sched_ok (sched (intr b1)) xs" by (simp add: f(1) assms(2))
  from Yield_refines [OF this, of "be_image env"] obtain s ys where
    y: "Yield (be_image env) (sched (intr b1)) = Inr s"
      "spec_yield (gIdleThread (sched (intr b1))) (requeues (sched (intr b1))) (Current (sched (intr b1)), xs) = (Current s, ys)" "sched_ok s ys"
      "hs_bitmap (sched_state.heap s) = hs_bitmap (boot_heap b1)" "gEarlyAlloc (sched_state.heap s) = gEarlyAlloc (boot_heap b1)"
    unfolding boot_heap_def by metis
  have h: "heap_ok (sched_state.heap s)" using b1(2) y(4,5) by (simp add: worker_ready_def heap_ok_def)
  have "WorkerB_round env (bootstrap_device (be_hw env)) nxt b = Some (Inr (if ?due then nxt + 4000 else nxt, set_sched s b1))"
    using b1(1) y(1) unfolding WorkerB_round_def MessageB_def [symmetric] NowTick_def [symmetric] set_sched_def
    by (simp only:) (simp add: boot_bind_def)
  then show thesis
    by (rule that) (use worker_ready_set_sched [OF b1(2) y(3) h] worker_kept_trans [OF b1(4) set_sched_kept] y b1(3,5,6) in \<open>simp_all add: f\<close>)
qed

lemma WorkerB_round_run_example:
  "\<exists>b'. WorkerB_round cold_env (bootstrap_device sample_uart_hw) 0 worker_state = Some (Inr (4000, b')) \<and>
     serial_out (consoles b') = concat (map crlf MessageB) \<and> pages b' = {1, 2, 3, 4}"
proof -
  have hw: "be_hw cold_env = sample_uart_hw" by (simp add: cold_env_def)
  obtain b' where "WorkerB_round cold_env (bootstrap_device (be_hw cold_env)) 0 worker_state =
      Some (Inr (if 0 \<le> NowTick (sched (intr worker_state)) then 0 + 4000 else 0, b'))" "hs_bitmap (boot_heap b') = hs_bitmap (boot_heap worker_state)"
    "port_ready (consoles worker_state) \<longrightarrow> serial_out (consoles b') =
       serial_out (consoles worker_state) @ (if 0 \<le> NowTick (sched (intr worker_state)) then concat (map crlf MessageB) else [])"
    by (rule WorkerB_round_run [OF worker_state_ready(1,3), of 0])
  with worker_state_ready(4-7) hw show ?thesis by auto
qed

end
