(* ===== verification/RunningSystem.thy ===== *)
theory RunningSystem
  imports Workers
begin

text \<open>
  The running system after boot: both worker threads of \<open>Kernel/Core/KernelMain.cpp\<close> and the timer interrupt, interleaved. The
  kernel is cooperative, so a thread runs until its next call of \<open>Yield\<close>; its position in its own loop is kept in the
  fields \<open>wakeA\<close> and \<open>workB\<close> below, everything else is the state of the kernel. A step is one turn of the loop of
  the current thread or one timer interrupt, taken when interrupts are enabled.
\<close>

subsection \<open>State and steps\<close>

text \<open>
  \<open>wakeA\<close> is the local \<open>target\<close> of \<open>SleepUntilTick\<close> while worker A sleeps, \<open>workB\<close> the locals \<open>con\<close> and \<open>next\<close> of worker B once it has
  started. \<open>roundsA\<close> and \<open>ticks\<close> count messages and interrupts for the theorems; no step reads them.
\<close>

record system =
  machine :: boot_state
  wakeA :: "u64 option"
  workB :: "(console_state IOutputDevice \<times> u64) option"
  roundsA :: nat
  ticks :: nat

abbreviation kernel :: "system \<Rightarrow> sched_state" where
  "kernel \<sigma> \<equiv> sched (intr (machine \<sigma>))"

definition WorkerA_turn :: "boot_env \<Rightarrow> system \<Rightarrow> system boot_result" where
  "WorkerA_turn env \<sigma> =
     (case wakeA \<sigma> of
        None \<Rightarrow> boot_bind (WorkerA_print env (machine \<sigma>)) (\<lambda>b.
          Some (Inr (\<sigma>\<lparr>machine := b, wakeA := Some (NowTick (sched (intr b)) + 1000), roundsA := Suc (roundsA \<sigma>)\<rparr>)))
      | Some t \<Rightarrow>
          if NowTick (kernel \<sigma>) < t
          then (case Yield (be_image env) (kernel \<sigma>) of
                  Inl e \<Rightarrow> Some (Inl e)
                | Inr s \<Rightarrow> Some (Inr (\<sigma>\<lparr>machine := set_sched s (machine \<sigma>)\<rparr>)))
          else Some (Inr (\<sigma>\<lparr>wakeA := None\<rparr>)))"

definition WorkerB_turn :: "boot_env \<Rightarrow> system \<Rightarrow> system boot_result" where
  "WorkerB_turn env \<sigma> =
     (case workB \<sigma> of
        None \<Rightarrow>
          (case WorkerB_start env (machine \<sigma>) of
             Inl e \<Rightarrow> Some (Inl e)
           | Inr (con, nxt, b) \<Rightarrow> Some (Inr (\<sigma>\<lparr>machine := b, workB := Some (con, nxt)\<rparr>)))
      | Some (con, nxt) \<Rightarrow>
          boot_bind (WorkerB_round env con nxt (machine \<sigma>)) (\<lambda>(nxt', b).
            Some (Inr (\<sigma>\<lparr>machine := b, workB := Some (con, nxt')\<rparr>))))"

text \<open>\<open>IdleMain\<close> calls \<open>IdleLoop\<close>: each turn of its loop is one \<open>hlt\<close>, which waits for an interrupt and changes nothing.\<close>

definition IdleMain_turn :: "system \<Rightarrow> system boot_result" where
  "IdleMain_turn \<sigma> = Some (Inr \<sigma>)"

text \<open>A turn of the current thread.\<close>

definition turn :: "boot_env \<Rightarrow> u64 \<Rightarrow> u64 \<Rightarrow> system \<Rightarrow> system boot_result" where
  "turn env tA tB \<sigma> =
     (if Current (kernel \<sigma>) = tA then WorkerA_turn env \<sigma>
      else if Current (kernel \<sigma>) = tB then WorkerB_turn env \<sigma>
      else IdleMain_turn \<sigma>)"

definition timer :: "intr_env \<Rightarrow> InterruptFrame \<Rightarrow> system \<Rightarrow> system option" where
  "timer ie f \<sigma> =
     (case Handler ie VEC_TIMER f 0 (intr (machine \<sigma>)) of
        Returned s \<Rightarrow> Some (\<sigma>\<lparr>machine := (machine \<sigma>)\<lparr>intr := s\<rparr>, ticks := Suc (ticks \<sigma>)\<rparr>)
      | _ \<Rightarrow> None)"

inductive sys_step :: "boot_env \<Rightarrow> intr_env \<Rightarrow> u64 \<Rightarrow> u64 \<Rightarrow> system \<Rightarrow> system \<Rightarrow> bool" for env ie tA tB where
  thread: "turn env tA tB \<sigma> = Some (Inr \<sigma>') \<Longrightarrow> sys_step env ie tA tB \<sigma> \<sigma>'"
| interrupt: "bit (flags (crit (machine \<sigma>))) IF_BIT \<Longrightarrow> timer ie f \<sigma> = Some \<sigma>' \<Longrightarrow> sys_step env ie tA tB \<sigma> \<sigma>'"

inductive_cases sys_stepE: "sys_step env ie tA tB \<sigma> \<sigma>'"

text \<open>The state in which boot leaves the system: worker A is about to enter its function for the first time.\<close>

definition sys_boot :: "boot_state \<Rightarrow> system" where
  "sys_boot b = \<lparr>machine = b, wakeA = None, workB = None, roundsA = 0, ticks = unat (NowTick (sched (intr b)))\<rparr>"

primrec turns :: "boot_env \<Rightarrow> u64 \<Rightarrow> u64 \<Rightarrow> nat \<Rightarrow> system \<Rightarrow> system boot_result" where
  "turns env tA tB 0 \<sigma> = Some (Inr \<sigma>)"
| "turns env tA tB (Suc k) \<sigma> = boot_bind (turn env tA tB \<sigma>) (turns env tA tB k)"

subsection \<open>The timer interrupt in the system\<close>

lemma sent_ports: "port_writes tr = [] \<Longrightarrow> sent p tr = []"
  by (induction tr) (auto simp: port_writes_def sent_def split: io_event.splits)

lemma timer_effect:
  assumes "timer_wired base s" and "base \<noteq> 0"
  obtains s' tr where "Handler ie VEC_TIMER f ec s = Returned s'" "timer_wired base s'"
    "sched s' = (sched s)\<lparr>cpu := (cpu (sched s))\<lparr>TickCount := TickCount (cpu (sched s)) + 1\<rparr>, gNeedReschedule := True\<rparr>"
    "trace s' = trace s @ tr" "port_writes tr = []"
proof -
  define s1 where "s1 = s\<lparr>gVectorCounts := (gVectorCounts s)(VEC_TIMER := gVectorCounts s VEC_TIMER + 1)\<rparr>"
  have w: "timer_wired base s1" "gLAPICMMIO s1 = base" using assms(1) by (simp_all add: s1_def timer_wired_def)
  define sc where "sc = (sched s)\<lparr>cpu := (cpu (sched s))\<lparr>TickCount := TickCount (cpu (sched s)) + 1\<rparr>, gNeedReschedule := True\<rparr>"
  obtain v where t: "OnTimer ie s1 =
      Returned (s1\<lparr>sched := sc, trace := trace s @ [EvMmioWrite (base + 0xB0) 0, EvMmioRead (base + 0x20) v]\<rparr>)"
    using w assms(2) by (simp add: OnTimer_def Let_def exec_EndOfInterrupt OnTimerTick_def s1_def sc_def)
  define s2 where "s2 = s1\<lparr>sched := sc, trace := trace s @ [EvMmioWrite (base + 0xB0) 0, EvMmioRead (base + 0x20) v]\<rparr>"
  have w2: "timer_wired base s2" using w by (simp add: s2_def timer_wired_def)
  then obtain x y z where d: "dispatch_eoi (env_hw ie) VEC_TIMER s2 = s2\<lparr>trace := trace s2 @ [EvRdMsr 0x1B x, EvMmioWrite y z]\<rparr>"
    by (simp add: dispatch_eoi_def NeedsEOI_iff VEC_TIMER_def VEC_PIT_IRQ_def IsSlaveVector_def IsMasterVector_def EmitEOI_def timer_wired_def
        exec_DefaultEOI)
  have "Handler ie VEC_TIMER f ec s = Returned (s2\<lparr>trace := trace s2 @ [EvRdMsr 0x1B x, EvMmioWrite y z]\<rparr>)"
    using assms(1) t d
    by (simp add: Handler_def DEF_ERR_vectors_eq DispatchNoError_def Dispatch_no_logger [OF _ refl] VEC_TIMER_def timer_wired_def
        s1_def [symmetric, unfolded VEC_TIMER_def] s2_def)
  then show thesis
    by (rule that [where tr = "[EvMmioWrite (base + 0xB0) 0, EvMmioRead (base + 0x20) v, EvRdMsr 0x1B x, EvMmioWrite y z]"])
      (use w2 in \<open>simp_all add: timer_wired_def\<close>, simp_all add: s2_def s1_def sc_def port_writes_def)
qed

subsection \<open>The invariant\<close>

text \<open>One worker runs and the other one is alone in the ready queue; neither is the idle or the bootstrap thread.\<close>

definition pair_ok :: "u64 \<Rightarrow> u64 \<Rightarrow> sched_state \<Rightarrow> bool" where
  "pair_ok tA tB s \<longleftrightarrow> requeues s \<and> (Current s = tA \<and> sched_ok s [tB] \<or> Current s = tB \<and> sched_ok s [tA])"

lemma pair_ok_same: "same_sched b b' \<Longrightarrow> pair_ok tA tB (sched (intr b')) \<longleftrightarrow> pair_ok tA tB (sched (intr b))"
  by (simp add: pair_ok_def same_sched_facts)

lemma Yield_pair:
  assumes "pair_ok tA tB s"
  obtains s' where "Yield img s = Inr s'" "pair_ok tA tB s'" "Current s' = (if Current s = tA then tB else tA)" "NowTick s' = NowTick s"
    "hs_bitmap (sched_state.heap s') = hs_bitmap (sched_state.heap s)" "gEarlyAlloc (sched_state.heap s') = gEarlyAlloc (sched_state.heap s)"
proof -
  from assms obtain u where u: "requeues s" "sched_ok s [u]" "Current s = tA \<and> u = tB \<or> Current s = tB \<and> u = tA" by (auto simp: pair_ok_def)
  have d: "u \<noteq> Current s" "ordinary s u" using u(2) by (auto simp: sched_ok_def ordinary_def)
  show thesis
  proof (rule Yield_refines [OF u(2), of img])
    fix s' ys
    assume y: "Yield img s = Inr s'" "spec_yield (gIdleThread s) (requeues s) (Current s, [u]) = (Current s', ys)" "sched_ok s' ys" "same_globals s s'"
      and st: "\<And>x. State (threads s' x) = (if x = Current s' \<and> Current s' \<noteq> Current s then Running
         else if x = Current s \<and> requeues s then Ready else State (threads s x))"
      and k: "TickCount (cpu s') = TickCount (cpu s)" "hs_bitmap (sched_state.heap s') = hs_bitmap (sched_state.heap s)"
        "gEarlyAlloc (sched_state.heap s') = gEarlyAlloc (sched_state.heap s)"
    have e: "Current s' = u" "ys = [Current s]" using y(2) u(1) by (simp_all add: spec_yield_def)
    have "State (threads s' u) = Running" using st [of u] e(1) d(1) by simp
    moreover have "ordinary s' u" using y(4) d(2) by (simp add: ordinary_def same_globals_def)
    ultimately have "requeues s'" unfolding requeues_def e(1) by blast
    moreover have "sched_ok s' [Current s]" using y(3) e(2) by simp
    ultimately have "pair_ok tA tB s'" using u(3) unfolding pair_ok_def e(1) by metis
    moreover have "Current s' = (if Current s = tA then tB else tA)" using u(3) d(1) e(1) by auto
    moreover have "NowTick s' = NowTick s" using k(1) by (simp add: NowTick_def)
    ultimately show thesis using that y(1) k(2,3) by blast
  qed
qed

text \<open>The parts of the invariant: the machine, the clock with the rate of the messages, the pages, and the output.\<close>

definition machine_ok :: "boot_env \<Rightarrow> GraphicInfo \<Rightarrow> u64 \<Rightarrow> u64 \<Rightarrow> u64 \<Rightarrow> boot_state \<Rightarrow> bool" where
  "machine_ok env g base tA tB b \<longleftrightarrow> worker_ready env g b \<and> timer_wired base (intr b) \<and> pair_ok tA tB (sched (intr b)) \<and> bit (flags (crit b)) IF_BIT"

definition clock_ok :: "nat \<Rightarrow> system \<Rightarrow> bool" where
  "clock_ok T \<sigma> \<longleftrightarrow> NowTick (kernel \<sigma>) = of_nat (ticks \<sigma>) \<and> T \<le> ticks \<sigma> \<and>
     (ticks \<sigma> + 1000 < 2 ^ 64 \<longrightarrow>
       (case wakeA \<sigma> of None \<Rightarrow> T + 1000 * roundsA \<sigma> \<le> ticks \<sigma>
        | Some t \<Rightarrow> T + 1000 * roundsA \<sigma> \<le> unat t \<and> unat t \<le> ticks \<sigma> + 1000))"

definition pages_ok :: "nat \<Rightarrow> system \<Rightarrow> bool" where
  "pages_ok n \<sigma> \<longleftrightarrow> card (pages (machine \<sigma>)) + roundsA \<sigma> + (if workB \<sigma> = None then 0 else 1) = n"

definition output_ok :: "u8 list option \<Rightarrow> system \<Rightarrow> bool" where
  "output_ok pre \<sigma> \<longleftrightarrow> (case pre of None \<Rightarrow> \<not> port_ready (consoles (machine \<sigma>))
     | Some out \<Rightarrow> port_ready (consoles (machine \<sigma>)) \<and>
         (\<exists>ms. set ms \<subseteq> {MessageA, MessageB} \<and> count_list ms MessageA = roundsA \<sigma> \<and>
            serial_out (consoles (machine \<sigma>)) = out @ concat (map (concat \<circ> map crlf) ms)))"

definition sent_before :: "boot_state \<Rightarrow> u8 list option" where
  "sent_before b = (if port_ready (consoles b) then Some (serial_out (consoles b)) else None)"

definition sys_inv :: "boot_env \<Rightarrow> GraphicInfo \<Rightarrow> u64 \<Rightarrow> u64 \<Rightarrow> u64 \<Rightarrow> nat \<Rightarrow> nat \<Rightarrow> u8 list option \<Rightarrow> system \<Rightarrow> bool" where
  "sys_inv env g base tA tB T n pre \<sigma> \<longleftrightarrow> machine_ok env g base tA tB (machine \<sigma>) \<and>
     (\<forall>con nxt. workB \<sigma> = Some (con, nxt) \<longrightarrow> con = bootstrap_device (be_hw env)) \<and> clock_ok T \<sigma> \<and> pages_ok n \<sigma> \<and> output_ok pre \<sigma>"

lemma machine_ok_step:
  assumes "machine_ok env g base tA tB b" and "worker_ready env g b'" and "worker_kept b b'" and "pair_ok tA tB (sched (intr b'))"
  shows "machine_ok env g base tA tB b'"
  using assms timer_wired_cong [of "intr b'" "intr b" base] by (simp add: machine_ok_def worker_kept_def)

lemma pages_finite: "worker_ready env g b \<Longrightarrow> finite (pages b)"
  by (intro finite_subset [OF free_pages_range]) (simp_all add: worker_ready_def heap_ok_def)

lemma output_step:
  assumes "output_ok pre \<sigma>" and "worker_kept (machine \<sigma>) b'" and "m \<in> {MessageA, MessageB}"
    and "port_ready (consoles (machine \<sigma>)) \<longrightarrow> serial_out (consoles b') = serial_out (consoles (machine \<sigma>)) @ concat (map crlf m)"
    and "machine \<sigma>' = b'" and "roundsA \<sigma>' = (if m = MessageA then Suc (roundsA \<sigma>) else roundsA \<sigma>)"
  shows "output_ok pre \<sigma>'"
proof (cases pre)
  case None
  with assms(1,2,5) show ?thesis by (simp add: output_ok_def worker_kept_def)
next
  case (Some out)
  with assms(1) obtain ms where "port_ready (consoles (machine \<sigma>))" "set ms \<subseteq> {MessageA, MessageB}" "count_list ms MessageA = roundsA \<sigma>"
    "serial_out (consoles (machine \<sigma>)) = out @ concat (map (concat \<circ> map crlf) ms)" by (auto simp: output_ok_def)
  with assms(2-6) Some show ?thesis by (auto simp: output_ok_def worker_kept_def intro!: exI [of _ "ms @ [m]"])
qed

lemma output_same:
  assumes "output_ok pre \<sigma>" and "worker_kept (machine \<sigma>) (machine \<sigma>')" and "roundsA \<sigma>' = roundsA \<sigma>"
    and "serial_out (consoles (machine \<sigma>')) = serial_out (consoles (machine \<sigma>))"
  shows "output_ok pre \<sigma>'"
  using assms by (simp add: output_ok_def worker_kept_def cong: option.case_cong)

subsection \<open>Turns keep the invariant\<close>

lemma clock_print:
  assumes "clock_ok T \<sigma>" and "wakeA \<sigma> = None" and "NowTick (kernel \<sigma>') = NowTick (kernel \<sigma>)" and "ticks \<sigma>' = ticks \<sigma>"
    and "wakeA \<sigma>' = Some (NowTick (kernel \<sigma>) + 1000)" and "roundsA \<sigma>' = Suc (roundsA \<sigma>)"
  shows "clock_ok T \<sigma>'"
proof -
  have "unat (of_nat (ticks \<sigma>) + 1000 :: u64) = ticks \<sigma> + 1000" if "ticks \<sigma> + 1000 < 2 ^ 64"
    using that by (subst unat_add_nowrap) (simp_all add: unat_of_nat_nowrap)
  with assms show ?thesis by (auto simp: clock_ok_def)
qed

lemma clock_wake:
  assumes "clock_ok T \<sigma>" and "wakeA \<sigma> = Some t" and "t \<le> NowTick (kernel \<sigma>)" and "\<sigma>' = \<sigma>\<lparr>wakeA := None\<rparr>"
  shows "clock_ok T \<sigma>'"
proof -
  have "unat t \<le> ticks \<sigma>" if "ticks \<sigma> + 1000 < 2 ^ 64"
    using assms(1,3) that by (simp add: clock_ok_def word_le_nat_alt unat_of_nat_nowrap)
  with assms show ?thesis by (fastforce simp: clock_ok_def)
qed

lemma clock_same:
  "clock_ok T \<sigma> \<Longrightarrow> NowTick (kernel \<sigma>') = NowTick (kernel \<sigma>) \<Longrightarrow> ticks \<sigma>' = ticks \<sigma> \<Longrightarrow> wakeA \<sigma>' = wakeA \<sigma> \<Longrightarrow>
   roundsA \<sigma>' = roundsA \<sigma> \<Longrightarrow> clock_ok T \<sigma>'"
  by (simp add: clock_ok_def cong: option.case_cong)

lemma card_taken: "finite A \<Longrightarrow> x \<in> A \<Longrightarrow> B = A - {x} \<Longrightarrow> card B + 1 = card A"
  using card_Suc_Diff1 [of A x] by simp

lemma turnA_print:
  assumes inv: "sys_inv env g base tA tB T n pre \<sigma>" and env: "env_ok env" and at: "Current (kernel \<sigma>) = tA" "wakeA \<sigma> = None"
    and "q \<in> pages (machine \<sigma>)"
  obtains \<sigma>' where "turn env tA tB \<sigma> = Some (Inr \<sigma>')" "sys_inv env g base tA tB T n pre \<sigma>'" "roundsA \<sigma>' = Suc (roundsA \<sigma>)"
    "wakeA \<sigma>' = Some (NowTick (kernel \<sigma>) + 1000)" "workB \<sigma>' = workB \<sigma>" "ticks \<sigma>' = ticks \<sigma>"
proof -
  have m: "machine_ok env g base tA tB (machine \<sigma>)" "worker_ready env g (machine \<sigma>)" using inv by (simp_all add: sys_inv_def machine_ok_def)
  obtain b' p where b': "WorkerA_print env (machine \<sigma>) = Some (Inr b')" "worker_ready env g b'" "same_sched (machine \<sigma>) b'" "worker_kept (machine \<sigma>) b'"
      "p \<in> pages (machine \<sigma>)" "pages b' = pages (machine \<sigma>) - {p}"
      "port_ready (consoles (machine \<sigma>)) \<longrightarrow> serial_out (consoles b') = serial_out (consoles (machine \<sigma>)) @ concat (map crlf MessageA)"
    by (rule WorkerA_print_run [OF m(2) env assms(5)])
  note f = same_sched_facts [OF b'(3)]
  define \<sigma>' where "\<sigma>' = \<sigma>\<lparr>machine := b', wakeA := Some (NowTick (kernel \<sigma>) + 1000), roundsA := Suc (roundsA \<sigma>)\<rparr>"
  have "turn env tA tB \<sigma> = Some (Inr \<sigma>')" using at b'(1) f(2) by (simp add: turn_def WorkerA_turn_def boot_bind_def \<sigma>'_def)
  moreover have "machine_ok env g base tA tB b'"
    using machine_ok_step [OF m(1) b'(2,4)] m(1) pair_ok_same [OF b'(3)] by (simp add: machine_ok_def)
  moreover have "clock_ok T \<sigma>'" by (rule clock_print [of T \<sigma>]) (use inv at(2) f(2) in \<open>simp_all add: sys_inv_def \<sigma>'_def\<close>)
  moreover have "card (pages b') + 1 = card (pages (machine \<sigma>))"
    by (rule card_taken [OF pages_finite [OF m(2)] b'(5,6)])
  then have "pages_ok n \<sigma>'" using inv by (simp add: sys_inv_def pages_ok_def \<sigma>'_def)
  moreover have "output_ok pre \<sigma>'"
    by (rule output_step [of pre \<sigma> b' MessageA]) (use inv b'(4,7) in \<open>simp_all add: sys_inv_def \<sigma>'_def\<close>)
  ultimately show thesis using that inv by (simp add: sys_inv_def \<sigma>'_def)
qed

lemma turnA_sleep:
  assumes inv: "sys_inv env g base tA tB T n pre \<sigma>" and at: "Current (kernel \<sigma>) = tA" "wakeA \<sigma> = Some t" "NowTick (kernel \<sigma>) < t"
  obtains \<sigma>' where "turn env tA tB \<sigma> = Some (Inr \<sigma>')" "sys_inv env g base tA tB T n pre \<sigma>'" "Current (kernel \<sigma>') = tB"
proof -
  have m: "machine_ok env g base tA tB (machine \<sigma>)" "worker_ready env g (machine \<sigma>)" "pair_ok tA tB (kernel \<sigma>)"
    using inv by (simp_all add: sys_inv_def machine_ok_def)
  obtain s where s: "Yield (be_image env) (kernel \<sigma>) = Inr s" "pair_ok tA tB s" "Current s = (if Current (kernel \<sigma>) = tA then tB else tA)"
      "NowTick s = NowTick (kernel \<sigma>)" "hs_bitmap (sched_state.heap s) = hs_bitmap (sched_state.heap (kernel \<sigma>))"
      "gEarlyAlloc (sched_state.heap s) = gEarlyAlloc (sched_state.heap (kernel \<sigma>))" by (rule Yield_pair [OF m(3)])
  define \<sigma>' where "\<sigma>' = \<sigma>\<lparr>machine := set_sched s (machine \<sigma>)\<rparr>"
  have "turn env tA tB \<sigma> = Some (Inr \<sigma>')" using at s(1) by (simp add: turn_def WorkerA_turn_def \<sigma>'_def)
  moreover have "heap_ok (sched_state.heap s)" using m(2) s(5,6) by (simp add: worker_ready_def heap_ok_def boot_heap_def)
  then have "worker_ready env g (set_sched s (machine \<sigma>))" using worker_ready_set_sched [OF m(2)] s(2) by (auto simp: pair_ok_def)
  then have "machine_ok env g base tA tB (set_sched s (machine \<sigma>))" by (rule machine_ok_step [OF m(1) _ set_sched_kept]) (simp add: s(2))
  moreover have "clock_ok T \<sigma>'" by (rule clock_same [of T \<sigma>]) (use inv s(4) in \<open>simp_all add: sys_inv_def \<sigma>'_def\<close>)
  moreover have "pages_ok n \<sigma>'" using inv s(5) by (simp add: sys_inv_def pages_ok_def \<sigma>'_def boot_heap_def)
  moreover have "output_ok pre \<sigma>'" by (rule output_same [of pre \<sigma>]) (use inv in \<open>simp_all add: sys_inv_def \<sigma>'_def set_sched_kept\<close>)
  ultimately show thesis using that inv s(3) at(1) by (simp add: sys_inv_def \<sigma>'_def)
qed

lemma turnA_wake:
  assumes "sys_inv env g base tA tB T n pre \<sigma>" and "Current (kernel \<sigma>) = tA" and "wakeA \<sigma> = Some t" and "t \<le> NowTick (kernel \<sigma>)"
  shows "turn env tA tB \<sigma> = Some (Inr (\<sigma>\<lparr>wakeA := None\<rparr>))" and "sys_inv env g base tA tB T n pre (\<sigma>\<lparr>wakeA := None\<rparr>)"
proof -
  show "turn env tA tB \<sigma> = Some (Inr (\<sigma>\<lparr>wakeA := None\<rparr>))" using assms(2,3) leD [OF assms(4)] by (simp add: turn_def WorkerA_turn_def)
  have "clock_ok T (\<sigma>\<lparr>wakeA := None\<rparr>)" by (rule clock_wake [OF _ assms(3,4) refl]) (use assms(1) in \<open>simp add: sys_inv_def\<close>)
  then show "sys_inv env g base tA tB T n pre (\<sigma>\<lparr>wakeA := None\<rparr>)" using assms(1) by (simp add: sys_inv_def pages_ok_def output_ok_def cong: option.case_cong)
qed

lemma turnB_start:
  assumes inv: "sys_inv env g base tA tB T n pre \<sigma>" and env: "env_ok env" and at: "Current (kernel \<sigma>) = tB" "tB \<noteq> tA" "workB \<sigma> = None"
    and "q \<in> pages (machine \<sigma>)"
  obtains \<sigma>' where "turn env tA tB \<sigma> = Some (Inr \<sigma>')" "sys_inv env g base tA tB T n pre \<sigma>'" "Current (kernel \<sigma>') = tB"
    "NowTick (kernel \<sigma>') = NowTick (kernel \<sigma>)" "wakeA \<sigma>' = wakeA \<sigma>" "roundsA \<sigma>' = roundsA \<sigma>" "workB \<sigma>' \<noteq> None"
    "card (pages (machine \<sigma>')) + 1 = card (pages (machine \<sigma>))"
proof -
  have m: "machine_ok env g base tA tB (machine \<sigma>)" "worker_ready env g (machine \<sigma>)" using inv by (simp_all add: sys_inv_def machine_ok_def)
  from worker_new_console(2) [OF m(2) env assms(6)] obtain a c p where
    c: "GetBootstrapConsole (be_hw env) (be_sizes env) (consoles (machine \<sigma>)) = Inr ((a, bootstrap_device (be_hw env)), c)"
      "worker_ready env g (put_consoles c (machine \<sigma>))" "same_sched (machine \<sigma>) (put_consoles c (machine \<sigma>))"
      "worker_kept (machine \<sigma>) (put_consoles c (machine \<sigma>))" "serial_out (consoles (put_consoles c (machine \<sigma>))) = serial_out (consoles (machine \<sigma>))"
      "p \<in> pages (machine \<sigma>)" "pages (put_consoles c (machine \<sigma>)) = pages (machine \<sigma>) - {p}" by blast
  note f = same_sched_facts [OF c(3)]
  define \<sigma>' where "\<sigma>' = \<sigma>\<lparr>machine := put_consoles c (machine \<sigma>), workB := Some (bootstrap_device (be_hw env), TickCount (cpu (kernel \<sigma>)) + 4000)\<rparr>"
  have r: "turn env tA tB \<sigma> = Some (Inr \<sigma>')" using at c(1) by (simp add: turn_def WorkerB_turn_def WorkerB_start_def \<sigma>'_def)
  have "machine_ok env g base tA tB (put_consoles c (machine \<sigma>))"
    using machine_ok_step [OF m(1) c(2,4)] m(1) pair_ok_same [OF c(3)] by (simp add: machine_ok_def)
  moreover have "clock_ok T \<sigma>'" by (rule clock_same [of T \<sigma>]) (use inv f(2) in \<open>simp_all add: sys_inv_def \<sigma>'_def\<close>)
  moreover have k: "card (pages (put_consoles c (machine \<sigma>))) + 1 = card (pages (machine \<sigma>))"
    by (rule card_taken [OF pages_finite [OF m(2)] c(6,7)])
  then have "pages_ok n \<sigma>'" using inv at(3) by (simp add: sys_inv_def pages_ok_def \<sigma>'_def del: boot_heap_put_consoles)
  moreover have "output_ok pre \<sigma>'" by (rule output_same [of pre \<sigma>]) (use inv c(4,5) in \<open>simp_all add: sys_inv_def \<sigma>'_def\<close>)
  ultimately have "sys_inv env g base tA tB T n pre \<sigma>'" by (simp add: sys_inv_def \<sigma>'_def)
  then show thesis using that r f(2,3) at(1) k by (simp add: \<sigma>'_def)
qed

lemma turnB_round:
  assumes inv: "sys_inv env g base tA tB T n pre \<sigma>" and at: "Current (kernel \<sigma>) = tB" "tB \<noteq> tA" "workB \<sigma> = Some (con, nxt)"
  obtains \<sigma>' where "turn env tA tB \<sigma> = Some (Inr \<sigma>')" "sys_inv env g base tA tB T n pre \<sigma>'" "Current (kernel \<sigma>') = tA"
    "NowTick (kernel \<sigma>') = NowTick (kernel \<sigma>)" "wakeA \<sigma>' = wakeA \<sigma>" "roundsA \<sigma>' = roundsA \<sigma>" "pages (machine \<sigma>') = pages (machine \<sigma>)"
proof -
  let ?b = "machine \<sigma>" and ?due = "nxt \<le> NowTick (kernel \<sigma>)"
  have m: "machine_ok env g base tA tB ?b" "worker_ready env g ?b" "pair_ok tA tB (kernel \<sigma>)" and con: "con = bootstrap_device (be_hw env)"
    using inv at(3) by (simp_all add: sys_inv_def machine_ok_def)
  have "sched_ok (kernel \<sigma>) [tA]" using m(3) at(1,2) by (simp add: pair_ok_def)
  from WorkerB_round_run [OF m(2) this, of nxt] obtain b' b1 where
    b': "WorkerB_round env (bootstrap_device (be_hw env)) nxt ?b = Some (Inr (if ?due then nxt + 4000 else nxt, b'))" "worker_ready env g b'"
      "worker_kept ?b b'" "same_sched ?b b1" "Yield (be_image env) (sched (intr b1)) = Inr (sched (intr b'))"
      "hs_bitmap (boot_heap b') = hs_bitmap (boot_heap ?b)"
      "port_ready (consoles ?b) \<longrightarrow> serial_out (consoles b') = serial_out (consoles ?b) @ (if ?due then concat (map crlf MessageB) else [])" by metis
  note f = same_sched_facts [OF b'(4)]
  have "pair_ok tA tB (sched (intr b1))" using m(3) by (simp add: pair_ok_same [OF b'(4)])
  from Yield_pair [OF this, of "be_image env"] b'(5) have
    s: "pair_ok tA tB (sched (intr b'))" "Current (sched (intr b')) = tA" "NowTick (sched (intr b')) = NowTick (kernel \<sigma>)"
    using f(2,3) at(1,2) by (metis Inr_inject)+
  define \<sigma>' where "\<sigma>' = \<sigma>\<lparr>machine := b', workB := Some (con, if ?due then nxt + 4000 else nxt)\<rparr>"
  have r: "turn env tA tB \<sigma> = Some (Inr \<sigma>')" using at b'(1) con by (simp add: turn_def WorkerB_turn_def boot_bind_def \<sigma>'_def)
  have "machine_ok env g base tA tB b'" by (rule machine_ok_step [OF m(1) b'(2,3) s(1)])
  moreover have "clock_ok T \<sigma>'" by (rule clock_same [of T \<sigma>]) (use inv s(3) in \<open>simp_all add: sys_inv_def \<sigma>'_def\<close>)
  moreover have "pages_ok n \<sigma>'" using inv at(3) b'(6) by (simp add: sys_inv_def pages_ok_def \<sigma>'_def)
  moreover have "MessageA \<noteq> MessageB" by (simp add: MessageA_def MessageB_def cstr_def)
  then have "output_ok pre \<sigma>'"
    using output_step [of pre \<sigma> b' MessageB \<sigma>'] output_same [of pre \<sigma> \<sigma>'] inv b'(3,7)
    by (cases ?due; cases pre) (simp_all add: sys_inv_def \<sigma>'_def output_ok_def worker_kept_def)
  ultimately have "sys_inv env g base tA tB T n pre \<sigma>'" using con by (simp add: sys_inv_def \<sigma>'_def)
  then show thesis using that r s(2,3) b'(6) by (simp add: \<sigma>'_def)
qed

lemma timer_keeps:
  assumes inv: "sys_inv env g base tA tB T n pre \<sigma>" and "base \<noteq> 0"
  obtains \<sigma>' where "timer ie f \<sigma> = Some \<sigma>'" "sys_inv env g base tA tB T n pre \<sigma>'" "ticks \<sigma>' = Suc (ticks \<sigma>)"
    "wakeA \<sigma>' = wakeA \<sigma>" "workB \<sigma>' = workB \<sigma>" "roundsA \<sigma>' = roundsA \<sigma>"
proof -
  let ?b = "machine \<sigma>"
  have m: "worker_ready env g ?b" "timer_wired base (intr ?b)" "pair_ok tA tB (kernel \<sigma>)" "bit (flags (crit ?b)) IF_BIT"
    using inv by (simp_all add: sys_inv_def machine_ok_def)
  obtain s tr where s: "Handler ie VEC_TIMER f 0 (intr ?b) = Returned s" "timer_wired base s"
      "sched s = (kernel \<sigma>)\<lparr>cpu := (cpu (kernel \<sigma>))\<lparr>TickCount := TickCount (cpu (kernel \<sigma>)) + 1\<rparr>, gNeedReschedule := True\<rparr>"
      "trace s = trace (intr ?b) @ tr" "port_writes tr = []" by (rule timer_effect [OF m(2) assms(2)])
  let ?b' = "?b\<lparr>intr := s\<rparr>"
  define \<sigma>' where "\<sigma>' = \<sigma>\<lparr>machine := ?b', ticks := Suc (ticks \<sigma>)\<rparr>"
  have r: "timer ie f \<sigma> = Some \<sigma>'" using s(1) by (simp add: timer_def \<sigma>'_def)
  have h: "boot_heap ?b' = boot_heap ?b" by (simp add: boot_heap_def s(3))
  have c: "Current (sched s) = Current (kernel \<sigma>)" "requeues (sched s) = requeues (kernel \<sigma>)" "\<And>xs. sched_ok (sched s) xs = sched_ok (kernel \<sigma>) xs"
    by (simp_all add: s(3) Current_def requeues_def ordinary_def sched_ok_def)
  have "worker_ready env g ?b'" using m(1) h c(3) by (simp add: worker_ready_def console_wf_def)
  moreover have "pair_ok tA tB (sched s)" using m(3) c by (simp add: pair_ok_def)
  ultimately have "machine_ok env g base tA tB ?b'" using s(2) m(4) by (simp add: machine_ok_def)
  moreover have "clock_ok T \<sigma>'" using inv by (auto simp: sys_inv_def clock_ok_def \<sigma>'_def s(3) NowTick_def split: option.splits)
  moreover have "pages_ok n \<sigma>'" using inv h by (simp add: sys_inv_def pages_ok_def \<sigma>'_def)
  moreover have "serial_out (consoles ?b') = serial_out (consoles ?b)"
    by (simp add: serial_out_def console_out_def s(4) sent_ports [OF s(5)] cong: option.case_cong)
  then have "output_ok pre \<sigma>'" using inv by (simp add: sys_inv_def output_ok_def \<sigma>'_def port_ready_def cong: option.case_cong)
  ultimately have "sys_inv env g base tA tB T n pre \<sigma>'" using inv by (simp add: sys_inv_def \<sigma>'_def)
  then show thesis using that r by (simp add: \<sigma>'_def)
qed

subsection \<open>Reachable states\<close>

lemma pair_distinct: "pair_ok tA tB s \<Longrightarrow> tB \<noteq> tA"
  by (auto simp: pair_ok_def sched_ok_def)

text \<open>Where the current thread is, and what it needs.\<close>

lemma turn_full:
  assumes inv: "sys_inv env g base tA tB T n pre \<sigma>" and env: "env_ok env" and full: "pages (machine \<sigma>) = {}"
    and at: "Current (kernel \<sigma>) = tA \<and> wakeA \<sigma> = None \<or> Current (kernel \<sigma>) = tB \<and> workB \<sigma> = None"
  shows "turn env tA tB \<sigma> = Some (Inl (Panic STATUS_ERROR 0))"
proof -
  have m: "worker_ready env g (machine \<sigma>)" "pair_ok tA tB (kernel \<sigma>)" using inv by (simp_all add: sys_inv_def machine_ok_def)
  have "GetBootstrapConsole (be_hw env) (be_sizes env) (consoles (machine \<sigma>)) = Inl (Panic STATUS_ERROR 0)"
    by (rule worker_new_console(1) [OF m(1) env full])
  with at pair_distinct [OF m(2)] show ?thesis
    by (auto simp: turn_def WorkerA_turn_def WorkerB_turn_def WorkerA_print_def WorkerB_start_def boot_bind_def)
qed

lemma turn_cases:
  assumes inv: "sys_inv env g base tA tB T n pre \<sigma>" and env: "env_ok env"
  obtains (full) "turn env tA tB \<sigma> = Some (Inl (Panic STATUS_ERROR 0))" "pages (machine \<sigma>) = {}"
  | (print) q where "Current (kernel \<sigma>) = tA" "wakeA \<sigma> = None" "q \<in> pages (machine \<sigma>)"
  | (sleep) t where "Current (kernel \<sigma>) = tA" "wakeA \<sigma> = Some t" "NowTick (kernel \<sigma>) < t"
  | (wake) t where "Current (kernel \<sigma>) = tA" "wakeA \<sigma> = Some t" "t \<le> NowTick (kernel \<sigma>)"
  | (startB) q where "Current (kernel \<sigma>) = tB" "tB \<noteq> tA" "workB \<sigma> = None" "q \<in> pages (machine \<sigma>)"
  | (roundB) con nxt where "Current (kernel \<sigma>) = tB" "tB \<noteq> tA" "workB \<sigma> = Some (con, nxt)"
proof -
  have p: "pair_ok tA tB (kernel \<sigma>)" using inv by (simp add: sys_inv_def machine_ok_def)
  note d = pair_distinct [OF p] and full = turn_full [OF inv env]
  consider "Current (kernel \<sigma>) = tA" | "Current (kernel \<sigma>) = tB" using p by (auto simp: pair_ok_def)
  then show thesis
  proof cases
    case 1
    then show thesis using that(1-4) full by (cases "wakeA \<sigma>") (blast, metis not_le)
  next
    case 2
    then show thesis using that(1,5,6) full d by (cases "workB \<sigma>") (blast, metis surj_pair)
  qed
qed

text \<open>A turn succeeds and keeps the invariant, or it needs a page for a console and there is none.\<close>

lemma turn_ok:
  assumes inv: "sys_inv env g base tA tB T n pre \<sigma>" and env: "env_ok env"
  shows "(\<exists>\<sigma>'. turn env tA tB \<sigma> = Some (Inr \<sigma>') \<and> sys_inv env g base tA tB T n pre \<sigma>') \<or>
    turn env tA tB \<sigma> = Some (Inl (Panic STATUS_ERROR 0)) \<and> pages (machine \<sigma>) = {}"
  using inv env
proof (cases rule: turn_cases)
  case (print q)
  then show ?thesis using turnA_print [OF inv env print] by blast
next
  case (sleep t)
  then show ?thesis using turnA_sleep [OF inv sleep] by blast
next
  case (wake t)
  then show ?thesis using turnA_wake [OF inv wake] by blast
next
  case (startB q)
  then show ?thesis using turnB_start [OF inv env startB] by blast
next
  case (roundB con nxt)
  then show ?thesis using turnB_round [OF inv roundB] by blast
qed simp

lemma sys_inv_bounds:
  assumes "sys_inv env g base tA tB T n pre \<sigma>"
  shows "pair_ok tA tB (kernel \<sigma>)" "card (pages (machine \<sigma>)) + roundsA \<sigma> \<le> n"
    "ticks \<sigma> + 1000 < 2 ^ 64 \<Longrightarrow> T + 1000 * roundsA \<sigma> \<le> ticks \<sigma> + 1000"
proof -
  show "pair_ok tA tB (kernel \<sigma>)" using assms by (simp add: sys_inv_def machine_ok_def)
  show "card (pages (machine \<sigma>)) + roundsA \<sigma> \<le> n" using assms by (auto simp: sys_inv_def pages_ok_def split: if_splits)
  show "T + 1000 * roundsA \<sigma> \<le> ticks \<sigma> + 1000" if "ticks \<sigma> + 1000 < 2 ^ 64"
    using assms that by (auto simp: sys_inv_def clock_ok_def split: option.splits)
qed

lemma sys_boot_inv:
  assumes "machine_ok env g base tA tB b"
  shows "sys_inv env g base tA tB (unat (NowTick (sched (intr b)))) (card (pages b)) (sent_before b) (sys_boot b)"
  using assms by (auto simp: sys_inv_def sys_boot_def clock_ok_def pages_ok_def output_ok_def sent_before_def intro!: exI [of _ "[]"])

lemma sys_step_inv:
  assumes "sys_step env ie tA tB \<sigma> \<sigma>'" and "sys_inv env g base tA tB T n pre \<sigma>" and "env_ok env" and "base \<noteq> 0"
  shows "sys_inv env g base tA tB T n pre \<sigma>'"
  using assms(1)
proof cases
  case thread
  with turn_ok [OF assms(2,3)] show ?thesis by auto
next
  case (interrupt f)
  with timer_keeps [OF assms(2,4), of ie f] show ?thesis by (metis option.inject)
qed

lemma reachable_inv:
  assumes "(sys_step env ie tA tB)\<^sup>*\<^sup>* (sys_boot b) \<sigma>" and "machine_ok env g base tA tB b" and "env_ok env" and "base \<noteq> 0"
  shows "sys_inv env g base tA tB (unat (NowTick (sched (intr b)))) (card (pages b)) (sent_before b) \<sigma>"
  using assms(1) by induction (use sys_boot_inv [OF assms(2)] sys_step_inv [OF _ _ assms(3,4)] in blast)+

text \<open>Worker A is due when it is at the start of its loop or its sleep is over; \<open>turns_left\<close> bounds the turns until it prints.\<close>

definition due :: "system \<Rightarrow> bool" where
  "due \<sigma> \<longleftrightarrow> (case wakeA \<sigma> of None \<Rightarrow> True | Some t \<Rightarrow> t \<le> NowTick (kernel \<sigma>))"

definition turns_left :: "u64 \<Rightarrow> system \<Rightarrow> nat" where
  "turns_left tB \<sigma> = (if Current (kernel \<sigma>) \<noteq> tB then 0 else if workB \<sigma> = None then 2 else 1) + (if wakeA \<sigma> = None then 1 else 2)"

lemma turns_left_le: "turns_left tB \<sigma> \<le> 4"
  by (simp add: turns_left_def)

lemma turn_due:
  assumes inv: "sys_inv env g base tA tB T n pre \<sigma>" and env: "env_ok env" and due: "due \<sigma>"
  obtains (panic) "turn env tA tB \<sigma> = Some (Inl (Panic STATUS_ERROR 0))" "pages (machine \<sigma>) = {}"
  | (print) \<sigma>' where "turn env tA tB \<sigma> = Some (Inr \<sigma>')" "sys_inv env g base tA tB T n pre \<sigma>'" "roundsA \<sigma>' = Suc (roundsA \<sigma>)"
      "wakeA \<sigma>' = Some (NowTick (kernel \<sigma>) + 1000)"
  | (closer) \<sigma>' where "turn env tA tB \<sigma> = Some (Inr \<sigma>')" "sys_inv env g base tA tB T n pre \<sigma>'" "due \<sigma>'" "turns_left tB \<sigma>' < turns_left tB \<sigma>"
      "roundsA \<sigma>' = roundsA \<sigma>"
  using inv env
proof (cases rule: turn_cases)
  case full
  then show thesis by (rule panic)
next
  case (print q)
  then show thesis using turnA_print [OF inv env print] that(2) by blast
next
  case (sleep t)
  with due show thesis by (simp add: due_def)
next
  case (wake t)
  show thesis by (rule closer [OF turnA_wake [OF inv wake]]) (use wake in \<open>simp_all add: due_def turns_left_def\<close>)
next
  case (startB q)
  from turnB_start [OF inv env startB] obtain \<sigma>' where
    s: "turn env tA tB \<sigma> = Some (Inr \<sigma>')" "sys_inv env g base tA tB T n pre \<sigma>'" "Current (kernel \<sigma>') = tB"
      "NowTick (kernel \<sigma>') = NowTick (kernel \<sigma>)" "wakeA \<sigma>' = wakeA \<sigma>" "roundsA \<sigma>' = roundsA \<sigma>" "workB \<sigma>' \<noteq> None" by metis
  show thesis by (rule closer [OF s(1,2)]) (use startB s(3-7) due in \<open>simp_all add: due_def turns_left_def cong: option.case_cong\<close>)
next
  case (roundB con nxt)
  from turnB_round [OF inv roundB] obtain \<sigma>' where
    s: "turn env tA tB \<sigma> = Some (Inr \<sigma>')" "sys_inv env g base tA tB T n pre \<sigma>'" "Current (kernel \<sigma>') = tA"
      "NowTick (kernel \<sigma>') = NowTick (kernel \<sigma>)" "wakeA \<sigma>' = wakeA \<sigma>" "roundsA \<sigma>' = roundsA \<sigma>" by metis
  show thesis by (rule closer [OF s(1,2)]) (use roundB s(3-6) due in \<open>simp_all add: due_def turns_left_def cong: option.case_cong\<close>)
qed

text \<open>As long as two pages are left that no message has taken, the turn in which worker A prints comes.\<close>

lemma prints_again:
  assumes "sys_inv env g base tA tB T n pre \<sigma>" and env: "env_ok env" and "due \<sigma>" and "roundsA \<sigma> + 2 \<le> n"
  shows "\<exists>k\<le>turns_left tB \<sigma>. \<exists>\<sigma>'. turns env tA tB k \<sigma> = Some (Inr \<sigma>') \<and> roundsA \<sigma>' = Suc (roundsA \<sigma>)"
  using assms(1,3,4)
proof (induction "turns_left tB \<sigma>" arbitrary: \<sigma> rule: less_induct)
  case less
  from less.prems(1) env less.prems(2) show ?case
  proof (cases rule: turn_due)
    case panic
    then show ?thesis using less.prems(1,3) by (simp add: sys_inv_def pages_ok_def split: if_splits)
  next
    case (print \<sigma>')
    moreover have "1 \<le> turns_left tB \<sigma>" by (simp add: turns_left_def)
    ultimately show ?thesis by (intro exI [of _ 1]) (simp add: boot_bind_def)
  next
    case (closer \<sigma>')
    then obtain k \<sigma>'' where "k \<le> turns_left tB \<sigma>'" "turns env tA tB k \<sigma>' = Some (Inr \<sigma>'')" "roundsA \<sigma>'' = Suc (roundsA \<sigma>)"
      using less.hyps [OF closer(4,2,3)] less.prems(3) by auto
    with closer(1,4) show ?thesis by (intro exI [of _ "Suc k"]) (simp add: boot_bind_def)
  qed
qed

text \<open>The idle thread is the end of scheduling: interrupts only set \<open>gNeedReschedule\<close>, which nothing reads, and \<open>IdleLoop\<close> never yields.\<close>

lemma idle_forever:
  assumes "(sys_step env ie tA tB)\<^sup>*\<^sup>* \<sigma> \<sigma>'" and "timer_wired base (intr (machine \<sigma>))" and "base \<noteq> 0"
    and "Current (kernel \<sigma>) \<noteq> tA" and "Current (kernel \<sigma>) \<noteq> tB"
  shows "timer_wired base (intr (machine \<sigma>')) \<and> Current (kernel \<sigma>') = Current (kernel \<sigma>) \<and> roundsA \<sigma>' = roundsA \<sigma>"
  using assms(1)
proof induction
  case base
  show ?case using assms(2) by simp
next
  case (step \<sigma>1 \<sigma>2)
  note IH = step.IH
  from step.hyps(2) show ?case
  proof (cases rule: sys_step.cases)
    case thread
    with IH assms(4,5) show ?thesis by (simp add: turn_def IdleMain_turn_def)
  next
    case (interrupt f)
    from IH obtain s' tr where "Handler ie VEC_TIMER f 0 (intr (machine \<sigma>1)) = Returned s'" "timer_wired base s'"
        "sched s' = (kernel \<sigma>1)\<lparr>cpu := (cpu (kernel \<sigma>1))\<lparr>TickCount := TickCount (cpu (kernel \<sigma>1)) + 1\<rparr>, gNeedReschedule := True\<rparr>"
      using timer_effect [of base "intr (machine \<sigma>1)" ie f 0] assms(3) by blast
    with interrupt(2) IH show ?thesis by (auto simp: timer_def Current_def)
  qed
qed

text \<open>The sample state of the workers is one in which the system runs; the timer alone lets any time pass.\<close>

lemma worker_state_running:
  "machine_ok cold_env (FrameBufferInfo cold_info) 0xFEE00000 0x8000 0x9000 worker_state" "Current (sched (intr worker_state)) = 0x8000"
proof -
  have s: "sched (intr worker_state) = (example_sched [0x9000])\<lparr>sched_state.heap := example_heap\<rparr>"
    by (simp add: worker_state_def sample_consoles_def put_consoles_def set_heap_def)
  show c: "Current (sched (intr worker_state)) = 0x8000" using example_sched_ok(3) [of "[0x9000]"] by (simp add: s Current_def)
  have "requeues (sched (intr worker_state))" using example_sched_ok(2) [of "[0x9000]"] by (simp add: s requeues_def ordinary_def Current_def)
  then have "pair_ok 0x8000 0x9000 (sched (intr worker_state))" using c worker_state_ready(3) by (simp add: pair_ok_def)
  moreover have "timer_wired 0xFEE00000 (intr worker_state)" by (simp add: worker_state_def put_consoles_def set_heap_def timer_wired_def)
  moreover have "bit (flags (crit worker_state)) IF_BIT" by (simp add: worker_state_def put_consoles_def sample_consoles_def IF_BIT_def)
  ultimately show "machine_ok cold_env (FrameBufferInfo cold_info) 0xFEE00000 0x8000 0x9000 worker_state"
    using worker_state_ready(1) by (simp add: machine_ok_def)
qed

lemma time_passes:
  assumes "sys_inv env g base tA tB T n pre \<sigma>" and "base \<noteq> 0"
  shows "\<exists>\<sigma>'. (sys_step env ie tA tB)\<^sup>*\<^sup>* \<sigma> \<sigma>' \<and> sys_inv env g base tA tB T n pre \<sigma>' \<and> ticks \<sigma>' = ticks \<sigma> + k \<and> wakeA \<sigma>' = wakeA \<sigma> \<and>
    workB \<sigma>' = workB \<sigma> \<and> roundsA \<sigma>' = roundsA \<sigma>"
proof (induction k)
  case 0
  then show ?case using assms(1) by auto
next
  case (Suc k)
  then obtain \<sigma>1 where s: "(sys_step env ie tA tB)\<^sup>*\<^sup>* \<sigma> \<sigma>1" "sys_inv env g base tA tB T n pre \<sigma>1" "ticks \<sigma>1 = ticks \<sigma> + k" "wakeA \<sigma>1 = wakeA \<sigma>"
    "workB \<sigma>1 = workB \<sigma>" "roundsA \<sigma>1 = roundsA \<sigma>" by blast
  obtain \<sigma>2 where t: "timer ie sample_frame \<sigma>1 = Some \<sigma>2" "sys_inv env g base tA tB T n pre \<sigma>2" "ticks \<sigma>2 = Suc (ticks \<sigma>1)"
    "wakeA \<sigma>2 = wakeA \<sigma>1" "workB \<sigma>2 = workB \<sigma>1" "roundsA \<sigma>2 = roundsA \<sigma>1" by (rule timer_keeps [OF s(2) assms(2)])
  have "bit (flags (crit (machine \<sigma>1))) IF_BIT" using s(2) by (simp add: sys_inv_def machine_ok_def)
  then have "sys_step env ie tA tB \<sigma>1 \<sigma>2" using t(1) by (rule sys_step.interrupt)
  with s(1) have "(sys_step env ie tA tB)\<^sup>*\<^sup>* \<sigma> \<sigma>2" by (rule rtranclp.rtrancl_into_rtrancl)
  with t(2-6) s(3-6) show ?case by auto
qed

subsection \<open>Theorems\<close>

text \<open>
  C8. The running system: in every state that turns of the workers and timer interrupts can reach, one worker runs
  and the other waits in the ready queue, consoles and heap are sound and interrupts are enabled; the next
  turn succeeds, unless it needs a page for a console object and none is free, and then it panics; the timer
  interrupt is always served. Every message of worker A has cost a page, they come at most once in 1000
  ticks (until the tick counter is about to wrap), and if there is a serial port, what it has sent since
  boot is a sequence of whole messages of the two workers.
\<close>

theorem system_invariant:
  assumes "(sys_step env ie tA tB)\<^sup>*\<^sup>* (sys_boot b) \<sigma>" and "machine_ok env g base tA tB b" and "env_ok env" and "base \<noteq> 0"
  shows "machine_ok env g base tA tB (machine \<sigma>) \<and>
    ((\<exists>\<sigma>'. turn env tA tB \<sigma> = Some (Inr \<sigma>')) \<or> turn env tA tB \<sigma> = Some (Inl (Panic STATUS_ERROR 0)) \<and> pages (machine \<sigma>) = {}) \<and>
    (\<exists>\<sigma>'. timer ie f \<sigma> = Some \<sigma>') \<and> card (pages (machine \<sigma>)) + roundsA \<sigma> \<le> card (pages b) \<and>
    (ticks \<sigma> + 1000 < 2 ^ 64 \<longrightarrow> unat (NowTick (sched (intr b))) + 1000 * roundsA \<sigma> \<le> ticks \<sigma> + 1000) \<and>
    (port_ready (consoles b) \<longrightarrow> (\<exists>ms. set ms \<subseteq> {MessageA, MessageB} \<and> count_list ms MessageA = roundsA \<sigma> \<and>
       serial_out (consoles (machine \<sigma>)) = serial_out (consoles b) @ concat (map (concat \<circ> map crlf) ms)))"
proof -
  note inv = reachable_inv [OF assms]
  note sys_inv_bounds(2,3) [OF inv]
  moreover have "\<exists>\<sigma>'. timer ie f \<sigma> = Some \<sigma>'" using timer_keeps [OF inv assms(4)] by blast
  moreover have "machine_ok env g base tA tB (machine \<sigma>)" "output_ok (sent_before b) \<sigma>" using inv by (simp_all add: sys_inv_def)
  ultimately show ?thesis using turn_ok [OF inv assms(3)] by (auto simp: output_ok_def sent_before_def)
qed

theorem system_invariant_witness:
  "\<exists>\<sigma>. turn cold_env 0x8000 0x9000 (sys_boot worker_state) = Some (Inr \<sigma>) \<and> card (pages (machine \<sigma>)) + roundsA \<sigma> \<le> 4 \<and> timer sample_env sample_frame \<sigma> \<noteq> None"
proof -
  let ?\<sigma> = "sys_boot worker_state"
  have z: "(0xFEE00000 :: u64) \<noteq> 0" by simp
  note s = system_invariant [OF _ worker_state_running(1) worker_state_ready(2) z, of sample_env _ sample_frame]
  have "pages (machine ?\<sigma>) \<noteq> {}" using worker_state_ready(4) by (simp add: sys_boot_def)
  with s [of ?\<sigma>] obtain \<sigma> where t: "turn cold_env 0x8000 0x9000 ?\<sigma> = Some (Inr \<sigma>)" by auto
  then have "(sys_step cold_env sample_env 0x8000 0x9000)\<^sup>*\<^sup>* ?\<sigma> \<sigma>" by (intro r_into_rtranclp sys_step.thread)
  from s [OF this] t show ?thesis by (auto simp: worker_state_ready(4))
qed

text \<open>
  C21. Worker A prints again: in every reachable state in which it sleeps and its time has come, at most four
  turns of the threads later it has printed its message once more, provided that two pages are free (one
  for its console object, one for that of worker B if that has not started yet).
\<close>

theorem WorkerA_prints_again:
  assumes "(sys_step env ie tA tB)\<^sup>*\<^sup>* (sys_boot b) \<sigma>" and "machine_ok env g base tA tB b" and "env_ok env" and "base \<noteq> 0"
    and "wakeA \<sigma> = Some t" and "t \<le> NowTick (kernel \<sigma>)" and "2 \<le> card (pages (machine \<sigma>))"
  shows "\<exists>k\<le>4. \<exists>\<sigma>'. turns env tA tB k \<sigma> = Some (Inr \<sigma>') \<and> roundsA \<sigma>' = Suc (roundsA \<sigma>)"
proof -
  note inv = reachable_inv [OF assms(1-4)]
  have "due \<sigma>" using assms(5,6) by (simp add: due_def)
  moreover have "roundsA \<sigma> + 2 \<le> card (pages b)" using sys_inv_bounds(2) [OF inv] assms(7) by simp
  ultimately show ?thesis using prints_again [OF inv assms(3)] turns_left_le [of tB \<sigma>] order_trans by blast
qed

theorem WorkerA_prints_again_witness:
  "\<exists>\<sigma> k \<sigma>'. (sys_step cold_env sample_env 0x8000 0x9000)\<^sup>*\<^sup>* (sys_boot worker_state) \<sigma> \<and> roundsA \<sigma> = 1 \<and> wakeA \<sigma> = Some 1000 \<and> k \<le> 4 \<and>
     turns cold_env 0x8000 0x9000 k \<sigma> = Some (Inr \<sigma>') \<and> roundsA \<sigma>' = 2"
proof -
  let ?\<sigma> = "sys_boot worker_state"
  have z: "(0xFEE00000 :: u64) \<noteq> 0" by simp
  note r = worker_state_ready and inv = sys_boot_inv [OF worker_state_running(1)]
  have at: "Current (kernel ?\<sigma>) = 0x8000" "wakeA ?\<sigma> = None" "1 \<in> pages (machine ?\<sigma>)" "NowTick (kernel ?\<sigma>) = 0" "workB ?\<sigma> = None" "roundsA ?\<sigma> = 0"
      "ticks ?\<sigma> = 0" using worker_state_running(2) r(4,5) by (simp_all add: sys_boot_def)
  obtain \<sigma>1 where s1: "turn cold_env 0x8000 0x9000 ?\<sigma> = Some (Inr \<sigma>1)"
      "sys_inv cold_env (FrameBufferInfo cold_info) 0xFEE00000 0x8000 0x9000 (unat (NowTick (sched (intr worker_state)))) (card (pages worker_state)) (sent_before worker_state) \<sigma>1"
      "roundsA \<sigma>1 = Suc (roundsA ?\<sigma>)" "wakeA \<sigma>1 = Some (NowTick (kernel ?\<sigma>) + 1000)" "workB \<sigma>1 = workB ?\<sigma>" "ticks \<sigma>1 = ticks ?\<sigma>"
    by (rule turnA_print [OF inv r(2) at(1-3)])
  from time_passes [OF s1(2) z, of sample_env 1000] obtain \<sigma> where
    s: "(sys_step cold_env sample_env 0x8000 0x9000)\<^sup>*\<^sup>* \<sigma>1 \<sigma>"
      "sys_inv cold_env (FrameBufferInfo cold_info) 0xFEE00000 0x8000 0x9000 (unat (NowTick (sched (intr worker_state)))) (card (pages worker_state)) (sent_before worker_state) \<sigma>"
      "ticks \<sigma> = 1000" "wakeA \<sigma> = Some 1000" "workB \<sigma> = None" "roundsA \<sigma> = 1" using s1(3-6) at(4-7) by auto
  have "sys_step cold_env sample_env 0x8000 0x9000 ?\<sigma> \<sigma>1" by (rule sys_step.thread [OF s1(1)])
  with s(1) have reach: "(sys_step cold_env sample_env 0x8000 0x9000)\<^sup>*\<^sup>* ?\<sigma> \<sigma>" by (rule converse_rtranclp_into_rtranclp [rotated])
  have "1000 \<le> NowTick (kernel \<sigma>)" "2 \<le> card (pages (machine \<sigma>))"
    using s(2,3,5,6) r(4) by (simp_all add: sys_inv_def clock_ok_def pages_ok_def)
  from WorkerA_prints_again [OF reach worker_state_running(1) r(2) z s(4) this] obtain k \<sigma>' where
    "k \<le> 4" "turns cold_env 0x8000 0x9000 k \<sigma> = Some (Inr \<sigma>')" "roundsA \<sigma>' = 2" using s(6) by auto
  with reach s(4,6) show ?thesis by blast
qed

end
