(* ===== verification/SystemEnd.thy ===== *)
theory SystemEnd
  imports RunningSystem
begin

text \<open>
  The life of the system: a timer interrupt, some turns of the threads, the next interrupt, and so on. As every message of
  worker A costs a page, it ends in a panic, and the number of interrupts it takes has a bound.
\<close>

subsection \<open>Periods\<close>

definition period :: "boot_env \<Rightarrow> intr_env \<Rightarrow> InterruptFrame \<Rightarrow> u64 \<Rightarrow> u64 \<Rightarrow> nat \<Rightarrow> system \<Rightarrow> system boot_result" where
  "period env ie f tA tB m \<sigma> = (case timer ie f \<sigma> of None \<Rightarrow> None | Some \<sigma>1 \<Rightarrow> turns env tA tB m \<sigma>1)"

primrec periods :: "boot_env \<Rightarrow> intr_env \<Rightarrow> InterruptFrame \<Rightarrow> u64 \<Rightarrow> u64 \<Rightarrow> nat \<Rightarrow> nat \<Rightarrow> system \<Rightarrow> system boot_result" where
  "periods env ie f tA tB m 0 \<sigma> = Some (Inr \<sigma>)"
| "periods env ie f tA tB m (Suc k) \<sigma> = boot_bind (periods env ie f tA tB m k \<sigma>) (period env ie f tA tB m)"

abbreviation panicked :: "'a boot_result \<Rightarrow> bool" where
  "panicked r \<equiv> r = Some (Inl (Panic STATUS_ERROR 0))"

lemma inv_now: "sys_inv env g base tA tB T n pre \<sigma> \<Longrightarrow> NowTick (kernel \<sigma>) = of_nat (ticks \<sigma>)"
  by (simp add: sys_inv_def clock_ok_def)

lemma unat_now: "sys_inv env g base tA tB T n pre \<sigma> \<Longrightarrow> ticks \<sigma> + 1000 < 2 ^ 64 \<Longrightarrow> unat (NowTick (kernel \<sigma>)) = ticks \<sigma>"
  by (simp add: inv_now unat_of_nat_nowrap)

subsection \<open>Single turns\<close>

lemma turn_ticks: "turn env tA tB \<sigma> = Some (Inr \<sigma>') \<Longrightarrow> ticks \<sigma>' = ticks \<sigma>"
  by (auto simp: turn_def WorkerA_turn_def WorkerB_turn_def IdleMain_turn_def boot_bind_def split: if_splits option.splits sum.splits prod.splits)

lemma turn_asleep:
  "turn env tA tB \<sigma> = Some (Inr \<sigma>') \<Longrightarrow> wakeA \<sigma> = Some t \<Longrightarrow> NowTick (kernel \<sigma>) < t \<Longrightarrow> wakeA \<sigma>' = Some t \<and> roundsA \<sigma>' = roundsA \<sigma>"
  by (auto simp: turn_def WorkerA_turn_def WorkerB_turn_def IdleMain_turn_def boot_bind_def split: if_splits option.splits sum.splits prod.splits)

subsection \<open>Many turns\<close>

lemma turns_asleep:
  assumes "sys_inv env g base tA tB T n pre \<sigma>" and env: "env_ok env" and "wakeA \<sigma> = Some t" and "of_nat (ticks \<sigma>) < t"
  shows "panicked (turns env tA tB m \<sigma>) \<or> (\<exists>\<sigma>'. turns env tA tB m \<sigma> = Some (Inr \<sigma>') \<and> sys_inv env g base tA tB T n pre \<sigma>' \<and>
    ticks \<sigma>' = ticks \<sigma> \<and> wakeA \<sigma>' = Some t \<and> roundsA \<sigma>' = roundsA \<sigma>)"
  using assms(1,3,4)
proof (induction m arbitrary: \<sigma>)
  case (Suc m)
  from turn_ok [OF Suc.prems(1) env] show ?case
  proof (elim disjE exE conjE)
    fix \<sigma>' assume s: "turn env tA tB \<sigma> = Some (Inr \<sigma>')" "sys_inv env g base tA tB T n pre \<sigma>'"
    have "wakeA \<sigma>' = Some t" "roundsA \<sigma>' = roundsA \<sigma>" using turn_asleep [OF s(1) Suc.prems(2)] Suc.prems(3) inv_now [OF Suc.prems(1)] by auto
    with Suc.IH [OF s(2)] Suc.prems(3) turn_ticks [OF s(1)] s(1) show ?thesis by (simp add: boot_bind_def)
  qed (simp add: boot_bind_def)
qed simp

lemma turns_due:
  assumes "sys_inv env g base tA tB T n pre \<sigma>" and env: "env_ok env" and "due \<sigma>" and "turns_left tB \<sigma> \<le> m" and "ticks \<sigma> + 1000 < 2 ^ 64"
  shows "panicked (turns env tA tB m \<sigma>) \<or> (\<exists>\<sigma>'. turns env tA tB m \<sigma> = Some (Inr \<sigma>') \<and> sys_inv env g base tA tB T n pre \<sigma>' \<and>
    ticks \<sigma>' = ticks \<sigma> \<and> wakeA \<sigma>' = Some (of_nat (ticks \<sigma> + 1000)) \<and> roundsA \<sigma>' = Suc (roundsA \<sigma>))"
  using assms(1,3-5)
proof (induction m arbitrary: \<sigma>)
  case 0
  then show ?case by (simp add: turns_left_def split: if_splits)
next
  case (Suc m)
  from Suc.prems(1) env Suc.prems(2) show ?case
  proof (cases rule: turn_due)
    case panic
    then show ?thesis by (simp add: boot_bind_def)
  next
    case (print \<sigma>')
    have w: "wakeA \<sigma>' = Some (of_nat (ticks \<sigma> + 1000))" using print(4) inv_now [OF Suc.prems(1)] by simp
    have "of_nat (ticks \<sigma>') < (of_nat (ticks \<sigma> + 1000) :: u64)"
      using Suc.prems(4) turn_ticks [OF print(1)] unat_of_nat_nowrap [of "ticks \<sigma> + 1000", where 'a = 64] unat_of_nat_nowrap [of "ticks \<sigma>", where 'a = 64]
      by (simp add: word_less_nat_alt)
    from turns_asleep [OF print(2) env w this, of m] print(1,3) turn_ticks [OF print(1)] show ?thesis by (simp add: boot_bind_def)
  next
    case (closer \<sigma>')
    with Suc.IH [OF closer(2,3)] Suc.prems(3,4) turn_ticks [OF closer(1)] show ?thesis by (simp add: boot_bind_def)
  qed
qed

subsection \<open>Many periods\<close>

text \<open>After a period worker A sleeps, and not for longer than its messages so far account for.\<close>

definition asleep :: "nat \<Rightarrow> system \<Rightarrow> bool" where
  "asleep T \<sigma> \<longleftrightarrow> (\<exists>t. wakeA \<sigma> = Some t \<and> ticks \<sigma> < unat t \<and> unat t \<le> T + 1 + 1000 * roundsA \<sigma>)"

lemma asleep_after_print:
  assumes "wakeA \<sigma> = Some (of_nat (ticks \<sigma> + 1000))" and "ticks \<sigma> \<le> T + 1 + 1000 * r" and "roundsA \<sigma> = Suc r" and "ticks \<sigma> + 1000 < 2 ^ 64"
  shows "asleep T \<sigma>"
  using assms unat_of_nat_nowrap [of "ticks \<sigma> + 1000", where 'a = 64] by (simp add: asleep_def)

lemma period_due:
  assumes inv: "sys_inv env g base tA tB T n pre \<sigma>" and env: "env_ok env" and "base \<noteq> 0" and "4 \<le> m" and "ticks \<sigma> + 1001 < 2 ^ 64"
    and wake: "case wakeA \<sigma> of None \<Rightarrow> True | Some t \<Rightarrow> unat t = Suc (ticks \<sigma>)" and "ticks \<sigma> \<le> T + 1000 * roundsA \<sigma>"
  shows "panicked (period env ie f tA tB m \<sigma>) \<or> (\<exists>\<sigma>'. period env ie f tA tB m \<sigma> = Some (Inr \<sigma>') \<and> sys_inv env g base tA tB T n pre \<sigma>' \<and>
    ticks \<sigma>' = Suc (ticks \<sigma>) \<and> asleep T \<sigma>')"
proof -
  obtain \<sigma>1 where s: "timer ie f \<sigma> = Some \<sigma>1" "sys_inv env g base tA tB T n pre \<sigma>1" "ticks \<sigma>1 = Suc (ticks \<sigma>)" "wakeA \<sigma>1 = wakeA \<sigma>"
    "roundsA \<sigma>1 = roundsA \<sigma>" by (rule timer_keeps [OF inv assms(3)])
  have "unat (NowTick (kernel \<sigma>1)) = Suc (ticks \<sigma>)" using unat_now [OF s(2)] s(3) assms(5) by simp
  with wake s(4) have "due \<sigma>1" by (auto simp: due_def word_le_nat_alt split: option.splits)
  moreover have "turns_left tB \<sigma>1 \<le> m" using turns_left_le [of tB \<sigma>1] assms(4) by simp
  moreover have "ticks \<sigma>1 + 1000 < 2 ^ 64" using s(3) assms(5) by simp
  ultimately have "panicked (turns env tA tB m \<sigma>1) \<or> (\<exists>\<sigma>'. turns env tA tB m \<sigma>1 = Some (Inr \<sigma>') \<and> sys_inv env g base tA tB T n pre \<sigma>' \<and>
      ticks \<sigma>' = ticks \<sigma>1 \<and> wakeA \<sigma>' = Some (of_nat (ticks \<sigma>1 + 1000)) \<and> roundsA \<sigma>' = Suc (roundsA \<sigma>1))"
    by (rule turns_due [OF s(2) env])
  then show ?thesis
  proof (elim disjE exE conjE)
    fix \<sigma>' assume t: "turns env tA tB m \<sigma>1 = Some (Inr \<sigma>')" "sys_inv env g base tA tB T n pre \<sigma>'" "ticks \<sigma>' = ticks \<sigma>1"
      "wakeA \<sigma>' = Some (of_nat (ticks \<sigma>1 + 1000))" "roundsA \<sigma>' = Suc (roundsA \<sigma>1)"
    have "asleep T \<sigma>'" by (rule asleep_after_print [of _ _ "roundsA \<sigma>"]) (use t(3-5) s(3,5) assms(5,7) in simp_all)
    with t(1-3) s(1,3) show ?thesis by (simp add: period_def)
  qed (simp add: period_def s(1))
qed

lemma period_asleep:
  assumes inv: "sys_inv env g base tA tB T n pre \<sigma>" and env: "env_ok env" and "base \<noteq> 0" and "4 \<le> m" and "ticks \<sigma> + 1001 < 2 ^ 64" and "asleep T \<sigma>"
  shows "panicked (period env ie f tA tB m \<sigma>) \<or> (\<exists>\<sigma>'. period env ie f tA tB m \<sigma> = Some (Inr \<sigma>') \<and> sys_inv env g base tA tB T n pre \<sigma>' \<and>
    ticks \<sigma>' = Suc (ticks \<sigma>) \<and> asleep T \<sigma>')"
proof -
  from assms(6) obtain t where t: "wakeA \<sigma> = Some t" "ticks \<sigma> < unat t" "unat t \<le> T + 1 + 1000 * roundsA \<sigma>" by (auto simp: asleep_def)
  show ?thesis
  proof (cases "unat t = Suc (ticks \<sigma>)")
    case True
    then show ?thesis using period_due [OF inv env assms(3-5)] t(1,3) by simp
  next
    case False
    obtain \<sigma>1 where s: "timer ie f \<sigma> = Some \<sigma>1" "sys_inv env g base tA tB T n pre \<sigma>1" "ticks \<sigma>1 = Suc (ticks \<sigma>)" "wakeA \<sigma>1 = wakeA \<sigma>"
      "roundsA \<sigma>1 = roundsA \<sigma>" by (rule timer_keeps [OF inv assms(3)])
    have "of_nat (ticks \<sigma>1) < t" using False t(2) s(3) inv_now [OF s(2)] unat_now [OF s(2)] assms(5) by (simp add: word_less_nat_alt)
    from turns_asleep [OF s(2) env s(4) [unfolded t(1)] this, of m] show ?thesis
    proof (elim disjE exE conjE)
      fix \<sigma>' assume u: "turns env tA tB m \<sigma>1 = Some (Inr \<sigma>')" "sys_inv env g base tA tB T n pre \<sigma>'" "ticks \<sigma>' = ticks \<sigma>1" "wakeA \<sigma>' = Some t"
        "roundsA \<sigma>' = roundsA \<sigma>1"
      have "asleep T \<sigma>'" using u(3-5) s(3,5) t(2,3) False by (simp add: asleep_def)
      with u(1-3) s(1,3) show ?thesis by (simp add: period_def)
    qed (simp add: period_def s(1))
  qed
qed

lemma periods_run:
  assumes "machine_ok env g base tA tB b" and env: "env_ok env" and "base \<noteq> 0" and "4 \<le> m" and T: "T = unat (NowTick (sched (intr b)))" and "T + k + 1001 < 2 ^ 64"
  shows "panicked (periods env ie f tA tB m (Suc k) (sys_boot b)) \<or> (\<exists>\<sigma>. periods env ie f tA tB m (Suc k) (sys_boot b) = Some (Inr \<sigma>) \<and>
    sys_inv env g base tA tB T (card (pages b)) (sent_before b) \<sigma> \<and> ticks \<sigma> = T + Suc k \<and> asleep T \<sigma>)"
  using assms(6)
proof (induction k)
  case 0
  have "ticks (sys_boot b) = T" "roundsA (sys_boot b) = 0" "wakeA (sys_boot b) = None" by (simp_all add: sys_boot_def T)
  with period_due [OF sys_boot_inv [OF assms(1)] env assms(3,4)] 0 show ?case by (simp add: boot_bind_def T)
next
  case (Suc k)
  then have "panicked (periods env ie f tA tB m (Suc k) (sys_boot b)) \<or> (\<exists>\<sigma>. periods env ie f tA tB m (Suc k) (sys_boot b) = Some (Inr \<sigma>) \<and>
    sys_inv env g base tA tB T (card (pages b)) (sent_before b) \<sigma> \<and> ticks \<sigma> = T + Suc k \<and> asleep T \<sigma>)" by simp
  then show ?case
  proof (elim disjE exE conjE)
    fix \<sigma> assume s: "periods env ie f tA tB m (Suc k) (sys_boot b) = Some (Inr \<sigma>)" "sys_inv env g base tA tB T (card (pages b)) (sent_before b) \<sigma>"
      "ticks \<sigma> = T + Suc k" "asleep T \<sigma>"
    have "ticks \<sigma> + 1001 < 2 ^ 64" using s(3) Suc.prems by simp
    from period_asleep [OF s(2) env assms(3,4) this s(4), of ie f] s(1,3) show ?thesis
      by (simp only: periods.simps(2) [of env ie f tA tB m "Suc k"] boot_bind_def) simp
  qed (simp only: periods.simps(2) [of env ie f tA tB m "Suc k"] boot_bind_def, simp)
qed

lemma periods_panic:
  assumes "machine_ok env g base tA tB b" and "env_ok env" and "base \<noteq> 0" and "4 \<le> m"
    and "unat (NowTick (sched (intr b))) + 1000 * card (pages b) + 1001 < 2 ^ 64"
  shows "periods env ie f tA tB m (1000 * card (pages b) + 1) (sys_boot b) = Some (Inl (Panic STATUS_ERROR 0))"
proof (rule ccontr)
  let ?T = "unat (NowTick (sched (intr b)))" and ?k = "1000 * card (pages b)"
  assume "periods env ie f tA tB m (?k + 1) (sys_boot b) \<noteq> Some (Inl (Panic STATUS_ERROR 0))"
  then obtain \<sigma> where s: "sys_inv env g base tA tB ?T (card (pages b)) (sent_before b) \<sigma>" "ticks \<sigma> = ?T + Suc ?k" "asleep ?T \<sigma>"
    using periods_run [OF assms(1-4) refl assms(5), of ie f] by auto
  from s(2,3) have "card (pages b) < roundsA \<sigma>" by (auto simp: asleep_def)
  with sys_inv_bounds(2) [OF s(1)] show False by simp
qed

subsection \<open>Theorem\<close>



end
