(* ===== verification/Entropy.thy ===== *)
theory Entropy
  imports Timers
begin

text \<open>
  \<open>Kernel/Arch/x86_64/Utility/Random.hpp\<close>, \<open>Kernel/Devices/RandomDevice/HardwareRandomDevice.cpp\<close> and
  \<open>Kernel/Core/UUID/UUID.cpp\<close>: random numbers from \<open>rdrand\<close> with a bounded number of tries and the time stamp
  counter as the fallback, and identifiers made from them. An identifier is the 16 bytes at its address in
  memory. Where the order of the two reads in the fallback is unspecified, the left operand is read first.
\<close>

unbundle bit_operations_syntax

subsection \<open>Random numbers\<close>

definition rdrand :: "hardware \<Rightarrow> nat \<Rightarrow> ('r, bool \<times> u64) hw" where
  "rdrand hw width = observe (\<lambda>tr. hw_rdrand hw tr width) (\<lambda>r. EvRdRand width (fst r) (snd r))"

definition RdRand16 :: "hardware \<Rightarrow> u16 \<Rightarrow> ('r, bool \<times> u16) hw" where
  "RdRand16 hw out = do { (ok, val) \<leftarrow> rdrand hw 16; State_Monad.return (ok, if ok then ucast val else out) }"

definition RdRand32 :: "hardware \<Rightarrow> u32 \<Rightarrow> ('r, bool \<times> u32) hw" where
  "RdRand32 hw out = do { (ok, val) \<leftarrow> rdrand hw 32; State_Monad.return (ok, if ok then ucast val else out) }"

definition RdRand64 :: "hardware \<Rightarrow> u64 \<Rightarrow> ('r, bool \<times> u64) hw" where
  "RdRand64 hw out = do { (ok, val) \<leftarrow> rdrand hw 64; State_Monad.return (ok, if ok then val else out) }"

definition RDRAND_TRY_MAX :: nat where "RDRAND_TRY_MAX = 10"

text \<open>The retry loop, which the three widths share; \<open>n\<close> tries are left.\<close>

primrec rdrand_loop :: "('w \<Rightarrow> ('r, bool \<times> 'w) hw) \<Rightarrow> nat \<Rightarrow> 'w \<Rightarrow> ('r, 'w option) hw" where
  "rdrand_loop rd 0 result = State_Monad.return None"
| "rdrand_loop rd (Suc n) result = do {
     (ok, r) \<leftarrow> rd result;
     (if ok then State_Monad.return (Some r) else rdrand_loop rd n r)
   }"

definition HwGenerateRandom16 :: "hardware \<Rightarrow> ('r, u16) hw" where
  "HwGenerateRandom16 hw = do {
     r \<leftarrow> rdrand_loop (RdRand16 hw) RDRAND_TRY_MAX 0;
     (case r of
        Some v \<Rightarrow> State_Monad.return v
      | None \<Rightarrow> do { a \<leftarrow> ReadTSC hw; b \<leftarrow> ReadTSC hw; State_Monad.return (ucast (a XOR drop_bit 16 b)) })
   }"

definition HwGenerateRandom32 :: "hardware \<Rightarrow> ('r, u32) hw" where
  "HwGenerateRandom32 hw = do {
     r \<leftarrow> rdrand_loop (RdRand32 hw) RDRAND_TRY_MAX 0;
     (case r of
        Some v \<Rightarrow> State_Monad.return v
      | None \<Rightarrow> do { a \<leftarrow> ReadTSC hw; b \<leftarrow> ReadTSC hw; State_Monad.return (ucast (a XOR drop_bit 20 b)) })
   }"

definition HwGenerateRandom64 :: "hardware \<Rightarrow> ('r, u64) hw" where
  "HwGenerateRandom64 hw = do {
     r \<leftarrow> rdrand_loop (RdRand64 hw) RDRAND_TRY_MAX 0;
     (case r of
        Some v \<Rightarrow> State_Monad.return v
      | None \<Rightarrow> do { a \<leftarrow> ReadTSC hw; b \<leftarrow> ReadTSC hw; State_Monad.return (a XOR drop_bit 24 b) })
   }"

subsection \<open>The random device\<close>

record HardwareRandomDevice =
  m_DeviceType :: DeviceType

definition new_HardwareRandomDevice :: HardwareRandomDevice where
  "new_HardwareRandomDevice = \<lparr>m_DeviceType = HW_RANDOM_ENGINE\<rparr>"

definition Generate16 :: "hardware \<Rightarrow> HardwareRandomDevice \<Rightarrow> ('r, u16) hw" where
  "Generate16 hw d = HwGenerateRandom16 hw"

definition Generate32 :: "hardware \<Rightarrow> HardwareRandomDevice \<Rightarrow> ('r, u32) hw" where
  "Generate32 hw d = HwGenerateRandom32 hw"

definition Generate64 :: "hardware \<Rightarrow> HardwareRandomDevice \<Rightarrow> ('r, u64) hw" where
  "Generate64 hw d = HwGenerateRandom64 hw"

definition Random_GetDeviceType :: "HardwareRandomDevice \<Rightarrow> DeviceType" where
  "Random_GetDeviceType d = m_DeviceType d"

definition Random_Reset :: "HardwareRandomDevice \<Rightarrow> HardwareRandomDevice" where
  "Random_Reset d = d"

definition Random_Shutdown :: "HardwareRandomDevice \<Rightarrow> HardwareRandomDevice" where
  "Random_Shutdown d = d"

subsection \<open>Identifiers\<close>

definition sizeof_UUID_bytes :: u64 where "sizeof_UUID_bytes = 16"

definition UUID_random :: "('r, u64) hw \<Rightarrow> u64 \<Rightarrow> memory \<Rightarrow> ('r, memory) hw" where
  "UUID_random generate64 this m = do {
     p0 \<leftarrow> generate64;
     let m1 = write64 m this p0;
     p1 \<leftarrow> generate64;
     State_Monad.return (write64 m1 (this + 8) p1)
   }"

definition UUID_copy :: "u64 \<Rightarrow> u64 \<Rightarrow> memory \<Rightarrow> memory" where
  "UUID_copy v this m = CopyMemory m v this sizeof_UUID_bytes"

definition UUID_move :: "u64 \<Rightarrow> u64 \<Rightarrow> memory \<Rightarrow> memory" where
  "UUID_move v this m = CopyMemory m v this sizeof_UUID_bytes"

definition UUID_from_bytes :: "u64 \<Rightarrow> u64 \<Rightarrow> memory \<Rightarrow> memory" where
  "UUID_from_bytes bytes this m = CopyMemory m bytes this sizeof_UUID_bytes"

definition UUID_Bytes :: "u64 \<Rightarrow> u64" where
  "UUID_Bytes this = this"

definition UUID_eq :: "memory \<Rightarrow> u64 \<Rightarrow> u64 \<Rightarrow> bool" where
  "UUID_eq m this rhs = CompareMemory (ptr_view m (UUID_Bytes rhs)) (ptr_view m this) sizeof_UUID_bytes"

definition UUID_neq :: "memory \<Rightarrow> u64 \<Rightarrow> u64 \<Rightarrow> bool" where
  "UUID_neq m this rhs \<longleftrightarrow> \<not> UUID_eq m this rhs"

definition UUID_ToString :: "u64 \<Rightarrow> u64 \<Rightarrow> memory \<Rightarrow> nat \<times> memory" where
  "UUID_ToString buf sz m = (0, m)"

subsection \<open>Lemmas\<close>

lemma run_RdRand64:
  "run_state (RdRand64 hw out) s = (let r = hw_rdrand hw (trace s) 64 in
     ((fst r, if fst r then snd r else out), s\<lparr>trace := trace s @ [EvRdRand 64 (fst r) (snd r)]\<rparr>))"
  by (simp add: RdRand64_def rdrand_def run_state_bind case_prod_beta Let_def)

definition failed_tries :: "io_event list \<Rightarrow> bool" where
  "failed_tries evs \<longleftrightarrow> (\<forall>e\<in>set evs. \<exists>v. e = EvRdRand 64 False v)"

lemma rdrand_loop_spec:
  assumes "run_state (rdrand_loop (RdRand64 hw) n out) s = (r, s')"
  shows "\<exists>evs. failed_tries evs \<and>
    (case r of
       Some v \<Rightarrow> length evs < n \<and> s' = s\<lparr>trace := trace s @ evs @ [EvRdRand 64 True v]\<rparr>
     | None \<Rightarrow> length evs = n \<and> s' = s\<lparr>trace := trace s @ evs\<rparr>)"
  using assms
proof (induction n arbitrary: out s)
  case 0
  then show ?case by (intro exI [of _ "[]"]) (auto simp: failed_tries_def)
next
  case (Suc n)
  obtain ok v where q: "hw_rdrand hw (trace s) 64 = (ok, v)" by fastforce
  let ?s1 = "s\<lparr>trace := trace s @ [EvRdRand 64 ok v]\<rparr>"
  show ?case
  proof (cases ok)
    case True
    then show ?thesis
      using Suc.prems q by (intro exI [of _ "[]"]) (auto simp: failed_tries_def run_state_bind run_RdRand64)
  next
    case False
    then have "run_state (rdrand_loop (RdRand64 hw) n out) ?s1 = (r, s')"
      using Suc.prems q by (simp add: run_state_bind run_RdRand64)
    from Suc.IH [OF this] obtain evs where "failed_tries evs"
      "case r of Some w \<Rightarrow> length evs < n \<and> s' = ?s1\<lparr>trace := trace ?s1 @ evs @ [EvRdRand 64 True w]\<rparr>
       | None \<Rightarrow> length evs = n \<and> s' = ?s1\<lparr>trace := trace ?s1 @ evs\<rparr>" by blast
    then show ?thesis
      using False by (intro exI [of _ "EvRdRand 64 False v # evs"]) (auto simp: failed_tries_def split: option.splits)
  qed
qed

lemma write_bytes_snoc:
  assumes "length bs < 2 ^ 64"
  shows "write_bytes m a (bs @ [b]) = (write_bytes m a bs)(a + of_nat (length bs) := b)"
proof
  fix x
  have u: "unat (of_nat (length bs) :: u64) = length bs" using assms by (intro unat_of_nat_nowrap) simp
  have "x = a + of_nat (length bs)" if "unat (x - a) = length bs"
  proof -
    have "x - a = of_nat (length bs)" using that by (simp flip: that)
    then show ?thesis by (simp add: algebra_simps)
  qed
  then have "x = a + of_nat (length bs) \<longleftrightarrow> unat (x - a) = length bs" using u by auto
  then show "write_bytes m a (bs @ [b]) x = ((write_bytes m a bs)(a + of_nat (length bs) := b)) x"
    by (auto simp: write_bytes_def nth_append less_Suc_eq)
qed

lemma CopyMemory_memory:
  fixes m :: memory
  assumes "ranges_apart dest (unat sz) src (unat sz)"
  shows "CopyMemory m src dest sz = write_bytes m dest (read_bytes m src (unat sz))"
proof -
  define F where "F = (\<lambda>i (p :: memory). p(dest + of_nat i := p (src + of_nat i)))"
  have "fold F [0..<n] m = write_bytes m dest (read_bytes m src n)" if "n \<le> unat sz" for n
    using that
  proof (induction n)
    case 0
    then show ?case by (simp add: write_bytes_def)
  next
    case (Suc n)
    have "write_bytes m dest (read_bytes m src n) (src + of_nat n) = m (src + of_nat n)"
      using assms Suc.prems by (intro write_bytes_other) (metis ranges_apart_def length_read_bytes Suc_le_lessD less_trans)
    moreover have "read_bytes m src (Suc n) = read_bytes m src n @ [m (src + of_nat n)]" by (simp add: read_bytes_def)
    moreover have "n < 2 ^ 64" by (rule less_trans [OF Suc_le_lessD [OF Suc.prems]]) simp
    moreover have "fold F [0..<Suc n] m = F n (write_bytes m dest (read_bytes m src n))" using Suc by simp
    ultimately show ?case unfolding F_def [THEN fun_cong, of n] by (simp add: write_bytes_snoc del: upt_Suc)
  qed
  then show ?thesis by (simp add: CopyMemory_def F_def)
qed

lemma UUID_eq_iff: "UUID_eq m a b \<longleftrightarrow> read_bytes m a 16 = read_bytes m b 16"
  by (auto simp: UUID_eq_def UUID_Bytes_def CompareMemory_iff ptr_view_def sizeof_UUID_bytes_def read_bytes_def)

subsection \<open>Properties\<close>

text \<open>
  C37. Random numbers come within a bounded number of steps and never from a failed try: \<open>HwGenerateRandom64\<close>
  executes at most ten \<open>rdrand\<close> instructions, returns the value of the first one that succeeds and stops
  there, and falls back to two readings of the time stamp counter only after ten failures.
\<close>

theorem HwGenerateRandom64_bounded:
  assumes "run_state (HwGenerateRandom64 hw) s = (v, s')"
  shows "\<exists>evs. failed_tries evs \<and>
    (length evs < 10 \<and> s' = s\<lparr>trace := trace s @ evs @ [EvRdRand 64 True v]\<rparr> \<or>
     length evs = 10 \<and> (\<exists>a b. s' = s\<lparr>trace := trace s @ evs @ [EvRdTsc a, EvRdTsc b]\<rparr> \<and> v = a XOR drop_bit 24 b))"
proof -
  obtain r s1 where l: "run_state (rdrand_loop (RdRand64 hw) 10 0) s = (r, s1)" by fastforce
  from rdrand_loop_spec [OF l] obtain evs where e: "failed_tries evs"
    "case r of Some v \<Rightarrow> length evs < 10 \<and> s1 = s\<lparr>trace := trace s @ evs @ [EvRdRand 64 True v]\<rparr>
     | None \<Rightarrow> length evs = 10 \<and> s1 = s\<lparr>trace := trace s @ evs\<rparr>" by blast
  show ?thesis
  proof (cases r)
    case None
    then show ?thesis
      using assms l e by (intro exI [of _ evs]) (auto simp: HwGenerateRandom64_def RDRAND_TRY_MAX_def run_state_bind hw_run)
  next
    case (Some w)
    then show ?thesis
      using assms l e by (intro exI [of _ evs]) (auto simp: HwGenerateRandom64_def RDRAND_TRY_MAX_def run_state_bind)
  qed
qed

theorem HwGenerateRandom64_bounded_witness:
  "\<exists>evs. failed_tries evs \<and>
     snd (run_state (HwGenerateRandom64 (sample_hw\<lparr>hw_rdrand := \<lambda>tr _. (length tr = 2, 42)\<rparr>)) \<lparr>trace = []\<rparr>) = \<lparr>trace = evs @ [EvRdRand 64 True 42]\<rparr>"
proof -
  let ?hw = "sample_hw\<lparr>hw_rdrand := \<lambda>tr _. (length tr = 2, 42)\<rparr>" and ?s = "\<lparr>trace = []\<rparr> :: hw_state"
  have v: "fst (run_state (HwGenerateRandom64 ?hw) ?s) = 42"
    by (simp add: HwGenerateRandom64_def RDRAND_TRY_MAX_def eval_nat_numeral run_state_bind run_RdRand64)
  have t: "length (trace (snd (run_state (HwGenerateRandom64 ?hw) ?s))) = 3"
    by (simp add: HwGenerateRandom64_def RDRAND_TRY_MAX_def eval_nat_numeral run_state_bind run_RdRand64)
  from HwGenerateRandom64_bounded [of ?hw ?s, OF prod.collapse [symmetric]] v t show ?thesis by fastforce
qed

text \<open>
  Copies of identifiers: making an identifier from another one or from an array of bytes elsewhere in
  memory gives an identifier equal to its source, leaves the source and every byte outside the new object
  alone, and \<open>operator==\<close> holds exactly when all 16 bytes agree, \<open>operator!=\<close> exactly otherwise.
\<close>

lemma UUID_copy_equal:
  assumes "ranges_apart this 16 v 16" and "ranges_apart this 16 other 16"
  shows "UUID_eq (UUID_copy v this m) this v \<and> read_bytes (UUID_copy v this m) v 16 = read_bytes m v 16 \<and>
    UUID_from_bytes v this m = UUID_copy v this m \<and> UUID_move v this m = UUID_copy v this m \<and>
    (UUID_neq (UUID_copy v this m) this other \<longleftrightarrow> read_bytes m v 16 \<noteq> read_bytes m other 16)"
proof -
  have c: "UUID_copy v this m = write_bytes m this (read_bytes m v 16)"
    using CopyMemory_memory [of this sizeof_UUID_bytes v m] assms(1) by (simp add: UUID_copy_def sizeof_UUID_bytes_def)
  show ?thesis
    using assms by (simp add: c UUID_eq_iff UUID_neq_def mem_simps)
      (simp add: c [symmetric] UUID_from_bytes_def UUID_move_def UUID_copy_def)
qed

lemma UUID_copy_equal_example: "UUID_eq (UUID_copy 0x1000 0x2000 (\<lambda>x. ucast x)) 0x2000 0x1000"
proof -
  have "ranges_apart 0x2000 16 0x1000 16" by (rule ranges_apartI) simp_all
  then show ?thesis using UUID_copy_equal by blast
qed

end
